(* ===== verification/Prelude.thy ===== *)
theory Prelude
  imports Main "HOL-Library.Word" "HOL-Library.Char_ord" "HOL-Library.List_Lexorder"
begin

text \<open>
  What every component shares: the outcome type of a C++ operation (a value, or the
  exception or undefined behaviour that ends it), the machine integers of the program,
  the conversions between characters, bytes and integers, the collections of rules
  that the component proofs use, and the runs of an abstract machine.

  A C++ exception is the value \<open>Inl e\<close>. No function of the program catches an exception
  of its own, so the state at the throw is not observed and \<open>Inl\<close> carries none.
  Behaviour that the C++ standard leaves undefined (reading past the end of a container,
  dereferencing a null or end iterator, signed overflow, dividing by zero) is the outcome
  \<open>Inl Undefined\<close>: a theorem that an operation returns \<open>Inr\<close> also says that none of
  it is reached.
\<close>

unbundle bit_operations_syntax

section \<open>Outcomes\<close>

datatype error =
    RuntimeError string
  | OutOfRange
  | BadLexicalCast
  | JsonError
  | SystemError
  | Undefined

type_synonym 'a outcome = "error + 'a"

named_theorems outcome_simps \<open>equations of sequencing over outcomes\<close>
named_theorems byte_simps \<open>conversions between characters, bytes and integers\<close>
named_theorems map_simps \<open>lookup after an update of an ordered map\<close>

definition throw :: "string \<Rightarrow> 'a outcome" where
  "throw msg = Inl (RuntimeError msg)"

fun ebind :: "'a outcome \<Rightarrow> ('a \<Rightarrow> 'b outcome) \<Rightarrow> 'b outcome" where
  "ebind (Inl e) f = Inl e"
| "ebind (Inr x) f = f x"

text \<open>A range-based loop that builds a list: the first failing element ends it.\<close>

fun map_outcome :: "('a \<Rightarrow> 'b outcome) \<Rightarrow> 'a list \<Rightarrow> 'b list outcome" where
  "map_outcome f [] = Inr []"
| "map_outcome f (x # xs) = ebind (f x) (\<lambda>y. ebind (map_outcome f xs) (\<lambda>ys. Inr (y # ys)))"

text \<open>A range-based loop that updates a state.\<close>

fun fold_outcome :: "('a \<Rightarrow> 's \<Rightarrow> 's outcome) \<Rightarrow> 'a list \<Rightarrow> 's \<Rightarrow> 's outcome" where
  "fold_outcome f [] s = Inr s"
| "fold_outcome f (x # xs) s = ebind (f x s) (fold_outcome f xs)"

lemma ebind_eq_Inr [outcome_simps]:
  "ebind m f = Inr y \<longleftrightarrow> (\<exists>x. m = Inr x \<and> f x = Inr y)"
  by (cases m) auto

lemma ebind_eq_Inl [outcome_simps]:
  "ebind m f = Inl e \<longleftrightarrow> m = Inl e \<or> (\<exists>x. m = Inr x \<and> f x = Inl e)"
  by (cases m) auto

lemma ebind_cong [fundef_cong]:
  "m = m' \<Longrightarrow> (\<And>x. m' = Inr x \<Longrightarrow> f x = f' x) \<Longrightarrow> ebind m f = ebind m' f'"
  by (cases m') auto

lemma ebind_assoc: "ebind (ebind m f) g = ebind m (\<lambda>x. ebind (f x) g)"
  by (cases m) auto

lemma throw_neq_Inr [simp]: "throw msg \<noteq> Inr x" "Inr x \<noteq> throw msg"
  by (simp_all add: throw_def)

lemma ebind_throw [simp]: "ebind (throw msg) f = throw msg"
  by (simp add: throw_def)

lemma throw_eq_throw [simp]: "(throw a = (throw b :: 'a outcome)) = (a = b)"
  by (simp add: throw_def)

lemma map_outcome_eq_Inr:
  "map_outcome f xs = Inr ys \<longleftrightarrow> list_all2 (\<lambda>x y. f x = Inr y) xs ys"
proof (induction xs arbitrary: ys)
  case Nil
  then show ?case by auto
next
  case (Cons x xs)
  then show ?case by (cases ys) (auto simp: outcome_simps)
qed

lemma map_outcome_pure: "(\<And>x. x \<in> set xs \<Longrightarrow> f x = Inr (g x)) \<Longrightarrow> map_outcome f xs = Inr (map g xs)"
  by (induction xs) auto

lemma fold_outcome_append:
  "fold_outcome f (xs @ ys) s = ebind (fold_outcome f xs s) (fold_outcome f ys)"
proof (induction xs arbitrary: s)
  case (Cons x xs)
  then show ?case by (cases "f x s") auto
qed simp

text \<open>The loop rule: an invariant of the body is an invariant of the loop.\<close>

lemma fold_outcome_invariant:
  assumes "fold_outcome f xs s = Inr t" and "P s"
    and "\<And>x s t. x \<in> set xs \<Longrightarrow> f x s = Inr t \<Longrightarrow> P s \<Longrightarrow> P t"
  shows "P t"
  using assms
proof (induction xs arbitrary: s)
  case Nil
  then show ?case by simp
next
  case (Cons x xs)
  then obtain u where u: "f x s = Inr u" "fold_outcome f xs u = Inr t"
    by (auto simp: outcome_simps)
  with Cons.prems have "P u" by auto
  with u Cons.prems(3) show ?case by (auto intro: Cons.IH)
qed

text \<open>The loop rule for a body that always succeeds: the loop is a left fold.\<close>

lemma fold_outcome_pure:
  "(\<And>x s. x \<in> set xs \<Longrightarrow> f x s = Inr (g x s)) \<Longrightarrow> fold_outcome f xs s = Inr (fold g xs s)"
  by (induction xs arbitrary: s) auto

text \<open>
  An outcome is defined when it is not undefined behaviour: it may be a value or an
  exception. The rules take a composed operation apart.
\<close>

definition defined :: "'a outcome \<Rightarrow> bool" where
  "defined m \<longleftrightarrow> m \<noteq> Inl Undefined"

lemma defined_Inr [simp]: "defined (Inr x)"
  by (simp add: defined_def)

lemma defined_throw [simp]: "defined (throw msg)"
  by (simp add: defined_def throw_def)

lemma defined_ebind: "defined m \<Longrightarrow> (\<And>x. m = Inr x \<Longrightarrow> defined (f x)) \<Longrightarrow> defined (ebind m f)"
  by (cases m) (auto simp: defined_def)

lemma defined_map_outcome: "(\<And>x. x \<in> set xs \<Longrightarrow> defined (f x)) \<Longrightarrow> defined (map_outcome f xs)"
  by (induction xs) (auto intro!: defined_ebind)

lemma defined_fold_outcome:
  assumes "P s" and "\<And>x s. x \<in> set xs \<Longrightarrow> P s \<Longrightarrow> defined (f x s)"
    and "\<And>x s t. x \<in> set xs \<Longrightarrow> P s \<Longrightarrow> f x s = Inr t \<Longrightarrow> P t"
  shows "defined (fold_outcome f xs s)"
  using assms
proof (induction xs arbitrary: s)
  case (Cons x xs)
  show ?case
    unfolding fold_outcome.simps
  proof (rule defined_ebind)
    show "defined (f x s)" using Cons.prems by simp
    show "defined (fold_outcome f xs t)" if "f x s = Inr t" for t
    proof (rule Cons.IH)
      show "P t" using Cons.prems(1) Cons.prems(3) [of x s t] that by simp
    qed (use Cons.prems(2) in simp, metis Cons.prems(3) list.set_intros(2))
  qed
qed simp

section \<open>Machine integers\<close>

text \<open>
  \<open>unsigned int\<close> is \<open>32 word\<close> and \<open>size_t\<close> in arithmetic is \<open>64 word\<close> (both wrap
  around). \<open>int\<close> is an integer in the 32-bit range: a conversion to it wraps
  (\<open>to_int\<close>), an addition that leaves the range is undefined (\<open>int_add\<close>). A C++
  \<open>double\<close> is only stored and copied by the program, so it is its IEEE bit pattern.
\<close>

type_synonym uint = "32 word"
type_synonym size_t = "64 word"
type_synonym double = "64 word"

definition to_int :: "int \<Rightarrow> int" where
  "to_int n = (n + 2147483648) mod 4294967296 - 2147483648"

definition in_int :: "int \<Rightarrow> bool" where
  "in_int n \<longleftrightarrow> - 2147483648 \<le> n \<and> n < 2147483648"

definition int_add :: "int \<Rightarrow> int \<Rightarrow> int outcome" where
  "int_add a b = (if in_int (a + b) then Inr (a + b) else Inl Undefined)"

lemma to_int_id: "in_int n \<Longrightarrow> to_int n = n"
  by (simp add: to_int_def in_int_def)

lemma in_int_to_int: "in_int (to_int n)"
  by (simp add: to_int_def in_int_def)

lemma int_add_Inr: "int_add a b = Inr c \<longleftrightarrow> c = a + b \<and> in_int c"
  by (auto simp: int_add_def)

section \<open>Characters and bytes\<close>

text \<open>
  A \<open>std::string\<close> is a list of bytes, which HOL's \<open>char\<close> is. \<open>(unsigned char)\<close> of
  an \<open>int\<close> keeps its low eight bits, as \<open>char_of\<close> does.
\<close>

abbreviation uchar :: "int \<Rightarrow> char" where
  "uchar n \<equiv> char_of n"

definition uchar_word :: "uint \<Rightarrow> char" where
  "uchar_word w = char_of (unat w)"

abbreviation byte :: "char \<Rightarrow> nat" where
  "byte c \<equiv> of_char c"

lemma byte_less: "byte c < 256"
  by simp

lemma byte_uchar [byte_simps]: "byte (uchar n) = nat (n mod 256)"
proof -
  have "int (byte (uchar n)) = n mod 256" by (simp add: of_nat_of_char)
  then show ?thesis by linarith
qed

lemma unat_uint_less: "unat w < 4294967296" for w :: uint
proof -
  have "unat w < 2 ^ LENGTH(32)" by (rule unsigned_less)
  then show ?thesis by simp
qed

lemma unat_of_byte [byte_simps]: "unat (of_nat (byte c) :: uint) = byte c"
proof -
  have "byte c < 2 ^ 32" using byte_less [of c] by (rule less_trans) simp
  then show ?thesis by (simp add: unat_of_nat take_bit_nat_eq_self)
qed

lemma byte_uchar_word [byte_simps]: "byte (uchar_word w) = unat w mod 256"
  by (simp add: uchar_word_def)

text \<open>Byte \<open>i\<close> of a word, counted from the least significant one.\<close>

definition be_byte :: "nat \<Rightarrow> uint \<Rightarrow> char" where
  "be_byte i w = uchar_word (drop_bit (8 * i) w AND 255)"

lemma and_255: "w AND 255 = take_bit 8 w" for w :: uint
  by (simp add: take_bit_eq_mask mask_eq_exp_minus_1)

lemma of_nat_byte_and_255: "of_nat (byte (uchar_word (w AND 255))) = take_bit 8 w" for w :: uint
proof -
  have "unat (take_bit 8 w) < 256"
    by (simp only: unsigned_take_bit_eq) (simp add: take_bit_eq_mod)
  then have "byte (uchar_word (w AND 255)) = unat (take_bit 8 w)"
    by (simp add: and_255 byte_uchar_word)
  then show ?thesis by simp
qed

text \<open>A word is put together again from its bytes.\<close>

lemma join_bytes_32:
  "push_bit 24 (take_bit 8 (drop_bit 24 w)) OR push_bit 16 (take_bit 8 (drop_bit 16 w))
     OR push_bit 8 (take_bit 8 (drop_bit 8 w)) OR take_bit 8 w = w"
  (is "?lhs = ?rhs") for w :: uint
proof (rule bit_word_eqI)
  fix n assume "n < LENGTH(32)"
  then show "bit (?lhs) n = bit ?rhs n"
    by (cases "n < 8"; cases "n < 16"; cases "n < 24") (auto simp: bit_simps)
qed

lemma join_bytes_24:
  "push_bit 16 (take_bit 8 (drop_bit 16 w)) OR push_bit 8 (take_bit 8 (drop_bit 8 w))
     OR take_bit 8 w = take_bit 24 w"
  (is "?lhs = ?rhs") for w :: uint
proof (rule bit_word_eqI)
  fix n assume "n < LENGTH(32)"
  then show "bit (?lhs) n = bit ?rhs n"
    by (cases "n < 8"; cases "n < 16"; cases "n < 24") (auto simp: bit_simps)
qed

section \<open>Runs of a machine\<close>

text \<open>A run of a machine that is given as a partial function on states.\<close>

fun machine_run :: "('s \<Rightarrow> 'a \<Rightarrow> 's option) \<Rightarrow> 's \<Rightarrow> 'a list \<Rightarrow> 's option" where
  "machine_run astep s [] = Some s"
| "machine_run astep s (a # as) = (case astep s a of None \<Rightarrow> None | Some s' \<Rightarrow> machine_run astep s' as)"

lemma machine_run_snoc: "machine_run astep s (as @ [a]) = (case machine_run astep s as of None \<Rightarrow> None | Some s' \<Rightarrow> astep s' a)"
  by (induction as arbitrary: s) (auto split: option.split)

end
