(* ===== verification/Std_Lib.thy ===== *)
theory Std_Lib
  imports Prelude
begin

text \<open>
  What the program uses of the C++ standard library: \<open>std::map\<close> as an association list
  in increasing order of its keys (the order in which the program iterates over it),
  checked and unchecked element access, \<open>std::string::find\<close> and \<open>substr\<close> with the
  wrap-around of \<open>size_t\<close>, and the stream formatting of unsigned integers.
\<close>

section \<open>Ordered maps\<close>

type_synonym ('k, 'v) smap = "('k \<times> 'v) list"

fun map_put :: "'k::linorder \<Rightarrow> 'v \<Rightarrow> ('k, 'v) smap \<Rightarrow> ('k, 'v) smap" where
  "map_put k v [] = [(k, v)]"
| "map_put k v ((k', v') # m) =
     (if k < k' then (k, v) # (k', v') # m
      else if k = k' then (k, v) # m
      else (k', v') # map_put k v m)"

fun map_erase :: "'k \<Rightarrow> ('k, 'v) smap \<Rightarrow> ('k, 'v) smap" where
  "map_erase k [] = []"
| "map_erase k ((k', v') # m) = (if k = k' then m else (k', v') # map_erase k m)"

text \<open>\<open>insert\<close> leaves an element that is already there alone.\<close>

definition map_insert :: "'k::linorder \<Rightarrow> 'v \<Rightarrow> ('k, 'v) smap \<Rightarrow> ('k, 'v) smap" where
  "map_insert k v m = (case map_of m k of None \<Rightarrow> map_put k v m | Some _ \<Rightarrow> m)"

text \<open>
  \<open>m[k]\<close> as an expression: an absent key is inserted with a value-initialised element
  (a null pointer, a zero, the first enumerator, an empty container), which the type
  class \<open>default\<close> names. The result is the element and the map after the call.
\<close>

definition map_index :: "'k::linorder \<Rightarrow> ('k, 'v::default) smap \<Rightarrow> 'v \<times> ('k, 'v) smap" where
  "map_index k m = (case map_of m k of
     Some v \<Rightarrow> (v, m)
   | None \<Rightarrow> (default, map_put k default m))"

text \<open>\<open>m.begin()\<close> dereferenced; on an empty map that is the end iterator.\<close>

definition map_begin :: "('k, 'v) smap \<Rightarrow> ('k \<times> 'v) outcome" where
  "map_begin m = (case m of [] \<Rightarrow> Inl Undefined | x # _ \<Rightarrow> Inr x)"

definition map_ok :: "('k::linorder, 'v) smap \<Rightarrow> bool" where
  "map_ok m \<longleftrightarrow> sorted_wrt (<) (map fst m)"

lemma map_ok_Nil [simp]: "map_ok []"
  by (simp add: map_ok_def)

lemma map_ok_Cons: "map_ok ((k, v) # m) \<longleftrightarrow> (\<forall>k' \<in> fst ` set m. k < k') \<and> map_ok m"
  by (simp add: map_ok_def)

lemma map_ok_distinct: "map_ok m \<Longrightarrow> distinct (map fst m)"
  unfolding map_ok_def by (simp add: strict_sorted_iff)

lemma fst_map_put: "fst ` set (map_put k v m) = insert k (fst ` set m)"
  by (induction k v m rule: map_put.induct) auto

lemma map_ok_put [simp]: "map_ok m \<Longrightarrow> map_ok (map_put k v m)"
  by (induction k v m rule: map_put.induct) (auto simp: map_ok_Cons fst_map_put)

lemma map_of_put [map_simps]: "map_ok m \<Longrightarrow> map_of (map_put k v m) = (map_of m)(k \<mapsto> v)"
proof (induction k v m rule: map_put.induct)
  case (2 k v k' v' m)
  then have "k \<notin> fst ` set m" if "k < k'" using that by (fastforce simp: map_ok_Cons)
  with 2 show ?case
    by (auto simp: map_ok_Cons fun_eq_iff map_of_eq_None_iff)
qed auto

lemma set_map_erase: "set (map_erase k m) \<subseteq> set m"
  by (induction k m rule: map_erase.induct) auto

lemma map_ok_erase [simp]: "map_ok m \<Longrightarrow> map_ok (map_erase k m)"
proof (induction k m rule: map_erase.induct)
  case (2 k k' v' m)
  then show ?case using set_map_erase [of k m] by (auto simp: map_ok_Cons)
qed simp

lemma map_of_erase [map_simps]: "map_ok m \<Longrightarrow> map_of (map_erase k m) = (map_of m)(k := None)"
proof (induction k m rule: map_erase.induct)
  case (2 k k' v' m)
  then have "map_of m k' = None" by (auto simp: map_ok_Cons map_of_eq_None_iff)
  with 2 show ?case by (auto simp: map_ok_Cons fun_eq_iff)
qed auto

lemma map_ok_insert [simp]: "map_ok m \<Longrightarrow> map_ok (map_insert k v m)"
  by (simp add: map_insert_def split: option.splits)

lemma map_of_insert [map_simps]:
  "map_ok m \<Longrightarrow> map_of (map_insert k v m) =
     (if map_of m k = None then (map_of m)(k \<mapsto> v) else map_of m)"
  by (auto simp: map_insert_def map_of_put split: option.splits)

lemma map_ok_index [simp]: "map_ok m \<Longrightarrow> map_ok (snd (map_index k m))"
  by (simp add: map_index_def split: option.splits)

lemma map_index_present: "map_of m k = Some v \<Longrightarrow> map_index k m = (v, m)"
  by (simp add: map_index_def)

lemma map_index_absent: "map_of m k = None \<Longrightarrow> map_index k m = (default, map_put k default m)"
  by (simp add: map_index_def)

lemma map_of_index [map_simps]:
  "map_ok m \<Longrightarrow> map_of (snd (map_index k m)) =
     (if map_of m k = None then (map_of m)(k \<mapsto> default) else map_of m)"
  by (auto simp: map_index_def map_of_put split: option.splits)

text \<open>Two ordered maps with the same lookups are the same map.\<close>

lemma map_ok_ext:
  assumes "map_ok m" and "map_ok m'" and "map_of m = map_of m'"
  shows "m = m'"
proof -
  have dom: "set (map fst m) = set (map fst m')"
    using assms(3) by (metis dom_map_of_conv_image_fst set_map)
  have keys: "map fst m = map fst m'"
    using assms(1,2) dom strict_sorted_equal unfolding map_ok_def by metis
  then have len: "length m = length m'" by (metis length_map)
  show ?thesis
  proof (rule nth_equalityI [OF len])
    fix i assume i: "i < length m"
    have fst: "fst (m ! i) = fst (m' ! i)" using keys i len by (metis nth_map)
    have "map_of m (fst (m ! i)) = Some (snd (m ! i))"
      using i map_ok_distinct [OF assms(1)] by simp
    moreover have "map_of m' (fst (m' ! i)) = Some (snd (m' ! i))"
      using i len map_ok_distinct [OF assms(2)] by simp
    ultimately show "m ! i = m' ! i"
      using assms(3) fst by (simp add: prod_eq_iff)
  qed
qed

text \<open>The elements of a \<open>std::set\<close> are the keys of a map to units.\<close>

abbreviation set_insert :: "'k::linorder \<Rightarrow> 'k list \<Rightarrow> 'k list" where
  "set_insert x xs \<equiv> map fst (map_put x () (map (\<lambda>y. (y, ())) xs))"

lemma set_insert_set: "set (set_insert x xs) = insert x (set xs)"
proof -
  have "fst ` set (map_put x () (map (\<lambda>y. (y, ())) xs)) = insert x (set xs)"
    unfolding fst_map_put by force
  then show ?thesis by simp
qed

lemma set_insert_sorted:
  assumes "sorted_wrt (<) xs"
  shows "sorted_wrt (<) (set_insert x xs)"
proof -
  have "map_ok (map (\<lambda>y. (y, ())) xs)"
    using assms by (simp add: map_ok_def comp_def)
  from map_ok_put [OF this, of x "()"] show ?thesis by (simp add: map_ok_def)
qed

instantiation option :: (type) default
begin
definition default_option :: "'a option" where
  "default_option = None"
instance ..
end

instantiation list :: (type) default
begin
definition default_list :: "'a list" where
  "default_list = []"
instance ..
end

section \<open>Element access\<close>

definition vec_at :: "'a list \<Rightarrow> int \<Rightarrow> 'a outcome" where
  "vec_at xs i = (if 0 \<le> i \<and> i < int (length xs) then Inr (xs ! nat i) else Inl OutOfRange)"

definition vec_index :: "'a list \<Rightarrow> nat \<Rightarrow> 'a outcome" where
  "vec_index xs i = (if i < length xs then Inr (xs ! i) else Inl Undefined)"

text \<open>\<open>s[i]\<close> of a constant string: the terminating null at the end, undefined beyond.\<close>

definition str_index :: "string \<Rightarrow> int \<Rightarrow> char outcome" where
  "str_index s i =
     (if 0 \<le> i \<and> i < int (length s) then Inr (s ! nat i)
      else if i = int (length s) then Inr (CHR 0x00)
      else Inl Undefined)"

lemma vec_at_nth: "i < length xs \<Longrightarrow> vec_at xs (int i) = Inr (xs ! i)"
  by (simp add: vec_at_def)

lemma vec_at_Inr: "vec_at xs i = Inr x \<longleftrightarrow> 0 \<le> i \<and> nat i < length xs \<and> x = xs ! nat i"
  by (auto simp: vec_at_def)

lemma str_index_nth: "i < length s \<Longrightarrow> str_index s (int i) = Inr (s ! i)"
  by (simp add: str_index_def)

lemma str_index_append:
  "str_index (pre @ c # post) (int (length pre)) = Inr c"
  by (simp add: str_index_def)

section \<open>Searching and cutting strings\<close>

definition npos :: "size_t" where
  "npos = - 1"

fun find_from :: "string \<Rightarrow> string \<Rightarrow> nat option" where
  "find_from pat [] = (if pat = [] then Some 0 else None)"
| "find_from pat (c # s) =
     (if take (length pat) (c # s) = pat then Some 0 else map_option Suc (find_from pat s))"

definition str_find :: "string \<Rightarrow> string \<Rightarrow> size_t" where
  "str_find s pat = (case find_from pat s of Some i \<Rightarrow> of_nat i | None \<Rightarrow> npos)"

definition str_size :: "string \<Rightarrow> size_t" where
  "str_size s = of_nat (length s)"

definition substr :: "string \<Rightarrow> size_t \<Rightarrow> size_t \<Rightarrow> string outcome" where
  "substr s pos n =
     (if unat pos \<le> length s then Inr (take (unat n) (drop (unat pos) s)) else Inl OutOfRange)"

section \<open>Formatting unsigned integers\<close>

fun digit :: "nat \<Rightarrow> char" where
  "digit d = (if d < 10 then char_of (48 + d) else char_of (87 + d))"

fun show_base :: "nat \<Rightarrow> nat \<Rightarrow> string" where
  "show_base b n = (if n < b \<or> b < 2 then [digit n] else show_base b (n div b) @ [digit (n mod b)])"

declare show_base.simps [simp del]

abbreviation show_dec :: "nat \<Rightarrow> string" where
  "show_dec n \<equiv> show_base 10 n"

abbreviation show_hex :: "nat \<Rightarrow> string" where
  "show_hex n \<equiv> show_base 16 n"

text \<open>\<open>operator<<\<close> of an \<open>int\<close>.\<close>

definition show_int :: "int \<Rightarrow> string" where
  "show_int i = (if i < 0 then CHR ''-'' # show_dec (nat (- i)) else show_dec (nat i))"

text \<open>\<open>std::setw(n)\<close>: pad with blanks on the left, never cut.\<close>

definition setw :: "nat \<Rightarrow> string \<Rightarrow> string" where
  "setw n s = replicate (n - length s) CHR '' '' @ s"

definition is_space :: "char \<Rightarrow> bool" where
  "is_space c \<longleftrightarrow> byte c = 32 \<or> 9 \<le> byte c \<and> byte c \<le> 13"

fun hex_digit :: "char \<Rightarrow> nat option" where
  "hex_digit c =
     (let b = byte c in
      if 48 \<le> b \<and> b \<le> 57 then Some (b - 48)
      else if 97 \<le> b \<and> b \<le> 102 then Some (b - 87)
      else if 65 \<le> b \<and> b \<le> 70 then Some (b - 55)
      else None)"

fun hex_digits :: "string \<Rightarrow> nat list" where
  "hex_digits [] = []"
| "hex_digits (c # s) = (case hex_digit c of Some d \<Rightarrow> d # hex_digits s | None \<Rightarrow> [])"

definition horner :: "nat \<Rightarrow> nat list \<Rightarrow> nat" where
  "horner b ds = foldl (\<lambda>v d. b * v + d) 0 ds"

text \<open>
  \<open>is >> std::hex >> x\<close> for an \<open>unsigned int\<close>: blanks are skipped, a sign and a
  \<open>0x\<close> may precede the digits, and the extraction fails on no digit and on a value that
  does not fit.
\<close>

definition skip_sign :: "string \<Rightarrow> bool \<times> string" where
  "skip_sign s = (case s of
     [] \<Rightarrow> (False, [])
   | c # s' \<Rightarrow> if c = CHR ''-'' then (True, s') else if c = CHR ''+'' then (False, s') else (False, s))"

definition skip_0x :: "string \<Rightarrow> string" where
  "skip_0x s = (case s of
     c # x # s' \<Rightarrow> if c = CHR ''0'' \<and> (x = CHR ''x'' \<or> x = CHR ''X'') then s' else s
   | _ \<Rightarrow> s)"

definition read_hex :: "string \<Rightarrow> uint option" where
  "read_hex s =
     (let (neg, t) = skip_sign (dropWhile is_space s);
          ds = hex_digits (skip_0x t); v = horner 16 ds in
      if ds = [] \<or> 2 ^ 32 \<le> v then None
      else Some (if neg then - of_nat v else of_nat v))"

text \<open>Hexadecimal output is read back.\<close>

lemma hex_digit_digit: "d < 16 \<Longrightarrow> hex_digit (digit d) = Some d"
  by (simp add: Let_def)

lemma digit_not_special:
  "d < 16 \<Longrightarrow> digit d \<noteq> CHR ''-'' \<and> digit d \<noteq> CHR ''+'' \<and> digit d \<noteq> CHR ''x'' \<and> digit d \<noteq> CHR ''X''
    \<and> \<not> is_space (digit d)"
  by (auto simp: is_space_def simp flip: of_char_eq_iff [where 'a = nat])

declare hex_digit.simps [simp del] digit.simps [simp del]

lemma set_show_hex: "c \<in> set (show_hex n) \<Longrightarrow> \<exists>d < 16. c = digit d"
proof (induction "16 :: nat" n rule: show_base.induct)
  case (1 n)
  show ?case
  proof (cases "n < 16")
    case True
    with "1.prems" show ?thesis by (subst (asm) show_base.simps) auto
  next
    case False
    with "1.prems" have "c \<in> set (show_hex (n div 16)) \<or> c = digit (n mod 16)"
      by (subst (asm) show_base.simps) auto
    then show ?thesis
    proof
      assume "c \<in> set (show_hex (n div 16))"
      with "1.hyps" False show ?thesis by simp
    next
      assume "c = digit (n mod 16)"
      then show ?thesis by (intro exI [of _ "n mod 16"]) simp
    qed
  qed
qed

lemma show_base_not_Nil [simp]: "show_base b n \<noteq> []"
  by (subst show_base.simps) simp

lemma length_show_hex: "n < 16 ^ k \<Longrightarrow> 0 < k \<Longrightarrow> length (show_hex n) \<le> k"
proof (induction k arbitrary: n)
  case (Suc k)
  show ?case
  proof (cases "n < 16")
    case False
    with Suc.prems have "0 < k" "n div 16 < 16 ^ k" by (cases k; simp)+
    with Suc.IH have "length (show_hex (n div 16)) \<le> k" by blast
    with False show ?thesis by (subst show_base.simps) simp
  qed (subst show_base.simps, simp)
qed simp

lemma hex_digits_append:
  "(\<And>c. c \<in> set s \<Longrightarrow> hex_digit c \<noteq> None) \<Longrightarrow> hex_digits (s @ t) = hex_digits s @ hex_digits t"
proof (induction s)
  case (Cons c s)
  then obtain d where "hex_digit c = Some d" by fastforce
  with Cons show ?case by simp
qed simp

lemma horner_snoc: "horner b (ds @ [d]) = b * horner b ds + d"
  by (simp add: horner_def)

lemma horner_hex_digits: "horner 16 (hex_digits (show_hex n)) = n"
proof (induction "16 :: nat" n rule: show_base.induct)
  case (1 n)
  show ?case
  proof (cases "n < 16")
    case True
    then show ?thesis by (subst show_base.simps) (simp add: hex_digit_digit horner_def)
  next
    case False
    have "hex_digits (show_hex n) = hex_digits (show_hex (n div 16) @ [digit (n mod 16)])"
      using False by (subst show_base.simps) simp
    also have "\<dots> = hex_digits (show_hex (n div 16)) @ [n mod 16]"
      by (subst hex_digits_append) (auto dest!: set_show_hex simp: hex_digit_digit)
    finally show ?thesis using "1.hyps" False by (simp add: horner_snoc)
  qed
qed

lemma show_hex_Cons:
  obtains d s where "d < 16" and "show_hex n = digit d # s" and "\<forall>c \<in> set s. \<exists>d < 16. c = digit d"
proof -
  obtain c s where cs: "show_hex n = c # s" by (metis show_base_not_Nil list.exhaust)
  then have "\<forall>c' \<in> set (c # s). \<exists>d < 16. c' = digit d" using set_show_hex by metis
  with cs that show thesis by auto
qed

lemma skip_0x_hex: "\<forall>c \<in> set s. \<exists>d < 16. c = digit d \<Longrightarrow> skip_0x (digit d # s) = digit d # s"
  using digit_not_special by (fastforce simp: skip_0x_def split: list.splits)

lemma read_hex_setw: "n < 2 ^ 32 \<Longrightarrow> read_hex (setw k (show_hex n)) = Some (of_nat n)"
proof -
  assume n: "n < 2 ^ 32"
  obtain d s where d: "d < 16" and hex: "show_hex n = digit d # s"
    and s: "\<forall>c \<in> set s. \<exists>d < 16. c = digit d"
    by (rule show_hex_Cons)
  have blank: "is_space CHR '' ''" by (simp add: is_space_def)
  have "dropWhile is_space (setw k (show_hex n)) = show_hex n"
    using blank d by (simp add: setw_def hex digit_not_special dropWhile_append3)
  moreover have "skip_sign (show_hex n) = (False, show_hex n)"
    using d by (simp add: hex skip_sign_def digit_not_special)
  moreover have "skip_0x (show_hex n) = show_hex n"
    using s by (simp add: hex skip_0x_hex)
  moreover have "hex_digits (show_hex n) \<noteq> []"
    using d by (simp add: hex hex_digit_digit)
  ultimately show ?thesis
    using n by (simp add: read_hex_def horner_hex_digits)
qed

end
