(* ===== verification/Codec.thy ===== *)
theory Codec
  imports Std_Lib
begin

text \<open>
  The two contracts of the wire format. A \<open>header_codec\<close> is a fixed-width header that
  announces how many bytes of body follow it: a reader that takes the width, decodes, and
  then takes the announced number of bytes recovers header and body and leaves the rest
  of the stream alone. A \<open>field_codec\<close> is a fixed-width field read at an offset of a
  string: a sequence of such fields is read back one after the other.
  The bundle headers and the 3-byte message lengths interpret them in Bundle_Version.
\<close>

section \<open>Headers that announce a body\<close>

definition frame :: "('h \<Rightarrow> string) \<Rightarrow> 'h \<Rightarrow> string \<Rightarrow> string" where
  "frame enc h body = enc h @ body"

definition unframe ::
  "nat \<Rightarrow> (string \<Rightarrow> 'h outcome) \<Rightarrow> ('h \<Rightarrow> nat) \<Rightarrow> string \<Rightarrow> ('h \<times> string \<times> string) outcome" where
  "unframe width dec body_len s =
     ebind (dec (take width s)) (\<lambda>h.
       let t = drop width s in Inr (h, take (body_len h) t, drop (body_len h) t))"

locale header_codec =
  fixes width :: nat
    and enc :: "'h \<Rightarrow> string"
    and dec :: "string \<Rightarrow> 'h outcome"
    and body_len :: "'h \<Rightarrow> nat"
    and valid :: "'h \<Rightarrow> bool"
  assumes enc_width: "valid h \<Longrightarrow> length (enc h) = width"
    and dec_enc: "valid h \<Longrightarrow> dec (enc h) = Inr h"
begin

lemma enc_inj: "valid h \<Longrightarrow> valid h' \<Longrightarrow> enc h = enc h' \<Longrightarrow> h = h'"
  by (metis dec_enc sum.inject(2))

lemma enc_prefix_free:
  assumes "valid h" and "valid h'" and "enc h @ s = enc h' @ s'"
  shows "h = h'" and "s = s'"
proof -
  have "enc h = enc h'" "s = s'"
    using assms enc_width append_eq_append_conv by metis+
  then show "h = h'" "s = s'" using assms(1,2) enc_inj by blast+
qed

lemma unframe_frame:
  assumes "valid h" and "length body = body_len h"
  shows "unframe width dec body_len (frame enc h body @ rest) = Inr (h, body, rest)"
  using assms by (simp add: unframe_def frame_def enc_width dec_enc)

text \<open>
  A stream of frames has one reading: two sequences of frames with the same bytes are
  the same sequence.
\<close>

lemma frames_unique:
  assumes "\<forall>(h, b) \<in> set xs. valid h \<and> length b = body_len h"
    and "\<forall>(h, b) \<in> set ys. valid h \<and> length b = body_len h"
    and "concat (map (\<lambda>(h, b). frame enc h b) xs) = concat (map (\<lambda>(h, b). frame enc h b) ys)"
    and "0 < width"
  shows "xs = ys"
  using assms
proof (induction xs arbitrary: ys)
  case Nil
  then show ?case
    by (cases ys) (auto simp: frame_def dest: enc_width)
next
  case (Cons x xs)
  obtain h b where x: "x = (h, b)" by (cases x)
  from Cons.prems x have vh: "valid h" "length b = body_len h" by auto
  with Cons.prems have "ys \<noteq> []" using x by (auto simp: frame_def dest: enc_width)
  then obtain h' b' zs where ys: "ys = (h', b') # zs"
    by (metis list.exhaust surj_pair)
  with Cons.prems have vh': "valid h'" "length b' = body_len h'" by auto
  let ?rest = "\<lambda>zs. concat (map (\<lambda>(h, b). frame enc h b) zs)"
  from Cons.prems(3) x ys have eq: "enc h @ (b @ ?rest xs) = enc h' @ (b' @ ?rest zs)"
    by (simp add: frame_def)
  from enc_prefix_free [OF vh(1) vh'(1) eq] have "h = h'" "b @ ?rest xs = b' @ ?rest zs" .
  with vh vh' have "b = b'" "?rest xs = ?rest zs" by (simp_all add: append_eq_append_conv)
  with Cons.IH [of zs] Cons.prems x ys \<open>h = h'\<close> show ?case by auto
qed

end

section \<open>Fields read at an offset\<close>

fun read_fields :: "(string \<Rightarrow> int \<Rightarrow> 'a outcome) \<Rightarrow> int \<Rightarrow> nat \<Rightarrow> string \<Rightarrow> int \<Rightarrow> ('a list \<times> int) outcome" where
  "read_fields rd w 0 s i = Inr ([], i)"
| "read_fields rd w (Suc n) s i =
     ebind (rd s i) (\<lambda>x.
     ebind (int_add i w) (\<lambda>i'.
     ebind (read_fields rd w n s i') (\<lambda>(xs, j). Inr (x # xs, j))))"

locale field_codec =
  fixes width :: nat
    and enc :: "'a \<Rightarrow> string"
    and rd :: "string \<Rightarrow> int \<Rightarrow> 'a outcome"
    and valid :: "'a \<Rightarrow> bool"
  assumes enc_width: "length (enc x) = width"
    and rd_enc: "valid x \<Longrightarrow> in_int (int (length pre + width)) \<Longrightarrow> rd (pre @ enc x @ post) (int (length pre)) = Inr x"
begin

lemma length_fields: "length (concat (map enc xs)) = width * length xs"
  by (induction xs) (simp_all add: enc_width)

lemma read_fields_enc:
  assumes "\<forall>x \<in> set xs. valid x"
    and "in_int (int (length pre + width * length xs))"
  shows "read_fields rd (int width) (length xs) (pre @ concat (map enc xs) @ post) (int (length pre))
         = Inr (xs, int (length pre + width * length xs))"
  using assms
proof (induction xs arbitrary: pre)
  case Nil
  then show ?case by simp
next
  case (Cons x xs)
  let ?s = "pre @ enc x @ concat (map enc xs) @ post"
  have fits: "in_int (int (length pre + width))"
  proof -
    have "length pre + width \<le> length pre + width * length (x # xs)" by simp
    then have "int (length pre) + int width \<le> int (length pre + width * length (x # xs))"
      by linarith
    with Cons.prems(2) have "int (length pre) + int width < 2147483648"
      unfolding in_int_def by linarith
    then show ?thesis by (simp add: in_int_def)
  qed
  then have rd: "rd ?s (int (length pre)) = Inr x"
    using Cons.prems(1) by (intro rd_enc) simp_all
  from fits have add: "int_add (int (length pre)) (int width) = Inr (int (length (pre @ enc x)))"
    by (simp add: int_add_Inr enc_width)
  have "read_fields rd (int width) (length xs) ((pre @ enc x) @ concat (map enc xs) @ post)
          (int (length (pre @ enc x)))
        = Inr (xs, int (length (pre @ enc x) + width * length xs))"
    using Cons.prems by (intro Cons.IH) (simp_all add: enc_width add.assoc)
  with rd add show ?case by (simp add: enc_width algebra_simps)
qed

end

end
