(* ===== verification/Bundle_Version.thy ===== *)
theory Bundle_Version
  imports Codec
begin

text \<open>
  model/bundle_version.h and .cc: the bundle format flags, the fixed-length bundle header
  in its two formats (v0: the body length as 8 hexadecimal characters; v1: a version byte,
  two identifier lengths, the message count and the body length in big-endian order), and
  the varying header of v1. The body length is put together in \<open>int\<close>; the shift of the
  first byte into the sign bit is taken modulo \<open>2 ^ 32\<close>, as the compilers do it.
\<close>

section \<open>The format flags and the header structs\<close>

definition NEW_BUNDLES :: bool where
  "NEW_BUNDLES = True"

definition PREFER_BINARY_MESSAGES :: bool where
  "PREFER_BINARY_MESSAGES = False"

definition header_length :: nat where
  "header_length = 8"

record BundleHeader =
  sendIdLen :: int
  destIdLen :: int
  messageCount :: int
  remLen :: uint

definition new_BundleHeader :: BundleHeader where
  "new_BundleHeader = \<lparr>sendIdLen = 0, destIdLen = 0, messageCount = 0, remLen = 0\<rparr>"

record VaryHeader =
  sendId :: string
  destId :: string
  msgLengths :: "uint list"

definition new_VaryHeader :: VaryHeader where
  "new_VaryHeader = \<lparr>sendId = [], destId = [], msgLengths = []\<rparr>"

section \<open>Version 1\<close>

definition make_bundle_header_v1 :: "BundleHeader \<Rightarrow> string" where
  "make_bundle_header_v1 header =
     [uchar 1,
      uchar (sendIdLen header),
      uchar (destIdLen header),
      uchar (messageCount header),
      uchar_word (drop_bit 24 (remLen header) AND 255),
      uchar_word (drop_bit 16 (remLen header) AND 255),
      uchar_word (drop_bit 8 (remLen header) AND 255),
      uchar_word (remLen header AND 255)]"

definition read_bundle_header_v1 :: "string \<Rightarrow> BundleHeader outcome" where
  "read_bundle_header_v1 header =
     ebind (str_index header 0) (\<lambda>c0.
     if byte c0 \<noteq> 1 then throw ''Invalid header version.'' else
     ebind (str_index header 1) (\<lambda>c1.
     ebind (str_index header 2) (\<lambda>c2.
     ebind (str_index header 3) (\<lambda>c3.
     ebind (str_index header 4) (\<lambda>c4.
     ebind (str_index header 5) (\<lambda>c5.
     ebind (str_index header 6) (\<lambda>c6.
     ebind (str_index header 7) (\<lambda>c7.
     Inr \<lparr>sendIdLen = int (byte c1), destIdLen = int (byte c2), messageCount = int (byte c3),
          remLen = push_bit 24 (of_nat (byte c4)) OR push_bit 16 (of_nat (byte c5))
                   OR push_bit 8 (of_nat (byte c6)) OR of_nat (byte c7)\<rparr>))))))))"

section \<open>Version 0\<close>

definition make_bundle_header_v0 :: "BundleHeader \<Rightarrow> string" where
  "make_bundle_header_v0 header =
     (let s = setw header_length (show_hex (unat (remLen header)))
      in if length s \<noteq> header_length then [] else s)"

definition read_bundle_header_v0 :: "string \<Rightarrow> BundleHeader outcome" where
  "read_bundle_header_v0 header =
     Inr (new_BundleHeader\<lparr>remLen := (case read_hex header of Some n \<Rightarrow> n | None \<Rightarrow> 0)\<rparr>)"

section \<open>The format in use\<close>

definition make_bundle_header :: "BundleHeader \<Rightarrow> string" where
  "make_bundle_header header =
     (if NEW_BUNDLES then make_bundle_header_v1 header else make_bundle_header_v0 header)"

definition read_bundle_header :: "string \<Rightarrow> BundleHeader outcome" where
  "read_bundle_header header =
     (if NEW_BUNDLES then read_bundle_header_v1 header else read_bundle_header_v0 header)"

section \<open>The version 1 header is a codec\<close>

text \<open>A header that v1 can carry: identifiers and message count fit a byte.\<close>

definition header_fits :: "BundleHeader \<Rightarrow> bool" where
  "header_fits h \<longleftrightarrow> sendIdLen h \<in> {0..<256} \<and> destIdLen h \<in> {0..<256} \<and> messageCount h \<in> {0..<256}"

lemma length_make_v1: "length (make_bundle_header_v1 h) = header_length"
  by (simp add: make_bundle_header_v1_def header_length_def)

lemma read_v1_bytes:
  "read_bundle_header_v1 [c0, c1, c2, c3, c4, c5, c6, c7] =
     (if byte c0 \<noteq> 1 then throw ''Invalid header version.''
      else Inr \<lparr>sendIdLen = int (byte c1), destIdLen = int (byte c2), messageCount = int (byte c3),
        remLen = push_bit 24 (of_nat (byte c4)) OR push_bit 16 (of_nat (byte c5))
                 OR push_bit 8 (of_nat (byte c6)) OR of_nat (byte c7)\<rparr>)"
  by (simp add: read_bundle_header_v1_def str_index_def)

text \<open>
  What a v1 header keeps of any header: the body length in full, the three counts modulo
  256, because \<open>(unsigned char)\<close> cuts them without a check.
\<close>

lemma read_make_v1:
  "read_bundle_header_v1 (make_bundle_header_v1 h) =
     Inr \<lparr>sendIdLen = sendIdLen h mod 256, destIdLen = destIdLen h mod 256,
          messageCount = messageCount h mod 256, remLen = remLen h\<rparr>"
  unfolding make_bundle_header_v1_def read_v1_bytes of_nat_byte_and_255
  by (simp add: join_bytes_32 byte_simps)

interpretation v1: header_codec header_length make_bundle_header_v1 read_bundle_header_v1
    "\<lambda>h. unat (remLen h)" header_fits
  by unfold_locales (simp_all add: length_make_v1 read_make_v1 header_fits_def)

section \<open>The version 0 header is a codec\<close>

lemma length_make_v0: "length (make_bundle_header_v0 h) = header_length"
proof -
  have "unat (remLen h) < 16 ^ 8" using unat_uint_less [of "remLen h"] by simp
  then have "length (show_hex (unat (remLen h))) \<le> 8" by (rule length_show_hex) simp
  then show ?thesis by (simp add: make_bundle_header_v0_def setw_def header_length_def Let_def)
qed

lemma read_make_v0:
  "read_bundle_header_v0 (make_bundle_header_v0 h) = Inr (new_BundleHeader\<lparr>remLen := remLen h\<rparr>)"
proof -
  have "make_bundle_header_v0 h = setw header_length (show_hex (unat (remLen h)))"
    using length_make_v0 [of h]
    by (auto simp: make_bundle_header_v0_def Let_def header_length_def split: if_splits)
  moreover have "read_hex (setw header_length (show_hex (unat (remLen h)))) = Some (remLen h)"
    using unat_uint_less [of "remLen h"] by (subst read_hex_setw) simp_all
  ultimately show ?thesis by (simp add: read_bundle_header_v0_def)
qed

interpretation v0: header_codec header_length make_bundle_header_v0 read_bundle_header_v0
    "\<lambda>h. unat (remLen h)" "\<lambda>h. h = new_BundleHeader\<lparr>remLen := remLen h\<rparr>"
  by unfold_locales (simp_all add: length_make_v0 read_make_v0)

text \<open>The format in use is version 1.\<close>

lemma make_bundle_header_in_use: "make_bundle_header = make_bundle_header_v1"
  by (simp add: fun_eq_iff make_bundle_header_def NEW_BUNDLES_def)

lemma read_bundle_header_in_use: "read_bundle_header = read_bundle_header_v1"
  by (simp add: fun_eq_iff read_bundle_header_def NEW_BUNDLES_def)

end
