(* ===== verification/Json_Lib.thy ===== *)
theory Json_Lib
  imports Std_Lib
begin

text \<open>
  JsonCpp is a library the program links against, so it is a parameter of the model: a
  record of the functions the program calls. Its value type is the tagged union that
  \<open>JsonSingleLineWriter::writeValue\<close> takes apart; an object lists its members in the
  order in which \<open>getMemberNames\<close> gives them. An accessor on a value of the wrong kind
  has an outcome of its own, so nothing is assumed about it.

  \<open>json_doc\<close> is what the library documents of values of the right kind, and what the
  theorems about message contents assume; \<open>demo_json\<close> is an instance that meets it.
\<close>

datatype json =
    nullValue
  | intValue int
  | uintValue nat
  | realValue double
  | stringValue string
  | booleanValue bool
  | arrayValue "json list"
  | objectValue "(string \<times> json) list"

record jsonlib =
  js_parse :: "string \<Rightarrow> json option"              \<comment> \<open>\<open>Reader::parse\<close>, None when it returns false\<close>
  js_quote :: "string \<Rightarrow> string"                   \<comment> \<open>\<open>valueToQuotedString\<close>\<close>
  js_int :: "int \<Rightarrow> string"                        \<comment> \<open>\<open>valueToString\<close>, four overloads\<close>
  js_uint :: "nat \<Rightarrow> string"
  js_real :: "double \<Rightarrow> string"
  js_bool :: "bool \<Rightarrow> string"
  js_isMember :: "json \<Rightarrow> string \<Rightarrow> bool outcome"
  js_get :: "json \<Rightarrow> string \<Rightarrow> json outcome"        \<comment> \<open>\<open>operator[]\<close> read\<close>
  js_set :: "json \<Rightarrow> string \<Rightarrow> json \<Rightarrow> json outcome" \<comment> \<open>\<open>operator[]\<close> assigned\<close>
  js_append :: "json \<Rightarrow> json \<Rightarrow> json outcome"
  js_elements :: "json \<Rightarrow> json list outcome"         \<comment> \<open>\<open>v[0], ..., v[v.size()-1]\<close>\<close>
  js_asString :: "json \<Rightarrow> string outcome"
  js_asBool :: "json \<Rightarrow> bool outcome"
  js_asDouble :: "json \<Rightarrow> double outcome"

definition isNull :: "json \<Rightarrow> bool" where
  "isNull v = (case v of nullValue \<Rightarrow> True | _ \<Rightarrow> False)"

definition isArray :: "json \<Rightarrow> bool" where
  "isArray v = (case v of arrayValue _ \<Rightarrow> True | _ \<Rightarrow> False)"

text \<open>A sequence of assignments \<open>v[k] = x\<close>, and \<open>v[k].append(x)\<close> for one or more \<open>x\<close>.\<close>

definition set_all :: "jsonlib \<Rightarrow> json \<Rightarrow> (string \<times> json) list \<Rightarrow> json outcome" where
  "set_all J v fs = fold_outcome (\<lambda>(k, x) v. js_set J v k x) fs v"

definition append_at :: "jsonlib \<Rightarrow> json \<Rightarrow> string \<Rightarrow> json \<Rightarrow> json outcome" where
  "append_at J v k x =
     ebind (js_get J v k) (\<lambda>a. ebind (js_append J a x) (\<lambda>a'. js_set J v k a'))"

definition append_all :: "jsonlib \<Rightarrow> json \<Rightarrow> string \<Rightarrow> json list \<Rightarrow> json outcome" where
  "append_all J v k xs = fold_outcome (\<lambda>x v. append_at J v k x) xs v"

text \<open>\<open>v[k].asString()\<close>.\<close>

definition get_string :: "jsonlib \<Rightarrow> json \<Rightarrow> string \<Rightarrow> string outcome" where
  "get_string J v k = ebind (js_get J v k) (js_asString J)"

section \<open>What the library documents\<close>

text \<open>The members of a value that has members: an object, or null as the empty object.\<close>

fun members :: "json \<Rightarrow> (string \<rightharpoonup> json) option" where
  "members nullValue = Some Map.empty"
| "members (objectValue kvs) = Some (map_of kvs)"
| "members _ = None"

definition json_doc :: "jsonlib \<Rightarrow> bool" where
  "json_doc J \<longleftrightarrow>
     (\<forall>v m k. members v = Some m \<longrightarrow> js_isMember J v k = Inr (m k \<noteq> None)) \<and>
     (\<forall>v m k. members v = Some m \<longrightarrow>
        js_get J v k = Inr (case m k of None \<Rightarrow> nullValue | Some x \<Rightarrow> x)) \<and>
     (\<forall>v m k x. members v = Some m \<longrightarrow>
        (\<exists>kvs. js_set J v k x = Inr (objectValue kvs) \<and> map_of kvs = m(k \<mapsto> x))) \<and>
     (\<forall>x. js_append J nullValue x = Inr (arrayValue [x])) \<and>
     (\<forall>xs x. js_append J (arrayValue xs) x = Inr (arrayValue (xs @ [x]))) \<and>
     (\<forall>xs. js_elements J (arrayValue xs) = Inr xs) \<and>
     (\<forall>s. js_asString J (stringValue s) = Inr s) \<and>
     (\<forall>b. js_asBool J (booleanValue b) = Inr b) \<and>
     (\<forall>d. js_asDouble J (realValue d) = Inr d)"

definition is_object :: "json \<Rightarrow> (string \<rightharpoonup> json) \<Rightarrow> bool" where
  "is_object v m \<longleftrightarrow> (\<exists>kvs. v = objectValue kvs \<and> map_of kvs = m)"

lemma is_object_members: "is_object v m \<Longrightarrow> members v = Some m"
  by (auto simp: is_object_def)

lemma json_isMember: "json_doc J \<Longrightarrow> members v = Some m \<Longrightarrow> js_isMember J v k = Inr (m k \<noteq> None)"
  by (simp add: json_doc_def)

lemma json_get: "json_doc J \<Longrightarrow> members v = Some m \<Longrightarrow>
    js_get J v k = Inr (case m k of None \<Rightarrow> nullValue | Some x \<Rightarrow> x)"
  by (simp add: json_doc_def)

lemma json_set: "json_doc J \<Longrightarrow> members v = Some m \<Longrightarrow>
    \<exists>v'. js_set J v k x = Inr v' \<and> is_object v' (m(k \<mapsto> x))"
  by (fastforce simp: json_doc_def is_object_def)

lemma json_append:
  "json_doc J \<Longrightarrow> js_append J nullValue x = Inr (arrayValue [x])"
  "json_doc J \<Longrightarrow> js_append J (arrayValue xs) x = Inr (arrayValue (xs @ [x]))"
  by (simp_all add: json_doc_def)

lemma json_elements: "json_doc J \<Longrightarrow> js_elements J (arrayValue xs) = Inr xs"
  by (simp add: json_doc_def)

lemma json_as:
  "json_doc J \<Longrightarrow> js_asString J (stringValue s) = Inr s"
  "json_doc J \<Longrightarrow> js_asBool J (booleanValue b) = Inr b"
  "json_doc J \<Longrightarrow> js_asDouble J (realValue d) = Inr d"
  by (simp_all add: json_doc_def)

lemma json_get_string:
  "json_doc J \<Longrightarrow> members v = Some m \<Longrightarrow> m k = Some (stringValue s) \<Longrightarrow> get_string J v k = Inr s"
  by (simp add: get_string_def json_get json_as)

text \<open>Assignments to a fresh value build the object with these members.\<close>

lemma set_all_object:
  assumes J: "json_doc J" and "members v = Some m"
  shows "fs \<noteq> [] \<Longrightarrow> \<exists>v'. set_all J v fs = Inr v' \<and> is_object v' (m ++ map_of (rev fs))"
  using assms(2)
proof (induction fs arbitrary: v m)
  case (Cons f fs)
  obtain k x where f: "f = (k, x)" by (cases f)
  have upd: "m(k \<mapsto> x) ++ map_of (rev fs) = m ++ map_of (rev (f # fs))"
    by (auto simp: fun_eq_iff map_add_def f split: option.splits)
  obtain v' where v': "js_set J v k x = Inr v'" "is_object v' (m(k \<mapsto> x))"
    using json_set [OF J Cons.prems(2)] by blast
  show ?case
  proof (cases "fs = []")
    case True
    have "m ++ map_of (rev (f # fs)) = m(k \<mapsto> x)" by (simp add: f True)
    moreover have "set_all J v (f # fs) = Inr v'" using v'(1) by (simp add: set_all_def f True)
    ultimately show ?thesis using v'(2) by metis
  next
    case False
    then obtain v'' where v'': "set_all J v' fs = Inr v''" "is_object v'' (m(k \<mapsto> x) ++ map_of (rev fs))"
      using Cons.IH [OF _ is_object_members [OF v'(2)]] by blast
    have "set_all J v (f # fs) = Inr v''" using v'(1) v''(1) by (simp add: set_all_def f)
    with v''(2) upd show ?thesis by metis
  qed
qed simp

lemma set_all_null:
  "json_doc J \<Longrightarrow> fs \<noteq> [] \<Longrightarrow> \<exists>v. set_all J nullValue fs = Inr v \<and> is_object v (map_of (rev fs))"
  using set_all_object [of J nullValue Map.empty fs] by simp

lemma append_at_object:
  assumes J: "json_doc J" and v: "is_object v m"
    and k: "m k = (if xs = [] then None else Some (arrayValue xs))"
  shows "\<exists>v'. append_at J v k y = Inr v' \<and> is_object v' (m(k \<mapsto> arrayValue (xs @ [y])))"
proof -
  have mem: "members v = Some m" using v by (rule is_object_members)
  have "ebind (js_get J v k) (\<lambda>a. js_append J a y) = Inr (arrayValue (xs @ [y]))"
    using k by (simp add: json_get [OF J mem] json_append [OF J] split: if_splits)
  then have "append_at J v k y = js_set J v k (arrayValue (xs @ [y]))"
    by (simp add: append_at_def ebind_assoc [symmetric])
  then show ?thesis using json_set [OF J mem] by metis
qed

lemma append_all_object:
  assumes J: "json_doc J" and v: "is_object v m"
    and k: "m k = (if xs = [] then None else Some (arrayValue xs))"
  shows "\<exists>v'. append_all J v k (y # ys) = Inr v' \<and> is_object v' (m(k \<mapsto> arrayValue (xs @ y # ys)))"
  using v k
proof (induction ys arbitrary: v m xs y)
  case Nil
  obtain v' where "append_at J v k y = Inr v'" "is_object v' (m(k \<mapsto> arrayValue (xs @ [y])))"
    using append_at_object [OF J Nil] by blast
  then show ?case by (simp only: append_all_def fold_outcome.simps ebind.simps) metis
next
  case (Cons z ys)
  obtain v' where v': "append_at J v k y = Inr v'" "is_object v' (m(k \<mapsto> arrayValue (xs @ [y])))"
    using append_at_object [OF J Cons.prems] by blast
  obtain v'' where v'': "append_all J v' k (z # ys) = Inr v''"
      "is_object v'' ((m(k \<mapsto> arrayValue (xs @ [y])))(k \<mapsto> arrayValue ((xs @ [y]) @ z # ys)))"
    using Cons.IH [OF v'(2), of "xs @ [y]" z] by (metis fun_upd_same snoc_eq_iff_butlast)
  have "append_all J v k (y # z # ys) = Inr v''"
    using v'(1) v''(1) by (simp add: append_all_def)
  moreover have "is_object v'' (m(k \<mapsto> arrayValue (xs @ y # z # ys)))"
    using v''(2) by simp
  ultimately show ?case by metis
qed

section \<open>An instance\<close>

text \<open>
  The library with a given parser and accessors that fail on every value of the wrong
  kind. It shows that \<open>json_doc\<close> can hold; no definition of the model uses it.
\<close>

fun alist_set :: "'k \<Rightarrow> 'v \<Rightarrow> ('k \<times> 'v) list \<Rightarrow> ('k \<times> 'v) list" where
  "alist_set k v [] = [(k, v)]"
| "alist_set k v ((k', v') # m) = (if k = k' then (k, v) # m else (k', v') # alist_set k v m)"

lemma map_of_alist_set: "map_of (alist_set k v m) = (map_of m)(k \<mapsto> v)"
  by (induction k v m rule: alist_set.induct) auto

definition demo_json :: "(string \<Rightarrow> json option) \<Rightarrow> jsonlib" where
  "demo_json p = \<lparr>
     js_parse = p,
     js_quote = (\<lambda>s. CHR 0x22 # s @ [CHR 0x22]),
     js_int = show_int,
     js_uint = show_dec,
     js_real = (\<lambda>d. show_dec (unat d)),
     js_bool = (\<lambda>b. if b then ''true'' else ''false''),
     js_isMember = (\<lambda>v k. case members v of Some m \<Rightarrow> Inr (m k \<noteq> None) | None \<Rightarrow> Inl JsonError),
     js_get = (\<lambda>v k. case members v of
         Some m \<Rightarrow> Inr (case m k of None \<Rightarrow> nullValue | Some x \<Rightarrow> x) | None \<Rightarrow> Inl JsonError),
     js_set = (\<lambda>v k x. case v of
         nullValue \<Rightarrow> Inr (objectValue [(k, x)])
       | objectValue kvs \<Rightarrow> Inr (objectValue (alist_set k x kvs))
       | _ \<Rightarrow> Inl JsonError),
     js_append = (\<lambda>v x. case v of
         nullValue \<Rightarrow> Inr (arrayValue [x])
       | arrayValue xs \<Rightarrow> Inr (arrayValue (xs @ [x]))
       | _ \<Rightarrow> Inl JsonError),
     js_elements = (\<lambda>v. case v of nullValue \<Rightarrow> Inr [] | arrayValue xs \<Rightarrow> Inr xs | _ \<Rightarrow> Inl JsonError),
     js_asString = (\<lambda>v. case v of stringValue s \<Rightarrow> Inr s | _ \<Rightarrow> Inl JsonError),
     js_asBool = (\<lambda>v. case v of booleanValue b \<Rightarrow> Inr b | _ \<Rightarrow> Inl JsonError),
     js_asDouble = (\<lambda>v. case v of realValue d \<Rightarrow> Inr d | _ \<Rightarrow> Inl JsonError)\<rparr>"

lemma demo_json_doc: "json_doc (demo_json p)"
proof -
  have "\<exists>kvs. js_set (demo_json p) v k x = Inr (objectValue kvs) \<and> map_of kvs = m(k \<mapsto> x)"
    if "members v = Some m" for v m k x
    using that by (cases v) (auto simp: demo_json_def map_of_alist_set)
  then show ?thesis by (simp add: json_doc_def demo_json_def)
qed

text \<open>An instance whose parser knows two message texts.\<close>

definition demo_typed :: "string \<Rightarrow> json" where
  "demo_typed ty = objectValue [(''msg_type'', stringValue ty)]"

definition demo_lib :: jsonlib where
  "demo_lib = demo_json (map_of [(''{a}'', demo_typed ''a''), (''{b}'', demo_typed ''b'')])"

lemma demo_lib_doc: "json_doc demo_lib"
  by (simp add: demo_lib_def demo_json_doc)

end
