(* ===== verification/Messages.thy ===== *)
theory Messages
  imports Json_Lib
begin

text \<open>
  model/message/message_base.h and messages.h: the message structs. A struct that derives
  from \<open>MessageBase\<close> is a record that extends it. Field names that would clash are
  prefixed with the initials of their struct.
\<close>

record MessageBase =
  msg_type :: string

record DPoint =
  dp_x :: double
  dp_y :: double

definition new_MessageBase :: MessageBase where
  "new_MessageBase = \<lparr>msg_type = []\<rparr>"

record OpaqueSendMessage = MessageBase +
  fromId :: string
  toIds :: "string list"
  broadcast :: bool
  os_data :: string
  os_format :: string
  os_tech :: string

record OpaqueReceiveMessage = MessageBase +
  or_fromId :: string
  or_toId :: string
  or_data :: string
  or_format :: string
  or_tech :: string

record MulticastMessage = MessageBase +
  sendingAgent :: uint
  recipients :: "uint list"
  msgData :: string

record AgentsInfoMessage = MessageBase +
  addAgentIds :: "string list"
  remAgentIds :: "string list"

record AllLocationsMessage = MessageBase +
  agentLocations :: "(string, DPoint) smap"

text \<open>\<open>WFD_Group\<close> of model/network/registration.h, which a go_client message carries.\<close>

record WFD_Group =
  wg_groupId :: string
  wg_GO :: string
  wg_members :: "string list"

definition new_WFD_Group :: WFD_Group where
  "new_WFD_Group = \<lparr>wg_groupId = [], wg_GO = [], wg_members = []\<rparr>"

end
