(* ===== verification/Conglomerate.thy ===== *)
theory Conglomerate
  imports Bundle_Version Messages
begin

text \<open>
  \<open>MessageConglomerate\<close> of model/message/serialize.h and .cc: the messages of one received
  bundle, with the bundle's text, the place of each message in it, its JSON value and its
  base. \<open>conglom_ok\<close> is what every sequence of \<open>addMessage\<close> calls keeps: the three lists run
  in step, each place lies inside the text, and each value and base is the parse of the
  text at that place.
\<close>

record MessageConglomerate =
  senderId :: string
  messages_json :: "json list"
  messages_v1 :: string
  offsets_v1 :: "(int \<times> int) list"
  message_bases :: "MessageBase list"

definition new_MessageConglomerate :: MessageConglomerate where
  "new_MessageConglomerate =
     \<lparr>senderId = [], messages_json = [], messages_v1 = [], offsets_v1 = [], message_bases = []\<rparr>"

definition ParseJsonMessageBase :: "jsonlib \<Rightarrow> json \<Rightarrow> MessageBase outcome" where
  "ParseJsonMessageBase J root =
     ebind (js_isMember J root ''msg_type'') (\<lambda>has.
     if \<not> has then throw ''Base message is missing required parameter 'msg_type'.'' else
     ebind (get_string J root ''msg_type'') (\<lambda>ty.
     Inr (new_MessageBase\<lparr>msg_type := ty\<rparr>)))"

definition addMessage_v0 :: "jsonlib \<Rightarrow> json \<Rightarrow> MessageConglomerate \<Rightarrow> MessageConglomerate outcome" where
  "addMessage_v0 J msg c =
     (if NEW_BUNDLES then throw ''Error, attempting to construct v0 MessageConglomerate.'' else
      ebind (ParseJsonMessageBase J msg) (\<lambda>b.
      Inr (c\<lparr>messages_json := messages_json c @ [msg], message_bases := message_bases c @ [b]\<rparr>)))"

text \<open>The bytes \<open>&raw[offset]\<close> to \<open>&raw[offset+length]\<close> of the bundle's text.\<close>

definition slice :: "string \<Rightarrow> int \<times> int \<Rightarrow> string" where
  "slice s ol = take (nat (snd ol)) (drop (nat (fst ol)) s)"

definition past_end :: "string \<Rightarrow> int \<Rightarrow> int \<Rightarrow> bool outcome" where
  "past_end s offset len =
     (if offset < 0 then Inr True
      else ebind (int_add offset len) (\<lambda>e. Inr (to_int (int (length s)) < e)))"

definition addMessage_v1 ::
  "jsonlib \<Rightarrow> int \<Rightarrow> int \<Rightarrow> string \<Rightarrow> MessageConglomerate \<Rightarrow> MessageConglomerate outcome" where
  "addMessage_v1 J offset len msgStr c =
     (if \<not> NEW_BUNDLES then throw ''Error, attempting to construct v1 MessageConglomerate.''
      else if offsets_v1 c = [] \<and> msgStr = [] then
        throw ''Error; msgString must be non-empty for the first message.''
      else if msgStr \<noteq> [] \<and> messages_v1 c \<noteq> [] then
        throw ''Can't overwrite the message string once set.''
      else
        let text = (if msgStr \<noteq> [] then msgStr else messages_v1 c) in
        ebind (past_end text offset len) (\<lambda>bad.
        if bad then throw ''Can't add message: total length exceeds length of message string.'' else
        ebind (str_index text offset) (\<lambda>ch.
        if byte ch = 0xBB then throw ''Base (v1) message binary format not yet supported.''
        else if ch = CHR ''{'' then
          if len < 0 then Inl Undefined else
          case js_parse J (slice text (offset, len)) of
            None \<Rightarrow> throw ''Parsing JSON message base failed.''
          | Some v \<Rightarrow>
              ebind (ParseJsonMessageBase J v) (\<lambda>b.
              Inr (c\<lparr>messages_v1 := text, offsets_v1 := offsets_v1 c @ [(offset, len)],
                     messages_json := messages_json c @ [v],
                     message_bases := message_bases c @ [b]\<rparr>))
        else throw ''Unable to determine v1 message format (binary or JSON).'')))"

definition getCount :: "MessageConglomerate \<Rightarrow> nat" where
  "getCount c = (if NEW_BUNDLES then length (offsets_v1 c) else length (messages_json c))"

definition getBaseMessage :: "MessageConglomerate \<Rightarrow> int \<Rightarrow> MessageBase outcome" where
  "getBaseMessage c msgNumber = vec_at (message_bases c) msgNumber"

definition getJsonMessage :: "MessageConglomerate \<Rightarrow> int \<Rightarrow> json outcome" where
  "getJsonMessage c msgNumber = vec_at (messages_json c) msgNumber"

definition getRawMessage :: "MessageConglomerate \<Rightarrow> int \<Rightarrow> (int \<times> int) outcome" where
  "getRawMessage c msgNumber =
     (if \<not> NEW_BUNDLES then throw ''Error, attempting to retrieve v1 MessageConglomerate [1].''
      else vec_at (offsets_v1 c) msgNumber)"

definition getUnderlyingString :: "MessageConglomerate \<Rightarrow> string outcome" where
  "getUnderlyingString c =
     (if \<not> NEW_BUNDLES then throw ''Error, attempting to retrieve v1 MessageConglomerate [2].''
      else Inr (messages_v1 c))"

definition setSenderId :: "string \<Rightarrow> MessageConglomerate \<Rightarrow> MessageConglomerate" where
  "setSenderId i c = c\<lparr>senderId := i\<rparr>"

definition getSenderId :: "MessageConglomerate \<Rightarrow> string" where
  "getSenderId c = senderId c"

section \<open>The invariant\<close>

definition entry_ok :: "jsonlib \<Rightarrow> string \<Rightarrow> int \<times> int \<Rightarrow> json \<Rightarrow> MessageBase \<Rightarrow> bool" where
  "entry_ok J s ol v b \<longleftrightarrow>
     0 \<le> fst ol \<and> 0 \<le> snd ol \<and> fst ol + snd ol \<le> int (length s) \<and>
     js_parse J (slice s ol) = Some v \<and> ParseJsonMessageBase J v = Inr b"

definition conglom_ok :: "jsonlib \<Rightarrow> MessageConglomerate \<Rightarrow> bool" where
  "conglom_ok J c \<longleftrightarrow>
     length (messages_json c) = length (offsets_v1 c) \<and>
     length (message_bases c) = length (offsets_v1 c) \<and>
     (offsets_v1 c \<noteq> [] \<longrightarrow> messages_v1 c \<noteq> []) \<and>
     (\<forall>i < length (offsets_v1 c).
        entry_ok J (messages_v1 c) (offsets_v1 c ! i) (messages_json c ! i) (message_bases c ! i))"

lemma conglom_ok_new: "conglom_ok J new_MessageConglomerate"
  by (simp add: conglom_ok_def new_MessageConglomerate_def)

lemma to_int_le: "0 \<le> n \<Longrightarrow> to_int n \<le> n"
  by (simp add: to_int_def) (smt (verit) mod_pos_pos_trivial zmod_le_nonneg_dividend)

text \<open>The text a successful call works on, and what the call then adds.\<close>

lemma addMessage_v1_Inr:
  assumes "addMessage_v1 J offset len msgStr c = Inr c'"
  defines "text \<equiv> if msgStr \<noteq> [] then msgStr else messages_v1 c"
  obtains v b where "0 \<le> offset" and "0 \<le> len" and "offset + len \<le> to_int (int (length text))"
    and "offsets_v1 c = [] \<longrightarrow> msgStr \<noteq> []" and "msgStr \<noteq> [] \<longrightarrow> messages_v1 c = []"
    and "js_parse J (slice text (offset, len)) = Some v" and "ParseJsonMessageBase J v = Inr b"
    and "c' = c\<lparr>messages_v1 := text, offsets_v1 := offsets_v1 c @ [(offset, len)],
                messages_json := messages_json c @ [v], message_bases := message_bases c @ [b]\<rparr>"
  using assms
  by (auto simp: addMessage_v1_def past_end_def outcome_simps int_add_Inr Let_def NEW_BUNDLES_def
      split: if_splits option.splits)

lemma addMessage_v1_ok:
  assumes ok: "conglom_ok J c" and add: "addMessage_v1 J offset len msgStr c = Inr c'"
  shows "conglom_ok J c'"
proof -
  define whole where "whole = (if msgStr \<noteq> [] then msgStr else messages_v1 c)"
  from add obtain v b where new: "0 \<le> offset" "0 \<le> len" "offset + len \<le> to_int (int (length whole))"
      "offsets_v1 c = [] \<longrightarrow> msgStr \<noteq> []" "msgStr \<noteq> [] \<longrightarrow> messages_v1 c = []"
      "js_parse J (slice whole (offset, len)) = Some v" "ParseJsonMessageBase J v = Inr b"
    and c': "c' = c\<lparr>messages_v1 := whole, offsets_v1 := offsets_v1 c @ [(offset, len)],
                messages_json := messages_json c @ [v], message_bases := message_bases c @ [b]\<rparr>"
    unfolding whole_def by (rule addMessage_v1_Inr)
  have "to_int (int (length whole)) \<le> int (length whole)" by (rule to_int_le) simp
  with new have entry: "entry_ok J whole (offset, len) v b" by (simp add: entry_ok_def)
  have "offsets_v1 c \<noteq> [] \<Longrightarrow> whole = messages_v1 c"
    using ok new(5) by (auto simp: conglom_ok_def whole_def)
  then have old: "entry_ok J whole (offsets_v1 c ! i) (messages_json c ! i) (message_bases c ! i)"
    if "i < length (offsets_v1 c)" for i
    using ok that by (fastforce simp: conglom_ok_def)
  have "whole \<noteq> []" using ok new(4) by (auto simp: conglom_ok_def whole_def)
  with entry old ok show ?thesis
    unfolding c' by (auto simp: conglom_ok_def nth_append less_Suc_eq)
qed

lemma setSenderId_ok [simp]: "conglom_ok J (setSenderId i c) = conglom_ok J c"
  by (simp add: conglom_ok_def setSenderId_def)

lemma getCount_offsets: "getCount c = length (offsets_v1 c)"
  by (simp add: getCount_def NEW_BUNDLES_def)

text \<open>On a well-formed conglomerate, every message number below the count can be read.\<close>

lemma conglom_ok_get:
  assumes "conglom_ok J c" and "i < getCount c"
  shows "getBaseMessage c (int i) = Inr (message_bases c ! i)"
    and "getJsonMessage c (int i) = Inr (messages_json c ! i)"
    and "getRawMessage c (int i) = Inr (offsets_v1 c ! i)"
    and "ParseJsonMessageBase J (messages_json c ! i) = Inr (message_bases c ! i)"
  using assms
  by (simp_all add: conglom_ok_def getCount_offsets getBaseMessage_def getJsonMessage_def
      getRawMessage_def vec_at_nth NEW_BUNDLES_def entry_ok_def)

end
