(* ===== verification/Json_Writer.thy ===== *)
theory Json_Writer
  imports Json_Lib
begin

text \<open>
  \<open>JsonSingleLineWriter\<close> of model/message/serialize.h and .cc. The writer appends to its
  string stream \<open>document\<close>, which the model passes along; strings reach the library as
  C strings, so they end at their first null character. \<open>render\<close> is the reference: the
  text of a value by itself, with separators between the parts. The two agree, a written
  value stays on one line when the library's scalars do, and an object is written between
  braces, which is what the receiving side's format detection looks for.
\<close>

record JsonSingleLineWriter =
  document :: string
  yamlCompatiblityEnabled :: bool
  appendNewline :: bool

definition new_JsonSingleLineWriter :: "bool \<Rightarrow> JsonSingleLineWriter" where
  "new_JsonSingleLineWriter nl = \<lparr>document = [], yamlCompatiblityEnabled = False, appendNewline = nl\<rparr>"

definition enableYAMLCompatibility :: "JsonSingleLineWriter \<Rightarrow> JsonSingleLineWriter" where
  "enableYAMLCompatibility w = w\<lparr>yamlCompatiblityEnabled := True\<rparr>"

text \<open>\<open>std::string::c_str\<close> and \<open>Value::asCString\<close> as their readers see them.\<close>

definition c_str :: "string \<Rightarrow> string" where
  "c_str s = takeWhile (\<lambda>c. c \<noteq> CHR 0x00) s"

fun writeValue :: "jsonlib \<Rightarrow> bool \<Rightarrow> json \<Rightarrow> string \<Rightarrow> string"
  and writeElements :: "jsonlib \<Rightarrow> bool \<Rightarrow> bool \<Rightarrow> json list \<Rightarrow> string \<Rightarrow> string"
  and writeMembers :: "jsonlib \<Rightarrow> bool \<Rightarrow> bool \<Rightarrow> (string \<times> json) list \<Rightarrow> string \<Rightarrow> string" where
  "writeValue J yaml nullValue doc = doc @ ''null''"
| "writeValue J yaml (intValue i) doc = doc @ js_int J i"
| "writeValue J yaml (uintValue n) doc = doc @ js_uint J n"
| "writeValue J yaml (realValue d) doc = doc @ js_real J d"
| "writeValue J yaml (stringValue s) doc = doc @ js_quote J (c_str s)"
| "writeValue J yaml (booleanValue b) doc = doc @ js_bool J b"
| "writeValue J yaml (arrayValue vs) doc = writeElements J yaml True vs (doc @ ''['') @ '']''"
| "writeValue J yaml (objectValue kvs) doc = writeMembers J yaml True kvs (doc @ ''{'') @ ''}''"
| "writeElements J yaml first [] doc = doc"
| "writeElements J yaml first (v # vs) doc =
     writeElements J yaml False vs (writeValue J yaml v (if first then doc else doc @ '',''))"
| "writeMembers J yaml first [] doc = doc"
| "writeMembers J yaml first ((name, v) # kvs) doc =
     (let doc1 = (if first then doc else doc @ '','');
          doc2 = doc1 @ js_quote J (c_str name);
          doc3 = doc2 @ (if yaml then '': '' else '':'')
      in writeMembers J yaml False kvs (writeValue J yaml v doc3))"

text \<open>\<open>write_root\<close> is the method \<open>write\<close>: it returns the text and leaves it in the stream.\<close>

definition write_root :: "jsonlib \<Rightarrow> json \<Rightarrow> JsonSingleLineWriter \<Rightarrow> string \<times> JsonSingleLineWriter" where
  "write_root J root w =
     (let doc = writeValue J (yamlCompatiblityEnabled w) root [];
          doc' = (if appendNewline w then doc @ [CHR 0x0A] else doc)
      in (doc', w\<lparr>document := doc'\<rparr>))"

text \<open>\<open>JsonSingleLineWriter(nl).write(root)\<close> on a temporary writer.\<close>

definition write_line :: "jsonlib \<Rightarrow> bool \<Rightarrow> json \<Rightarrow> string" where
  "write_line J nl root = fst (write_root J root (new_JsonSingleLineWriter nl))"

section \<open>The reference rendering\<close>

fun sep_by :: "string \<Rightarrow> string list \<Rightarrow> string" where
  "sep_by sep [] = []"
| "sep_by sep [s] = s"
| "sep_by sep (s # ss) = s @ sep @ sep_by sep ss"

fun render :: "jsonlib \<Rightarrow> bool \<Rightarrow> json \<Rightarrow> string" where
  "render J yaml nullValue = ''null''"
| "render J yaml (intValue i) = js_int J i"
| "render J yaml (uintValue n) = js_uint J n"
| "render J yaml (realValue d) = js_real J d"
| "render J yaml (stringValue s) = js_quote J (c_str s)"
| "render J yaml (booleanValue b) = js_bool J b"
| "render J yaml (arrayValue vs) = ''['' @ sep_by '','' (map (render J yaml) vs) @ '']''"
| "render J yaml (objectValue kvs) =
     ''{'' @ sep_by '','' (map (\<lambda>(k, v). js_quote J (c_str k) @ (if yaml then '': '' else '':'')
                                        @ render J yaml v) kvs) @ ''}''"

lemma sep_by_Cons: "sep_by sep (s # ss) = s @ concat (map (\<lambda>t. sep @ t) ss)"
  by (induction ss arbitrary: s) auto

lemma writeValue_render_aux:
  "writeValue J yaml v doc = doc @ render J yaml v"
  "writeElements J yaml first vs doc =
     doc @ (if first then sep_by '','' (map (render J yaml) vs)
            else concat (map (\<lambda>v. '','' @ render J yaml v) vs))"
  "writeMembers J yaml first kvs doc =
     (let txt = \<lambda>(k, v). js_quote J (c_str k) @ (if yaml then '': '' else '':'') @ render J yaml v
      in doc @ (if first then sep_by '','' (map txt kvs) else concat (map (\<lambda>kv. '','' @ txt kv) kvs)))"
  by (induction J yaml v doc and J yaml first vs doc and J yaml first kvs doc
      rule: writeValue_writeElements_writeMembers.induct)
    (auto simp: sep_by_Cons Let_def comp_def)

lemma write_line_render:
  "write_line J nl v = render J False v @ (if nl then [CHR 0x0A] else [])"
  by (simp add: write_line_def write_root_def new_JsonSingleLineWriter_def writeValue_render_aux Let_def)

lemma write_fresh:
  "fst (write_root J root (w\<lparr>document := junk\<rparr>)) = fst (write_root J root w)"
  by (simp add: write_root_def Let_def)

section \<open>One value, one line\<close>

definition scalars_on_one_line :: "jsonlib \<Rightarrow> bool" where
  "scalars_on_one_line J \<longleftrightarrow>
     (\<forall>s. CHR 0x0A \<notin> set (js_quote J s)) \<and> (\<forall>i. CHR 0x0A \<notin> set (js_int J i)) \<and>
     (\<forall>n. CHR 0x0A \<notin> set (js_uint J n)) \<and> (\<forall>d. CHR 0x0A \<notin> set (js_real J d)) \<and>
     (\<forall>b. CHR 0x0A \<notin> set (js_bool J b))"

lemma set_sep_by: "set (sep_by sep ss) \<subseteq> set sep \<union> (\<Union>s \<in> set ss. set s)"
  by (induction sep ss rule: sep_by.induct) auto

lemma not_in_sep_by: "c \<notin> set sep \<Longrightarrow> (\<And>s. s \<in> set ss \<Longrightarrow> c \<notin> set s) \<Longrightarrow> c \<notin> set (sep_by sep ss)"
  using set_sep_by [of sep ss] by blast

lemma render_on_one_line:
  "scalars_on_one_line J \<Longrightarrow> CHR 0x0A \<notin> set (render J yaml v)"
proof (induction J yaml v rule: render.induct)
  case (7 J yaml vs)
  then have "CHR 0x0A \<notin> set (sep_by '','' (map (render J yaml) vs))"
    by (intro not_in_sep_by) auto
  then show ?case by simp
next
  case (8 J yaml kvs)
  have "CHR 0x0A \<notin> set (js_quote J (c_str k) @ (if yaml then '': '' else '':'') @ render J yaml v)"
    if "(k, v) \<in> set kvs" for k v
  proof -
    have "CHR 0x0A \<notin> set (render J yaml v)" using "8.IH" [OF that refl "8.prems"] .
    then show ?thesis using "8.prems" by (simp add: scalars_on_one_line_def)
  qed
  then have "CHR 0x0A \<notin> set (sep_by '','' (map (\<lambda>(k, v). js_quote J (c_str k)
      @ (if yaml then '': '' else '':'') @ render J yaml v) kvs))"
    by (intro not_in_sep_by) auto
  then show ?case by simp
qed (simp_all add: scalars_on_one_line_def)

lemma render_object_braces:
  "\<exists>s. render J yaml (objectValue kvs) = CHR ''{'' # s @ [CHR ''}'']"
  by simp

end
