(* ===== verification/Serialize.thy ===== *)
theory Serialize
  imports Conglomerate Json_Writer
begin

text \<open>
  \<open>OngoingSerialization\<close> and \<open>JsonParser\<close> of model/message/serialize.h and .cc: building a
  bundle message by message, closing it into a header and a string in either format, and
  taking a received string apart again.
\<close>

section \<open>An ongoing serialization\<close>

record OngoingSerialization =
  vHead :: VaryHeader
  messages :: string

definition new_OngoingSerialization :: OngoingSerialization where
  "new_OngoingSerialization = \<lparr>vHead = new_VaryHeader, messages = []\<rparr>"

definition serialize_begin_ids ::
  "OngoingSerialization \<Rightarrow> string \<Rightarrow> string \<Rightarrow> OngoingSerialization" where
  "serialize_begin_ids ongoing sid did =
     ongoing\<lparr>vHead := (vHead ongoing)\<lparr>sendId := sid, destId := did, msgLengths := []\<rparr>\<rparr>"

definition serialize_begin :: "OngoingSerialization \<Rightarrow> OngoingSerialization" where
  "serialize_begin ongoing = serialize_begin_ids ongoing ''987654321'' ''0''"

definition addGeneric :: "OngoingSerialization \<Rightarrow> string \<Rightarrow> OngoingSerialization" where
  "addGeneric ongoing msg =
     (let ms = (if NEW_BUNDLES then messages ongoing @ msg
                else messages ongoing @ (if messages ongoing = [] then [] else '','') @ msg)
      in ongoing\<lparr>messages := ms,
                 vHead := (vHead ongoing)\<lparr>msgLengths := msgLengths (vHead ongoing) @ [of_nat (length msg)]\<rparr>\<rparr>)"

section \<open>Closing a bundle\<close>

definition length_field :: "uint \<Rightarrow> string" where
  "length_field w =
     [uchar_word (drop_bit 16 w AND 255), uchar_word (drop_bit 8 w AND 255), uchar_word (w AND 255)]"

definition vary_header :: "VaryHeader \<Rightarrow> string" where
  "vary_header v = sendId v @ destId v @ concat (map length_field (msgLengths v))"

definition result_header :: "VaryHeader \<Rightarrow> string \<Rightarrow> BundleHeader" where
  "result_header v res =
     \<lparr>sendIdLen = to_int (int (length (sendId v))), destIdLen = to_int (int (length (destId v))),
      messageCount = to_int (int (length (msgLengths v))), remLen = of_nat (length res)\<rparr>"

definition serialize_end_v1 :: "OngoingSerialization \<Rightarrow> (bool \<times> BundleHeader \<times> string) outcome" where
  "serialize_end_v1 ongoing =
     (let v = vHead ongoing;
          varHeadSize = length (msgLengths v) * 3 + length (sendId v) + length (destId v);
          bytes = vary_header v
      in if length bytes \<noteq> varHeadSize then
           throw ''Varying header size not exact; memory corruption may have occurred.''
         else
           let res = bytes @ messages ongoing
           in Inr (True, result_header v res, res))"

definition serialize_end_v0 ::
  "jsonlib \<Rightarrow> OngoingSerialization \<Rightarrow> BundleHeader \<Rightarrow> string \<Rightarrow> (bool \<times> BundleHeader \<times> string) outcome" where
  "serialize_end_v0 J ongoing hRes res =
     ebind (set_all J nullValue
              [(''send_client'', stringValue (sendId (vHead ongoing))),
               (''dest_client'', stringValue (destId (vHead ongoing)))]) (\<lambda>pktHeader.
     case js_parse J (''['' @ messages ongoing @ '']'') of
       None \<Rightarrow> Inr (False, hRes, res)
     | Some dataArr \<Rightarrow>
         if \<not> isArray dataArr then Inr (False, hRes, res) else
         ebind (set_all J nullValue [(''header'', pktHeader), (''messages'', dataArr)]) (\<lambda>root.
         let res' = write_line J (\<not> NEW_BUNDLES) root
         in Inr (True, result_header (vHead ongoing) res', res')))"

definition serialize_end ::
  "jsonlib \<Rightarrow> OngoingSerialization \<Rightarrow> BundleHeader \<Rightarrow> string \<Rightarrow> (bool \<times> BundleHeader \<times> string) outcome" where
  "serialize_end J ongoing hRes res =
     (if NEW_BUNDLES then serialize_end_v1 ongoing else serialize_end_v0 J ongoing hRes res)"

section \<open>Taking a bundle apart\<close>

definition read_length_field :: "string \<Rightarrow> int \<Rightarrow> uint outcome" where
  "read_length_field msgStr i =
     ebind (str_index msgStr i) (\<lambda>a.
     ebind (int_add i 1) (\<lambda>i1. ebind (str_index msgStr i1) (\<lambda>b.
     ebind (int_add i 2) (\<lambda>i2. ebind (str_index msgStr i2) (\<lambda>c.
     Inr (push_bit 16 (of_nat (byte a)) OR push_bit 8 (of_nat (byte b)) OR of_nat (byte c)))))))"

text \<open>
  The loop over the message lengths: the text goes with the first message only, and
  \<open>i += *it\<close> is an unsigned addition converted back to \<open>int\<close>.
\<close>

fun add_messages ::
  "jsonlib \<Rightarrow> string \<Rightarrow> bool \<Rightarrow> uint list \<Rightarrow> int \<Rightarrow> MessageConglomerate \<Rightarrow> MessageConglomerate outcome" where
  "add_messages J msgStr first [] i res = Inr res"
| "add_messages J msgStr first (l # ls) i res =
     ebind (addMessage_v1 J i (to_int (int (unat l))) (if first then msgStr else []) res) (\<lambda>res'.
     add_messages J msgStr False ls (to_int (i + int (unat l))) res')"

definition deserialize_v1 ::
  "jsonlib \<Rightarrow> BundleHeader \<Rightarrow> string \<Rightarrow> MessageConglomerate \<Rightarrow> (bool \<times> MessageConglomerate) outcome" where
  "deserialize_v1 J header msgStr res =
     ebind (read_fields str_index 1 (nat (sendIdLen header)) msgStr 0) (\<lambda>(sid, i).
     let res1 = setSenderId sid res in
     ebind (read_fields str_index 1 (nat (destIdLen header)) msgStr i) (\<lambda>(did, i).
     ebind (read_fields read_length_field 3 (nat (messageCount header)) msgStr i) (\<lambda>(lens, i).
     ebind (add_messages J msgStr True lens i res1) (\<lambda>res2.
     Inr (True, res2)))))"

definition deserialize_v0 ::
  "jsonlib \<Rightarrow> string \<Rightarrow> MessageConglomerate \<Rightarrow> (bool \<times> MessageConglomerate) outcome" where
  "deserialize_v0 J msgStr res =
     (case js_parse J msgStr of
        None \<Rightarrow> Inr (False, res)
      | Some root \<Rightarrow>
          ebind (js_isMember J root ''header'') (\<lambda>hasHeader.
          ebind (if hasHeader then Inr False
                 else ebind (js_get J root ''header'') (\<lambda>h. js_isMember J h ''send_client'')) (\<lambda>bad.
          if bad then Inr (False, res) else
          ebind (js_get J root ''header'') (\<lambda>h.
          ebind (get_string J h ''send_client'') (\<lambda>sid.
          let res1 = setSenderId sid res in
          ebind (js_isMember J root ''messages'') (\<lambda>hasMessages.
          ebind (if hasMessages then Inr False
                 else ebind (js_get J root ''messages'') (\<lambda>m. Inr (isArray m))) (\<lambda>bad2.
          if bad2 then Inr (False, res1) else
          ebind (js_get J root ''messages'') (\<lambda>data.
          ebind (js_elements J data) (\<lambda>vs.
          ebind (fold_outcome (addMessage_v0 J) vs res1) (\<lambda>res2.
          Inr (True, res2)))))))))))"

definition deserialize ::
  "jsonlib \<Rightarrow> BundleHeader \<Rightarrow> string \<Rightarrow> MessageConglomerate \<Rightarrow> (bool \<times> MessageConglomerate) outcome" where
  "deserialize J header msgStr res =
     (if NEW_BUNDLES then deserialize_v1 J header msgStr res else deserialize_v0 J msgStr res)"

text \<open>The result is the boolean, the base message and the conglomerate.\<close>

definition deserialize_single ::
  "jsonlib \<Rightarrow> BundleHeader \<Rightarrow> string \<Rightarrow> string \<Rightarrow> MessageBase \<Rightarrow> MessageConglomerate \<Rightarrow>
     (bool \<times> MessageBase \<times> MessageConglomerate) outcome" where
  "deserialize_single J header msgStr expectedType resMsg remConglom =
     ebind (deserialize J header msgStr remConglom) (\<lambda>(ok, c).
     if \<not> ok then Inr (False, resMsg, c)
     else if getCount c \<noteq> 1 then Inr (False, resMsg, c)
     else ebind (getBaseMessage c 0) (\<lambda>b.
       if msg_type b \<noteq> expectedType then Inr (False, resMsg, c)
       else Inr (True, b, c)))"

definition parseJSON :: "jsonlib \<Rightarrow> string \<Rightarrow> json \<Rightarrow> bool \<times> json" where
  "parseJSON J input output =
     (case js_parse J input of None \<Rightarrow> (False, output) | Some v \<Rightarrow> (True, v))"

section \<open>Reading single messages\<close>

definition parse_base :: "MessageConglomerate \<Rightarrow> int \<Rightarrow> (MessageBase \<Rightarrow> json \<Rightarrow> 'a outcome) \<Rightarrow> 'a outcome" where
  "parse_base msg msgNumber f =
     ebind (getBaseMessage msg msgNumber) (\<lambda>base.
     ebind (getJsonMessage msg msgNumber) (\<lambda>jsMsg.
     if isNull jsMsg then throw ''parse() for binary messages not yet supported.''
     else f base jsMsg))"

definition id_array :: "jsonlib \<Rightarrow> json \<Rightarrow> string \<Rightarrow> string \<Rightarrow> string list outcome" where
  "id_array J jsMsg k err =
     ebind (js_isMember J jsMsg k) (\<lambda>has.
     if \<not> has then Inr [] else
     ebind (js_get J jsMsg k) (\<lambda>agents.
     if \<not> isArray agents then throw err else
     ebind (js_elements J agents) (map_outcome (js_asString J))))"

definition parseNewAgents :: "jsonlib \<Rightarrow> MessageConglomerate \<Rightarrow> int \<Rightarrow> AgentsInfoMessage outcome" where
  "parseNewAgents J msg msgNumber = parse_base msg msgNumber (\<lambda>base jsMsg.
     ebind (id_array J jsMsg ''add'' ''AgentsInfo add should be an array.'') (\<lambda>add.
     ebind (id_array J jsMsg ''rem'' ''AgentsInfo rem should be an array.'') (\<lambda>rem.
     Inr (MessageBase.extend base (AgentsInfoMessage.fields add rem)))))"

fun has_all :: "jsonlib \<Rightarrow> json \<Rightarrow> string list \<Rightarrow> bool outcome" where
  "has_all J v [] = Inr True"
| "has_all J v (k # ks) = ebind (js_isMember J v k) (\<lambda>has. if has then has_all J v ks else Inr False)"

definition parse_location ::
  "jsonlib \<Rightarrow> json \<Rightarrow> (string, DPoint) smap \<Rightarrow> (string, DPoint) smap outcome" where
  "parse_location J agInf locs =
     ebind (has_all J agInf [''id'', ''x'', ''y'']) (\<lambda>ok.
     if \<not> ok then throw ''Badly formatted AllLocations message [2].'' else
     ebind (get_string J agInf ''id'') (\<lambda>agId.
     ebind (ebind (js_get J agInf ''x'') (js_asDouble J)) (\<lambda>x.
     ebind (ebind (js_get J agInf ''y'') (js_asDouble J)) (\<lambda>y.
     Inr (map_put agId \<lparr>dp_x = x, dp_y = y\<rparr> locs)))))"

definition parseAllLocations :: "jsonlib \<Rightarrow> MessageConglomerate \<Rightarrow> int \<Rightarrow> AllLocationsMessage outcome" where
  "parseAllLocations J msg msgNumber = parse_base msg msgNumber (\<lambda>base jsMsg.
     ebind (js_isMember J jsMsg ''locations'') (\<lambda>has.
     ebind (if has then ebind (js_get J jsMsg ''locations'') (\<lambda>a. Inr (isArray a)) else Inr False) (\<lambda>ok.
     if \<not> ok then throw ''Badly formatted AllLocations message [1].'' else
     ebind (js_get J jsMsg ''locations'') (\<lambda>a.
     ebind (js_elements J a) (\<lambda>vs.
     ebind (fold_outcome (parse_location J) vs []) (\<lambda>locs.
     Inr (MessageBase.extend base (AllLocationsMessage.fields locs))))))))"

definition parseOpaqueSend :: "jsonlib \<Rightarrow> MessageConglomerate \<Rightarrow> int \<Rightarrow> OpaqueSendMessage outcome" where
  "parseOpaqueSend J msg msgNumber = parse_base msg msgNumber (\<lambda>base jsMsg.
     ebind (has_all J jsMsg [''from_id'', ''to_ids'', ''broadcast'', ''data'', ''format'', ''tech'']) (\<lambda>has.
     ebind (if has then ebind (js_get J jsMsg ''to_ids'') (\<lambda>a. Inr (isArray a)) else Inr False) (\<lambda>ok.
     if \<not> ok then throw ''Badly formatted OPAQUE_SEND message.'' else
     ebind (get_string J jsMsg ''from_id'') (\<lambda>from.
     ebind (ebind (js_get J jsMsg ''broadcast'') (js_asBool J)) (\<lambda>bc.
     ebind (get_string J jsMsg ''data'') (\<lambda>data.
     ebind (get_string J jsMsg ''format'') (\<lambda>fmt.
     ebind (get_string J jsMsg ''tech'') (\<lambda>tech.
     ebind (js_get J jsMsg ''to_ids'') (\<lambda>a.
     ebind (js_elements J a) (\<lambda>vs.
     ebind (map_outcome (js_asString J) vs) (\<lambda>tos.
     if bc \<and> tos \<noteq> [] then
       throw ''Cannot call opaque_send with both 'broadcast' as true and a non-empty toIds list.''
     else Inr (MessageBase.extend base (OpaqueSendMessage.fields from tos bc data fmt tech)))))))))))))"

section \<open>Writing single messages\<close>

definition emit_json :: "jsonlib \<Rightarrow> OngoingSerialization \<Rightarrow> json \<Rightarrow> OngoingSerialization" where
  "emit_json J ongoing v = addGeneric ongoing (write_line J (\<not> NEW_BUNDLES) v)"

abbreviation binary_unsupported :: "'a outcome" where
  "binary_unsupported \<equiv> throw ''addX() for binary messages not yet supported.''"

definition makeIdResponse :: "jsonlib \<Rightarrow> OngoingSerialization \<Rightarrow> string \<Rightarrow> OngoingSerialization outcome" where
  "makeIdResponse J ongoing token =
     (if PREFER_BINARY_MESSAGES then binary_unsupported else
      ebind (set_all J nullValue
               [(''msg_type'', stringValue ''id_response''), (''id'', stringValue ''987654321''),
                (''token'', stringValue token), (''type'', stringValue ''ns-3'')]) (\<lambda>res.
      ebind (append_at J res ''services'' (stringValue ''srv_all_locations'')) (\<lambda>res.
      Inr (emit_json J ongoing res))))"

definition makeTickedClient :: "jsonlib \<Rightarrow> OngoingSerialization \<Rightarrow> OngoingSerialization outcome" where
  "makeTickedClient J ongoing =
     (if PREFER_BINARY_MESSAGES then binary_unsupported else
      ebind (set_all J nullValue [(''msg_type'', stringValue ''ticked_client'')]) (\<lambda>res.
      Inr (emit_json J ongoing res)))"

text \<open>\<open>singleAgent\<close> is declared outside the loop, so each iteration overwrites its members.\<close>

definition location_step :: "jsonlib \<Rightarrow> string \<times> DPoint \<Rightarrow> json \<times> json \<Rightarrow> (json \<times> json) outcome" where
  "location_step J it s = (case s of (singleAgent, res) \<Rightarrow>
     ebind (set_all J singleAgent
              [(''id'', stringValue (fst it)), (''x'', realValue (dp_x (snd it))),
               (''y'', realValue (dp_y (snd it)))]) (\<lambda>singleAgent'.
     ebind (append_at J res ''locations'' singleAgent') (\<lambda>res'.
     Inr (singleAgent', res'))))"

definition makeAllLocations ::
  "jsonlib \<Rightarrow> OngoingSerialization \<Rightarrow> (string, DPoint) smap \<Rightarrow> OngoingSerialization outcome" where
  "makeAllLocations J ongoing allLocations =
     (if PREFER_BINARY_MESSAGES then binary_unsupported else
      ebind (set_all J nullValue [(''msg_type'', stringValue ''all_locations'')]) (\<lambda>res.
      ebind (fold_outcome (location_step J) allLocations (nullValue, res)) (\<lambda>(_, res).
      Inr (emit_json J ongoing res))))"

text \<open>The value that \<open>makeOpaqueSend\<close> writes.\<close>

definition opaque_send_value ::
  "jsonlib \<Rightarrow> string \<Rightarrow> string list \<Rightarrow> string \<Rightarrow> string \<Rightarrow> string \<Rightarrow> json outcome" where
  "opaque_send_value J sendAgentId receiveAgentIds data format tech =
     ebind (set_all J nullValue
              [(''msg_type'', stringValue ''opaque_send''), (''from_id'', stringValue ''987654321''),
               (''format'', stringValue format), (''tech'', stringValue tech),
               (''data'', stringValue data)]) (\<lambda>res.
     ebind (append_all J res ''to_ids'' (map stringValue receiveAgentIds)) (\<lambda>res.
     js_set J res ''broadcast'' (booleanValue (receiveAgentIds = []))))"

definition makeOpaqueSend ::
  "jsonlib \<Rightarrow> OngoingSerialization \<Rightarrow> string \<Rightarrow> string list \<Rightarrow> string \<Rightarrow> string \<Rightarrow> string \<Rightarrow>
     OngoingSerialization outcome" where
  "makeOpaqueSend J ongoing sendAgentId receiveAgentIds data format tech =
     (if PREFER_BINARY_MESSAGES then binary_unsupported else
      ebind (opaque_send_value J sendAgentId receiveAgentIds data format tech) (\<lambda>res.
      Inr (emit_json J ongoing res)))"

definition group_value :: "jsonlib \<Rightarrow> WFD_Group \<Rightarrow> json outcome" where
  "group_value J g =
     ebind (js_set J nullValue ''go'' (stringValue (wg_GO g))) (\<lambda>clientMsg.
     append_all J clientMsg ''clients'' (map stringValue (wg_members g)))"

definition makeGoClient ::
  "jsonlib \<Rightarrow> OngoingSerialization \<Rightarrow> (string, WFD_Group) smap \<Rightarrow> OngoingSerialization outcome" where
  "makeGoClient J ongoing wfdGroups =
     (if PREFER_BINARY_MESSAGES then binary_unsupported else
      ebind (set_all J nullValue [(''msg_type'', stringValue ''go_client'')]) (\<lambda>res.
      ebind (fold_outcome (\<lambda>it res. ebind (group_value J (snd it)) (append_at J res ''groups''))
               wfdGroups res) (\<lambda>res.
      Inr (emit_json J ongoing res))))"

definition makeUnknownJSON :: "jsonlib \<Rightarrow> OngoingSerialization \<Rightarrow> json \<Rightarrow> OngoingSerialization outcome" where
  "makeUnknownJSON J ongoing v =
     (if PREFER_BINARY_MESSAGES then binary_unsupported else Inr (emit_json J ongoing v))"

section \<open>Fields of the varying header\<close>

interpretation chars: field_codec 1 "\<lambda>c. [c]" str_index "\<lambda>_. True"
  by unfold_locales (simp_all add: str_index_append)

lemma length_length_field [simp]: "length (length_field w) = 3"
  by (simp add: length_field_def)

text \<open>A length field keeps the low 24 bits of a length.\<close>

lemma read_length_field:
  assumes "in_int (int (length pre + 3))"
  shows "read_length_field (pre @ length_field w @ post) (int (length pre)) = Inr (take_bit 24 w)"
proof -
  have adds: "int_add (int (length pre)) 1 = Inr (int (length pre + 1))"
    "int_add (int (length pre)) 2 = Inr (int (length pre + 2))"
    using assms by (auto simp: int_add_Inr in_int_def)
  let ?s = "pre @ length_field w @ post"
  have index: "str_index ?s (int (length pre + k)) = Inr (length_field w ! k)" if "k < 3" for k
    using that by (subst str_index_nth) (simp_all add: nth_append)
  have "str_index ?s (int (length pre)) = Inr (length_field w ! 0)" using index [of 0] by simp
  with index [of 1] index [of 2] show ?thesis
    by (simp add: read_length_field_def adds length_field_def of_nat_byte_and_255 join_bytes_24
        del: of_nat_add)
qed

interpretation lengths: field_codec 3 length_field read_length_field "\<lambda>w. unat w < 2 ^ 24"
proof unfold_locales
  fix w :: uint and pre post :: string
  assume "unat w < 2 ^ 24" and fits: "in_int (int (length pre + 3))"
  then have "take_bit 24 w = w" 
    by (simp only: word_unat_eq_iff unsigned_take_bit_eq) (simp add: take_bit_nat_eq_self)
  with read_length_field [OF fits]
  show "read_length_field (pre @ length_field w @ post) (int (length pre)) = Inr w" by simp
qed simp

section \<open>What an ongoing serialization carries\<close>

text \<open>
  The abstraction: an ongoing serialization carries the list of message texts added since
  its last begin. The stream is their concatenation and the lengths are theirs.
\<close>

definition carries :: "OngoingSerialization \<Rightarrow> string list \<Rightarrow> bool" where
  "carries og ms \<longleftrightarrow> messages og = concat ms \<and>
     msgLengths (vHead og) = map (\<lambda>m. of_nat (length m)) ms"

lemma addGeneric_simps:
  "messages (addGeneric og m) = messages og @ m"
  "msgLengths (vHead (addGeneric og m)) = msgLengths (vHead og) @ [of_nat (length m)]"
  "sendId (vHead (addGeneric og m)) = sendId (vHead og)"
  "destId (vHead (addGeneric og m)) = destId (vHead og)"
  by (simp_all add: addGeneric_def NEW_BUNDLES_def)

lemma serialize_begin_simps:
  "messages (serialize_begin_ids og s d) = messages og"
  "msgLengths (vHead (serialize_begin_ids og s d)) = []"
  "sendId (vHead (serialize_begin_ids og s d)) = s"
  "destId (vHead (serialize_begin_ids og s d)) = d"
  by (simp_all add: serialize_begin_ids_def)

lemma carries_begin: "carries (serialize_begin_ids og s d) [] \<longleftrightarrow> messages og = []"
  by (simp add: carries_def serialize_begin_simps)

lemma carries_add: "carries og ms \<Longrightarrow> carries (addGeneric og m) (ms @ [m])"
  by (simp add: carries_def addGeneric_simps)

lemma carries_add_all:
  "carries og ms \<Longrightarrow> carries (fold (\<lambda>m og. addGeneric og m) ns og) (ms @ ns)"
  by (induction ns arbitrary: og ms) (use carries_add in fastforce)+

lemma add_all_ids:
  "sendId (vHead (fold (\<lambda>m og. addGeneric og m) ns og)) = sendId (vHead og)"
  "destId (vHead (fold (\<lambda>m og. addGeneric og m) ns og)) = destId (vHead og)"
  by (induction ns arbitrary: og) (simp_all add: addGeneric_simps)

text \<open>The size check of \<open>serialize_end\<close> never fails.\<close>

lemma length_vary_header:
  "length (vary_header v) = length (msgLengths v) * 3 + length (sendId v) + length (destId v)"
  by (simp add: vary_header_def lengths.length_fields)

lemma serialize_end_v1_eq:
  "serialize_end_v1 og =
     (let res = vary_header (vHead og) @ messages og in Inr (True, result_header (vHead og) res, res))"
  by (simp add: serialize_end_v1_def length_vary_header Let_def)

lemma serialize_end_eq:
  "serialize_end J og h r =
     (let res = vary_header (vHead og) @ messages og in Inr (True, result_header (vHead og) res, res))"
  by (simp add: serialize_end_def NEW_BUNDLES_def serialize_end_v1_eq)

section \<open>The round trip of a bundle\<close>

text \<open>
  A message text that the receiving side can read: it starts with a brace and the library
  parses it into a value with a message type.
\<close>

definition readable :: "jsonlib \<Rightarrow> string \<Rightarrow> json \<Rightarrow> MessageBase \<Rightarrow> bool" where
  "readable J m v b \<longleftrightarrow> (\<exists>m'. m = CHR ''{'' # m') \<and> js_parse J m = Some v \<and> ParseJsonMessageBase J v = Inr b"

text \<open>The sizes that the fixed-width fields of a v1 bundle can express.\<close>

definition bundle_fits :: "string \<Rightarrow> string \<Rightarrow> string list \<Rightarrow> bool" where
  "bundle_fits s d ms \<longleftrightarrow> length s < 256 \<and> length d < 256 \<and> length ms < 256 \<and>
     (\<forall>m \<in> set ms. length m < 2 ^ 24) \<and>
     length s + length d + 3 * length ms + length (concat ms) < 2 ^ 31"

text \<open>Where consecutive messages lie.\<close>

fun places :: "nat \<Rightarrow> string list \<Rightarrow> (int \<times> int) list" where
  "places n [] = []"
| "places n (m # ms) = (int n, int (length m)) # places (n + length m) ms"

lemma length_places [simp]: "length (places n ms) = length ms"
  by (induction ms arbitrary: n) simp_all

lemma slice_places:
  "map (slice (pre @ concat ms @ post)) (places (length pre) ms) = ms"
proof (induction ms arbitrary: pre)
  case (Cons m ms)
  from Cons.IH [of "pre @ m"] show ?case by (simp add: slice_def)
qed simp

lemma addMessage_v1_at:
  assumes "readable J m v b" and "in_int (int (length (pre @ m @ post)))"
    and whole: "txt = (if msgStr \<noteq> [] then msgStr else messages_v1 c)" "txt = pre @ m @ post"
    and "offsets_v1 c = [] \<longrightarrow> msgStr \<noteq> []" and "msgStr \<noteq> [] \<longrightarrow> messages_v1 c = []"
  shows "addMessage_v1 J (int (length pre)) (int (length m)) msgStr c =
    Inr (c\<lparr>messages_v1 := txt, offsets_v1 := offsets_v1 c @ [(int (length pre), int (length m))],
           messages_json := messages_json c @ [v], message_bases := message_bases c @ [b]\<rparr>)"
proof -
  obtain m' where m: "m = CHR ''{'' # m'" using assms(1) by (auto simp: readable_def)
  have "in_int (int (length pre + length m))"
    using assms(2) by (simp add: in_int_def)
  then have "past_end txt (int (length pre)) (int (length m)) = Inr False"
    using assms(2) whole(2)
    by (auto simp: past_end_def int_add_def to_int_id)
  moreover have "str_index txt (int (length pre)) = Inr CHR ''{''"
    unfolding whole(2) m by (simp add: str_index_append)
  moreover have "slice txt (int (length pre), int (length m)) = m"
    by (simp add: whole(2) slice_def)
  ultimately show ?thesis
    using assms(1,5,6) whole(1) by (auto simp: addMessage_v1_def NEW_BUNDLES_def readable_def Let_def)
qed

lemma add_messages_at:
  assumes "list_all2 (\<lambda>m (v, b). readable J m v b) ms vbs"
    and "in_int (int (length txt))" and "txt = pre @ concat ms @ post"
    and "\<forall>m \<in> set ms. length m < 2 ^ 24"
    and "first \<longrightarrow> messages_v1 c = [] \<and> txt \<noteq> []"
    and "\<not> first \<longrightarrow> messages_v1 c = txt \<and> offsets_v1 c \<noteq> []"
  shows "add_messages J txt first (map (\<lambda>m. of_nat (length m)) ms) (int (length pre)) c =
    Inr (c\<lparr>messages_v1 := (if ms = [] then messages_v1 c else txt),
           offsets_v1 := offsets_v1 c @ places (length pre) ms,
           messages_json := messages_json c @ map fst vbs,
           message_bases := message_bases c @ map snd vbs\<rparr>)"
  using assms
proof (induction ms vbs arbitrary: pre c first rule: list_all2_induct)
  case Nil
  then show ?case by simp
next
  case (Cons m ms vb vbs)
  obtain v b where vb: "vb = (v, b)" by (cases vb)
  have whole: "txt = pre @ m @ (concat ms @ post)" using Cons.prems(2) by simp
  have m24: "length m < 2 ^ 24" using Cons.prems(3) by simp
  then have len: "unat (of_nat (length m) :: uint) = length m"
    by (simp add: unat_of_nat take_bit_nat_eq_self)
  have ints: "to_int (int (length m)) = int (length m)"
    "to_int (int (length pre) + int (length m)) = int (length (pre @ m))"
    using m24 Cons.prems(1) whole by (auto simp: in_int_def intro!: to_int_id)
  let ?c = "c\<lparr>messages_v1 := txt, offsets_v1 := offsets_v1 c @ [(int (length pre), int (length m))],
           messages_json := messages_json c @ [v], message_bases := message_bases c @ [b]\<rparr>"
  have step: "addMessage_v1 J (int (length pre)) (int (length m)) (if first then txt else []) c = Inr ?c"
    by (rule addMessage_v1_at [where post = "concat ms @ post"])
      (use Cons.hyps(1) Cons.prems whole vb in auto)
  have rest: "add_messages J txt False (map (\<lambda>m. of_nat (length m)) ms) (int (length (pre @ m))) ?c =
    Inr (?c\<lparr>messages_v1 := (if ms = [] then messages_v1 ?c else txt),
           offsets_v1 := offsets_v1 ?c @ places (length (pre @ m)) ms,
           messages_json := messages_json ?c @ map fst vbs,
           message_bases := message_bases ?c @ map snd vbs\<rparr>)"
    by (rule Cons.IH) (use Cons.prems in auto)
  show ?case using step rest by (simp add: len ints vb)
qed

text \<open>
  Reading the string of a bundle that carries readable messages: the sender and the
  messages come back, in order and in place.
\<close>

definition received :: "string \<Rightarrow> string \<Rightarrow> string \<Rightarrow> string list \<Rightarrow> (json \<times> MessageBase) list \<Rightarrow> MessageConglomerate" where
  "received res s d ms vbs =
     \<lparr>senderId = s, messages_json = map fst vbs,
      messages_v1 = (if ms = [] then [] else res),
      offsets_v1 = places (length s + length d + 3 * length ms) ms,
      message_bases = map snd vbs\<rparr>"

lemma deserialize_v1_carried:
  assumes fits: "bundle_fits s d ms"
    and readable: "list_all2 (\<lambda>m (v, b). readable J m v b) ms vbs"
    and res: "res = vary_header \<lparr>sendId = s, destId = d, msgLengths = map (\<lambda>m. of_nat (length m)) ms\<rparr> @ concat ms"
    and h: "sendIdLen h = int (length s)" "destIdLen h = int (length d)" "messageCount h = int (length ms)"
  shows "deserialize_v1 J h res new_MessageConglomerate = Inr (True, received res s d ms vbs)"
proof -
  let ?lens = "map (\<lambda>m. of_nat (length m)) ms :: uint list"
  let ?fields = "concat (map length_field ?lens)"
  have split_s: "res = [] @ concat (map (\<lambda>c. [c]) s) @ (d @ ?fields @ concat ms)"
    and split_d: "res = s @ concat (map (\<lambda>c. [c]) d) @ (?fields @ concat ms)"
    and split_l: "res = (s @ d) @ ?fields @ concat ms"
    by (simp_all add: res vary_header_def)
  have lens_ok: "\<forall>w \<in> set ?lens. unat w < 2 ^ 24"
    using fits by (auto simp: bundle_fits_def unat_of_nat take_bit_nat_eq_self)
  have bound: "in_int (int n)" if "n \<le> length s + length d + 3 * length ms + length (concat ms)" for n
    using fits that by (auto simp: bundle_fits_def in_int_def)
  have bounds: "in_int (int (length s))" "in_int (int (length s) + int (length d))"
    "in_int (int (length s) + int (length d) + 3 * int (length ms))"
    using bound [of "length s"] bound [of "length s + length d"]
      bound [of "length s + length d + 3 * length ms"] by simp_all
  have read_s: "read_fields str_index 1 (length s) res 0 = Inr (s, int (length s))"
    using chars.read_fields_enc [of s "[]" "d @ ?fields @ concat ms"] bounds
    by (subst split_s) simp
  have read_d: "read_fields str_index 1 (length d) res (int (length s)) = Inr (d, int (length s + length d))"
    using chars.read_fields_enc [of d s "?fields @ concat ms"] bounds
    by (subst split_d) simp
  have read_l: "read_fields read_length_field 3 (length ms) res (int (length s + length d)) =
      Inr (?lens, int (length s + length d + 3 * length ms))"
    using lengths.read_fields_enc [of ?lens "s @ d" "concat ms"] bounds lens_ok
    by (subst split_l) simp
  let ?pre = "s @ d @ ?fields"
  have len_pre: "length ?pre = length s + length d + 3 * length ms"
    using lengths.length_fields [of ?lens] by simp
  have msgs: "ms \<noteq> [] \<Longrightarrow> concat ms \<noteq> []"
    using readable by (cases ms) (auto simp: readable_def list_all2_Cons1)
  have nonempty: "res \<noteq> []" if "ms \<noteq> []" using msgs that by (simp add: res)
  let ?c = "setSenderId s new_MessageConglomerate"
  have add: "add_messages J res True ?lens (int (length ?pre)) ?c = Inr (received res s d ms vbs)"
  proof (cases "ms = []")
    case True
    with readable show ?thesis
      by (simp add: received_def setSenderId_def new_MessageConglomerate_def)
  next
    case False
    have "length res = length ?pre + length (concat ms)" by (simp add: res vary_header_def)
    then have "in_int (int (length res))"
      unfolding len_pre by (intro bound) simp
    moreover have "res = ?pre @ concat ms @ []" by (simp add: res vary_header_def)
    ultimately have "add_messages J res True ?lens (int (length ?pre)) ?c =
      Inr (?c\<lparr>messages_v1 := (if ms = [] then messages_v1 ?c else res),
           offsets_v1 := offsets_v1 ?c @ places (length ?pre) ms,
           messages_json := messages_json ?c @ map fst vbs,
           message_bases := message_bases ?c @ map snd vbs\<rparr>)"
      using fits readable nonempty [OF False]
      by (intro add_messages_at) (simp_all add: bundle_fits_def setSenderId_def new_MessageConglomerate_def)
    with False show ?thesis
      unfolding len_pre by (simp add: received_def setSenderId_def new_MessageConglomerate_def)
  qed
  show ?thesis
    using read_s read_d read_l add unfolding len_pre
    by (simp add: deserialize_v1_def h)
qed

lemma received_simps [simp]:
  "getSenderId (received res s d ms vbs) = s"
  "getCount (received res s d ms vbs) = length ms"
  "messages_json (received res s d ms vbs) = map fst vbs"
  "message_bases (received res s d ms vbs) = map snd vbs"
  by (simp_all add: received_def getSenderId_def getCount_offsets)

lemma received_slices:
  assumes "res = vary_header v @ concat ms" and "sendId v = s" and "destId v = d"
    and "length (msgLengths v) = length ms"
  shows "map (slice (messages_v1 (received res s d ms vbs))) (offsets_v1 (received res s d ms vbs)) = ms"
proof (cases "ms = []")
  case False
  have "length (vary_header v) = length s + length d + 3 * length ms"
    using assms by (simp add: length_vary_header)
  with False slice_places [of "vary_header v" ms "[]"] show ?thesis
    by (simp add: received_def assms(1))
qed (simp add: received_def)

text \<open>The header of a bundle that fits survives the wire, and announces the length of its text.\<close>

lemma result_header_fits:
  assumes "length (sendId v) < 256" and "length (destId v) < 256" and "length (msgLengths v) < 256"
  shows "header_fits (result_header v res)"
    and "sendIdLen (result_header v res) = int (length (sendId v))"
    and "destIdLen (result_header v res) = int (length (destId v))"
    and "messageCount (result_header v res) = int (length (msgLengths v))"
  using assms by (simp_all add: header_fits_def result_header_def to_int_id in_int_def)

lemma result_header_remLen: "length res < 2 ^ 32 \<Longrightarrow> unat (remLen (result_header v res)) = length res"
  by (simp add: result_header_def unat_of_nat take_bit_nat_eq_self)

lemma header_over_wire: "header_fits h \<Longrightarrow> read_bundle_header (make_bundle_header h) = Inr h"
  by (simp add: read_bundle_header_in_use make_bundle_header_in_use v1.dec_enc)

lemma bundle_length: "bundle_fits s d ms \<Longrightarrow> sendId v = s \<Longrightarrow> destId v = d \<Longrightarrow>
    length (msgLengths v) = length ms \<Longrightarrow> length (vary_header v @ concat ms) < 2 ^ 32"
  by (simp add: length_vary_header bundle_fits_def)

text \<open>All of it for an ongoing serialization that carries its messages.\<close>

lemma end_then_deserialize:
  assumes carries: "carries og ms" and fits: "bundle_fits (sendId (vHead og)) (destId (vHead og)) ms"
    and readable: "list_all2 (\<lambda>m (v, b). readable J m v b) ms vbs"
  defines "res \<equiv> vary_header (vHead og) @ concat ms"
  shows "serialize_end J og h0 r0 = Inr (True, result_header (vHead og) res, res)"
    and "header_fits (result_header (vHead og) res)"
    and "unat (remLen (result_header (vHead og) res)) = length res"
    and "deserialize J (result_header (vHead og) res) res new_MessageConglomerate =
           Inr (True, received res (sendId (vHead og)) (destId (vHead og)) ms vbs)"
    and "map (slice res) (offsets_v1 (received res (sendId (vHead og)) (destId (vHead og)) ms vbs)) = ms"
proof -
  let ?v = "vHead og"
  have lens: "length (msgLengths ?v) = length ms" using carries by (simp add: carries_def)
  have small: "length (sendId ?v) < 256" "length (destId ?v) < 256" "length (msgLengths ?v) < 256"
    using fits lens by (simp_all add: bundle_fits_def)
  show "serialize_end J og h0 r0 = Inr (True, result_header ?v res, res)"
    using carries by (simp add: serialize_end_eq res_def carries_def Let_def)
  show "header_fits (result_header ?v res)" by (rule result_header_fits(1) [OF small])
  show "unat (remLen (result_header ?v res)) = length res"
    unfolding res_def by (rule result_header_remLen, rule bundle_length [OF fits refl refl lens])
  have v: "?v = \<lparr>sendId = sendId ?v, destId = destId ?v,
      msgLengths = map (\<lambda>m. of_nat (length m)) ms\<rparr>"
    using carries by (simp add: carries_def)
  have "deserialize_v1 J (result_header ?v res) res new_MessageConglomerate =
      Inr (True, received res (sendId ?v) (destId ?v) ms vbs)"
    by (rule deserialize_v1_carried [OF fits readable])
      (use result_header_fits(2-4) [OF small] lens v in \<open>simp_all add: res_def\<close>)
  then show "deserialize J (result_header ?v res) res new_MessageConglomerate =
      Inr (True, received res (sendId ?v) (destId ?v) ms vbs)"
    by (simp add: deserialize_def NEW_BUNDLES_def)
  show "map (slice res) (offsets_v1 (received res (sendId ?v) (destId ?v) ms vbs)) = ms"
    using received_slices [OF res_def [THEN meta_eq_to_obj_eq] refl refl lens, of vbs]
    by (cases "ms = []") (simp_all add: received_def)
qed

section \<open>Properties\<close>

text \<open>
  C1: a bundle built from any list of readable messages within the format's sizes is read
  back exactly. The header survives its 8-byte encoding and announces the length of the
  text, and deserializing gives the sender, the messages in order, their JSON values and
  their types, with every recorded place cutting out the text that was added.
\<close>

theorem bundle_round_trip:
  assumes "bundle_fits s d ms" and "list_all2 (\<lambda>m (v, b). readable J m v b) ms vbs"
  shows "\<exists>h res c.
    serialize_end J (fold (\<lambda>m og. addGeneric og m) ms (serialize_begin_ids new_OngoingSerialization s d)) h0 r0
      = Inr (True, h, res) \<and>
    read_bundle_header (make_bundle_header h) = Inr h \<and> unat (remLen h) = length res \<and>
    deserialize J h res new_MessageConglomerate = Inr (True, c) \<and>
    getSenderId c = s \<and> getCount c = length ms \<and>
    messages_json c = map fst vbs \<and> message_bases c = map snd vbs \<and>
    map (slice res) (offsets_v1 c) = ms"
proof -
  let ?start = "serialize_begin_ids new_OngoingSerialization s d"
  let ?og = "fold (\<lambda>m og. addGeneric og m) ms ?start"
  have "carries ?start []" by (simp add: carries_begin new_OngoingSerialization_def)
  then have carries: "carries ?og ms" using carries_add_all [of ?start "[]" ms] by simp
  have ids: "sendId (vHead ?og) = s" "destId (vHead ?og) = d"
    by (simp_all add: add_all_ids serialize_begin_simps)
  note end_then_deserialize [OF carries _ assms(2), unfolded ids, OF assms(1)]
  then show ?thesis using header_over_wire by (fastforce simp: received_simps)
qed

theorem bundle_round_trip_witness:
  "\<exists>h res c.
    serialize_end demo_lib (fold (\<lambda>m og. addGeneric og m) [''{a}'', ''{b}'']
        (serialize_begin_ids new_OngoingSerialization ''9'' ''0'')) new_BundleHeader []
      = Inr (True, h, res) \<and>
    read_bundle_header (make_bundle_header h) = Inr h \<and> unat (remLen h) = length res \<and>
    deserialize demo_lib h res new_MessageConglomerate = Inr (True, c) \<and>
    getSenderId c = ''9'' \<and> getCount c = length [''{a}'', ''{b}''] \<and>
    messages_json c = map fst [(demo_typed ''a'', \<lparr>msg_type = ''a''\<rparr>), (demo_typed ''b'', \<lparr>msg_type = ''b''\<rparr>)] \<and>
    message_bases c = map snd [(demo_typed ''a'', \<lparr>msg_type = ''a''\<rparr>), (demo_typed ''b'', \<lparr>msg_type = ''b''\<rparr>)] \<and>
    map (slice res) (offsets_v1 c) = [''{a}'', ''{b}'']"
  by (rule bundle_round_trip)
    (simp_all add: bundle_fits_def readable_def ParseJsonMessageBase_def get_string_def
      new_MessageBase_def demo_lib_def demo_json_def demo_typed_def)

end
