(* ===== verification/Serialize_Props.thy ===== *)
theory Serialize_Props
  imports Serialize
begin

text \<open>
  Properties of the serialization layer beyond the round trip of a bundle: what a
  successful deserialization guarantees of any received text, what the reuse of an ongoing
  serialization does, what the fixed-width fields keep, and the round trips of the message
  contents that this program both writes and reads.
\<close>

section \<open>A successful deserialization\<close>

lemma add_messages_sound:
  assumes "add_messages J s first ls i c = Inr c'" and "conglom_ok J c"
  shows "conglom_ok J c' \<and> getCount c' = getCount c + length ls \<and> senderId c' = senderId c"
  using assms
proof (induction ls arbitrary: first i c)
  case (Cons l ls)
  from Cons.prems(1) obtain d where d: "addMessage_v1 J i (to_int (int (unat l))) (if first then s else []) c = Inr d"
    and rest: "add_messages J s False ls (to_int (i + int (unat l))) d = Inr c'"
    by (auto simp: outcome_simps)
  have "conglom_ok J d" using addMessage_v1_ok [OF Cons.prems(2) d] .
  moreover have "getCount d = Suc (getCount c) \<and> senderId d = senderId c"
    using d by (rule addMessage_v1_Inr) (simp add: getCount_offsets)
  ultimately show ?case using Cons.IH [OF rest] by simp
qed simp

text \<open>Each message starts where the one before it ended.\<close>

fun chained :: "int \<Rightarrow> (int \<times> int) list \<Rightarrow> bool" where
  "chained i [] = True"
| "chained i ((off, len) # ols) = (off = i \<and> chained (off + len) ols)"

lemma to_int_nonneg: "0 \<le> to_int n \<Longrightarrow> n < 4294967296 \<Longrightarrow> to_int n = n" if "0 \<le> n"
proof -
  assume "0 \<le> to_int n" and "n < 4294967296"
  then have "in_int n" using that
    by (simp add: to_int_def in_int_def) (smt (verit) minus_mod_self2 mod_pos_pos_trivial)
  then show ?thesis by (rule to_int_id)
qed

lemma add_messages_chained:
  assumes "add_messages J s first ls i c = Inr c'"
  shows "\<exists>ols. offsets_v1 c' = offsets_v1 c @ ols \<and> chained i ols"
  using assms
proof (induction ls arbitrary: first i c)
  case (Cons l ls)
  from Cons.prems obtain d where d: "addMessage_v1 J i (to_int (int (unat l))) (if first then s else []) c = Inr d"
    and rest: "add_messages J s False ls (to_int (i + int (unat l))) d = Inr c'"
    by (auto simp: outcome_simps)
  let ?len = "to_int (int (unat l))"
  have off: "offsets_v1 d = offsets_v1 c @ [(i, ?len)]" and range: "0 \<le> i" "0 \<le> ?len" "in_int (i + ?len)"
  proof -
    from d show "offsets_v1 d = offsets_v1 c @ [(i, ?len)]" by (rule addMessage_v1_Inr) simp
    from d show "0 \<le> i" "0 \<le> ?len" by (rule addMessage_v1_Inr; simp)+
    from d show "in_int (i + ?len)"
      by (auto simp: addMessage_v1_def past_end_def outcome_simps int_add_Inr Let_def split: if_splits)
  qed
  have "int (unat l) < 4294967296" using unat_uint_less [of l] by linarith
  with range(2) have "?len = int (unat l)"
    by (intro to_int_nonneg) simp_all
  with range(3) have "to_int (i + int (unat l)) = i + ?len" by (simp add: to_int_id)
  with Cons.IH [OF rest] off show ?case by auto
qed simp

lemma deserialize_ok: "deserialize J h s new_MessageConglomerate = Inr (ok, c) \<Longrightarrow> ok \<and> conglom_ok J c"
  by (auto simp: deserialize_def NEW_BUNDLES_def deserialize_v1_def outcome_simps conglom_ok_new
      dest!: add_messages_sound split: prod.splits)

text \<open>
  C9: whatever text is received, a deserialization that succeeds yields a well-formed
  conglomerate: as many messages as the header announces, one after the other without a
  gap, each inside the text, with the JSON value and the type that its text parses to.
\<close>

theorem deserialize_sound:
  assumes "deserialize J h s new_MessageConglomerate = Inr (ok, c)"
  shows "ok \<and> conglom_ok J c \<and> getCount c = nat (messageCount h) \<and> (\<exists>i. chained i (offsets_v1 c))"
proof -
  from assms obtain sid i1 did i2 lens i3 where
    lens: "read_fields read_length_field 3 (nat (messageCount h)) s i2 = Inr (lens, i3)"
    and add: "add_messages J s True lens i3 (setSenderId sid new_MessageConglomerate) = Inr c" and ok: "ok"
    by (auto simp: deserialize_def NEW_BUNDLES_def deserialize_v1_def outcome_simps split: prod.splits)
  have "length lens = nat (messageCount h)" using lens
  proof (induction "nat (messageCount h)" arbitrary: i2 lens)
    case 0
    then show ?case by simp
  next
    case (Suc n)
    have "length xs = n" if "read_fields rd w n t i = Inr (xs, j)" for rd w n t i j and xs :: "uint list"
      using that by (induction n arbitrary: i xs) (auto simp: outcome_simps)
    with Suc.prems show ?case by blast
  qed
  moreover have "getCount (setSenderId sid new_MessageConglomerate) = 0"
    by (simp add: getCount_offsets setSenderId_def new_MessageConglomerate_def)
  ultimately have "conglom_ok J c \<and> getCount c = nat (messageCount h)"
    using add_messages_sound [OF add] by (simp add: conglom_ok_new)
  moreover obtain ols where "offsets_v1 c = ols" "chained i3 ols"
    using add_messages_chained [OF add] by (auto simp: setSenderId_def new_MessageConglomerate_def)
  ultimately show ?thesis using ok by blast
qed

definition demo_header :: BundleHeader where
  "demo_header = \<lparr>sendIdLen = 1, destIdLen = 1, messageCount = 1, remLen = 8\<rparr>"

definition demo_text :: string where
  "demo_text = ''90'' @ length_field 3 @ ''{a}''"

definition demo_conglomerate :: MessageConglomerate where
  "demo_conglomerate = \<lparr>senderId = ''9'', messages_json = [demo_typed ''a''], messages_v1 = demo_text,
     offsets_v1 = [(5, 3)], message_bases = [\<lparr>msg_type = ''a''\<rparr>]\<rparr>"

lemma demo_deserialize: "deserialize demo_lib demo_header demo_text new_MessageConglomerate = Inr (True, demo_conglomerate)"
proof -
  let ?v = "\<lparr>sendId = ''9'', destId = ''0'', msgLengths = map (\<lambda>m. of_nat (length m)) [''{a}'']\<rparr>"
  have "deserialize_v1 demo_lib demo_header demo_text new_MessageConglomerate =
      Inr (True, received demo_text ''9'' ''0'' [''{a}''] [(demo_typed ''a'', \<lparr>msg_type = ''a''\<rparr>)])"
    by (rule deserialize_v1_carried)
      (simp_all add: bundle_fits_def readable_def ParseJsonMessageBase_def get_string_def new_MessageBase_def
        demo_lib_def demo_json_def demo_typed_def demo_text_def vary_header_def demo_header_def)
  then show ?thesis
    by (simp add: deserialize_def NEW_BUNDLES_def received_def demo_conglomerate_def)
qed

theorem deserialize_sound_witness:
  "True \<and> conglom_ok demo_lib demo_conglomerate \<and> getCount demo_conglomerate = nat (messageCount demo_header) \<and>
     (\<exists>i. chained i (offsets_v1 demo_conglomerate))"
  by (rule deserialize_sound [OF demo_deserialize])

section \<open>Using an ongoing serialization again\<close>

text \<open>
  \<open>serialize_begin\<close> forgets the lengths of the messages that an ongoing serialization
  carries, but not their texts. The next bundle that it closes counts the new messages
  only, while its text has the old ones before them, so the first message that a reader
  cuts out starts with the bytes of the first old one.
\<close>

theorem reuse_keeps_old_messages:
  assumes "carries og old" and "new \<noteq> []"
  shows "\<exists>h res. serialize_end J (fold (\<lambda>m og. addGeneric og m) new (serialize_begin_ids og s d)) h0 r0 = Inr (True, h, res) \<and>
    messageCount h = to_int (int (length new)) \<and>
    res = vary_header \<lparr>sendId = s, destId = d, msgLengths = map (\<lambda>m. of_nat (length m)) new\<rparr> @ concat old @ concat new \<and>
    slice res (fst (hd (places (length s + length d + 3 * length new) new)), snd (hd (places (length s + length d + 3 * length new) new)))
      = take (length (hd new)) (concat old @ concat new)"
proof -
  let ?og = "fold (\<lambda>m og. addGeneric og m) new (serialize_begin_ids og s d)"
  have lens: "msgLengths (vHead (fold (\<lambda>m og. addGeneric og m) ms g)) = msgLengths (vHead g) @ map (\<lambda>m. of_nat (length m)) ms \<and>
      messages (fold (\<lambda>m og. addGeneric og m) ms g) = messages g @ concat ms" for ms g
    by (induction ms arbitrary: g) (simp_all add: addGeneric_simps)
  have v: "vHead ?og = \<lparr>sendId = s, destId = d, msgLengths = map (\<lambda>m. of_nat (length m)) new\<rparr>"
    using lens [of new "serialize_begin_ids og s d"] add_all_ids [of new "serialize_begin_ids og s d"]
    by (simp add: serialize_begin_simps)
  have m: "messages ?og = concat old @ concat new"
    using lens [of new "serialize_begin_ids og s d"] assms(1) by (simp add: serialize_begin_simps carries_def)
  let ?res = "vary_header (vHead ?og) @ messages ?og"
  have "slice ?res (fst (hd (places (length s + length d + 3 * length new) new)),
      snd (hd (places (length s + length d + 3 * length new) new))) = take (length (hd new)) (concat old @ concat new)"
    using assms(2) unfolding v m
    by (cases new) (simp_all add: slice_def length_vary_header add.commute add.left_commute)
  then show ?thesis
    using v m by (simp add: serialize_end_eq Let_def result_header_def)
qed

theorem reuse_keeps_old_messages_witness:
  "\<exists>h res. serialize_end demo_lib (fold (\<lambda>m og. addGeneric og m) [''{b}'']
      (serialize_begin_ids (addGeneric (serialize_begin new_OngoingSerialization) ''{a}'') ''9'' ''0'')) new_BundleHeader [] = Inr (True, h, res) \<and>
    messageCount h = to_int (int (length [''{b}''])) \<and>
    res = vary_header \<lparr>sendId = ''9'', destId = ''0'', msgLengths = map (\<lambda>m. of_nat (length m)) [''{b}'']\<rparr>
      @ concat [''{a}''] @ concat [''{b}''] \<and>
    slice res (fst (hd (places (length ''9'' + length ''0'' + 3 * length [''{b}'']) [''{b}''])),
        snd (hd (places (length ''9'' + length ''0'' + 3 * length [''{b}'']) [''{b}''])))
      = take (length (hd [''{b}''])) (concat [''{a}''] @ concat [''{b}''])"
  by (rule reuse_keeps_old_messages)
    (simp_all add: carries_def addGeneric_simps serialize_begin_def serialize_begin_simps new_OngoingSerialization_def)

section \<open>Fields that are too small\<close>

text \<open>
  C38: the header that goes over the wire keeps the body length in full, but the identifier
  lengths and the message count only modulo 256: a bundle of 256 messages announces none.
\<close>

theorem header_counts_wrap:
  "read_bundle_header (make_bundle_header h) =
     Inr \<lparr>sendIdLen = sendIdLen h mod 256, destIdLen = destIdLen h mod 256,
          messageCount = messageCount h mod 256, remLen = remLen h\<rparr> \<and>
   (read_bundle_header (make_bundle_header h) = Inr h \<longleftrightarrow> header_fits h)"
proof -
  have byte: "n mod 256 = n \<longleftrightarrow> n \<in> {0..<256}" for n :: int
    using pos_mod_bound [of 256 n] pos_mod_sign [of 256 n] by (auto simp: mod_pos_pos_trivial)
  show ?thesis
    by (cases h) (simp add: read_bundle_header_in_use make_bundle_header_in_use read_make_v1 header_fits_def byte
        del: atLeastLessThan_iff)
qed

text \<open>
  In the older format a header is the body length as eight hexadecimal characters; it is
  read back exactly, for every length that an \<open>unsigned int\<close> can hold.
\<close>

theorem header_v0_round_trip:
  "length (make_bundle_header_v0 h) = header_length \<and>
   read_bundle_header_v0 (make_bundle_header_v0 h) = Inr (new_BundleHeader\<lparr>remLen := remLen h\<rparr>)"
  by (simp add: length_make_v0 read_make_v0)

section \<open>One message, one line\<close>

text \<open>
  C39: what the writer puts into a bundle for an object is the text of the object by itself,
  whatever the writer held before: it starts with a brace, as the receiving side demands,
  and it has no newline when the library's scalars have none.
\<close>

theorem written_message_shape:
  "fst (write_root J (objectValue kvs) (w\<lparr>yamlCompatiblityEnabled := False, appendNewline := False\<rparr>)) = render J False (objectValue kvs) \<and>
   write_line J (\<not> NEW_BUNDLES) (objectValue kvs) = render J False (objectValue kvs) \<and>
   (\<exists>s. write_line J (\<not> NEW_BUNDLES) (objectValue kvs) = CHR ''{'' # s) \<and>
   (scalars_on_one_line J \<longrightarrow> CHR 0x0A \<notin> set (write_line J (\<not> NEW_BUNDLES) (objectValue kvs)))"
  using render_on_one_line [of J False "objectValue kvs"] render_object_braces [of J False kvs]
  by (auto simp: write_line_render NEW_BUNDLES_def write_root_def writeValue_render_aux Let_def simp del: render.simps)

definition plain_lib :: jsonlib where
  "plain_lib = demo_lib\<lparr>js_quote := (\<lambda>s. ''q''), js_int := (\<lambda>i. ''0''), js_uint := (\<lambda>n. ''0''), js_real := (\<lambda>d. ''0''),
     js_bool := (\<lambda>b. ''t'')\<rparr>"

theorem written_message_shape_witness:
  "scalars_on_one_line plain_lib \<and>
   CHR 0x0A \<notin> set (write_line plain_lib (\<not> NEW_BUNDLES) (objectValue [(''msg_type'', stringValue ''a'')]))"
proof -
  have "scalars_on_one_line plain_lib" by (simp add: scalars_on_one_line_def plain_lib_def)
  with written_message_shape [of plain_lib "[(''msg_type'', stringValue ''a'')]" "new_JsonSingleLineWriter False"]
  show ?thesis by blast
qed

section \<open>Messages that are written and read\<close>

text \<open>The message of this number, as a conglomerate holds it.\<close>

definition has_message :: "MessageConglomerate \<Rightarrow> int \<Rightarrow> json \<Rightarrow> MessageBase \<Rightarrow> bool" where
  "has_message c i v b \<longleftrightarrow> getJsonMessage c i = Inr v \<and> getBaseMessage c i = Inr b"

lemma is_object_not_null: "is_object v m \<Longrightarrow> \<not> isNull v"
  by (auto simp: is_object_def isNull_def)

lemma json_type: "json_doc J \<Longrightarrow> is_object v m \<Longrightarrow> m ''msg_type'' = Some (stringValue ty) \<Longrightarrow>
    ParseJsonMessageBase J v = Inr \<lparr>msg_type = ty\<rparr>"
  by (simp add: ParseJsonMessageBase_def json_isMember [OF _ is_object_members] json_get_string [OF _ is_object_members]
      new_MessageBase_def)

lemma map_strings: "json_doc J \<Longrightarrow> map_outcome (js_asString J) (map stringValue ss) = Inr ss"
  by (induction ss) (simp_all add: json_as)

text \<open>The members of an opaque_send message.\<close>

definition opaque_members :: "string \<Rightarrow> string \<Rightarrow> string \<Rightarrow> string \<rightharpoonup> json" where
  "opaque_members data fmt tech = map_of [(''data'', stringValue data), (''tech'', stringValue tech),
     (''format'', stringValue fmt), (''from_id'', stringValue ''987654321''), (''msg_type'', stringValue ''opaque_send'')]"

lemma opaque_send_value_object:
  assumes J: "json_doc J"
  shows "\<exists>v. opaque_send_value J a rs data fmt tech = Inr v \<and>
    is_object v ((if rs = [] then opaque_members data fmt tech
                  else (opaque_members data fmt tech)(''to_ids'' \<mapsto> arrayValue (map stringValue rs)))
                 (''broadcast'' \<mapsto> booleanValue (rs = [])))"
proof -
  obtain v0 where v0: "set_all J nullValue [(''msg_type'', stringValue ''opaque_send''), (''from_id'', stringValue ''987654321''),
      (''format'', stringValue fmt), (''tech'', stringValue tech), (''data'', stringValue data)] = Inr v0"
      "is_object v0 (opaque_members data fmt tech)"
    using set_all_null [OF J, of "[(''msg_type'', stringValue ''opaque_send''), (''from_id'', stringValue ''987654321''),
      (''format'', stringValue fmt), (''tech'', stringValue tech), (''data'', stringValue data)]"]
    by (auto simp: opaque_members_def)
  obtain v1 where v1: "append_all J v0 ''to_ids'' (map stringValue rs) = Inr v1"
      "is_object v1 (if rs = [] then opaque_members data fmt tech
         else (opaque_members data fmt tech)(''to_ids'' \<mapsto> arrayValue (map stringValue rs)))"
  proof (cases rs)
    case Nil
    with v0(2) that show thesis by (simp add: append_all_def)
  next
    case (Cons r rs')
    have none: "opaque_members data fmt tech ''to_ids'' = (if ([] :: json list) = [] then None else Some (arrayValue []))"
      by (simp add: opaque_members_def)
    obtain v' where v': "append_all J v0 ''to_ids'' (stringValue r # map stringValue rs') = Inr v'"
        "is_object v' ((opaque_members data fmt tech)(''to_ids'' \<mapsto> arrayValue ([] @ stringValue r # map stringValue rs')))"
      using append_all_object [OF J v0(2) none] by blast
    show thesis by (rule that [of v']) (use v' Cons in simp_all)
  qed
  obtain v where "js_set J v1 ''broadcast'' (booleanValue (rs = [])) = Inr v"
    "is_object v ((if rs = [] then opaque_members data fmt tech
         else (opaque_members data fmt tech)(''to_ids'' \<mapsto> arrayValue (map stringValue rs)))(''broadcast'' \<mapsto> booleanValue (rs = [])))"
    using json_set [OF J is_object_members [OF v1(2)]] by blast
  with v0(1) v1(1) show ?thesis by (simp add: opaque_send_value_def)
qed

lemma opaque_send_written:
  assumes J: "json_doc J"
  obtains v m where "opaque_send_value J a rs data fmt tech = Inr v" and "is_object v m"
    and "makeOpaqueSend J og a rs data fmt tech = Inr (emit_json J og v)"
    and "ParseJsonMessageBase J v = Inr \<lparr>msg_type = ''opaque_send''\<rparr>"
    and "\<And>c i. has_message c i v \<lparr>msg_type = ''opaque_send''\<rparr> \<Longrightarrow> parseOpaqueSend J c i =
      (if rs = [] then throw ''Badly formatted OPAQUE_SEND message.''
       else Inr \<lparr>msg_type = ''opaque_send'', fromId = ''987654321'', toIds = rs, broadcast = False, os_data = data,
                 os_format = fmt, os_tech = tech\<rparr>)"
proof -
  let ?m = "(if rs = [] then opaque_members data fmt tech
      else (opaque_members data fmt tech)(''to_ids'' \<mapsto> arrayValue (map stringValue rs)))(''broadcast'' \<mapsto> booleanValue (rs = []))"
  obtain v where v: "opaque_send_value J a rs data fmt tech = Inr v" "is_object v ?m"
    using opaque_send_value_object [OF J] by blast
  note mem = is_object_members [OF v(2)]
  have "makeOpaqueSend J og a rs data fmt tech = Inr (emit_json J og v)"
    using v(1) by (simp add: makeOpaqueSend_def PREFER_BINARY_MESSAGES_def)
  moreover have "ParseJsonMessageBase J v = Inr \<lparr>msg_type = ''opaque_send''\<rparr>"
    using J v(2) by (rule json_type) (simp add: opaque_members_def)
  moreover have "parseOpaqueSend J c i =
      (if rs = [] then throw ''Badly formatted OPAQUE_SEND message.''
       else Inr \<lparr>msg_type = ''opaque_send'', fromId = ''987654321'', toIds = rs, broadcast = False, os_data = data,
                 os_format = fmt, os_tech = tech\<rparr>)" if "has_message c i v \<lparr>msg_type = ''opaque_send''\<rparr>" for c i
    using that is_object_not_null [OF v(2)]
    by (simp add: has_message_def parseOpaqueSend_def parse_base_def json_isMember [OF J mem] json_get [OF J mem] get_string_def
        opaque_members_def json_as [OF J] json_elements [OF J] map_strings [OF J] isArray_def
        MessageBase.extend_def OpaqueSendMessage.fields_def)
  ultimately show thesis using that v by blast
qed

text \<open>
  C37: what \<open>makeOpaqueSend\<close> writes, \<open>parseOpaqueSend\<close> reads back, with two exceptions: the sender
  that is read is always 987654321 and never the agent that was given, and a message
  without recipients is written without its list of recipients, which the reader refuses.
\<close>

theorem opaque_send_round_trip:
  assumes J: "json_doc J" and "\<And>v. opaque_send_value J a rs data fmt tech = Inr v \<Longrightarrow> has_message c i v \<lparr>msg_type = ''opaque_send''\<rparr>"
  shows "\<exists>v. makeOpaqueSend J og a rs data fmt tech = Inr (emit_json J og v) \<and>
    ParseJsonMessageBase J v = Inr \<lparr>msg_type = ''opaque_send''\<rparr> \<and>
    parseOpaqueSend J c i =
      (if rs = [] then throw ''Badly formatted OPAQUE_SEND message.''
       else Inr \<lparr>msg_type = ''opaque_send'', fromId = ''987654321'', toIds = rs, broadcast = False, os_data = data,
                 os_format = fmt, os_tech = tech\<rparr>)"
proof -
  obtain v m where v: "opaque_send_value J a rs data fmt tech = Inr v" "is_object v m"
      "makeOpaqueSend J og a rs data fmt tech = Inr (emit_json J og v)"
      "ParseJsonMessageBase J v = Inr \<lparr>msg_type = ''opaque_send''\<rparr>"
    and parse: "\<And>c i. has_message c i v \<lparr>msg_type = ''opaque_send''\<rparr> \<Longrightarrow> parseOpaqueSend J c i =
      (if rs = [] then throw ''Badly formatted OPAQUE_SEND message.''
       else Inr \<lparr>msg_type = ''opaque_send'', fromId = ''987654321'', toIds = rs, broadcast = False, os_data = data,
                 os_format = fmt, os_tech = tech\<rparr>)"
    using opaque_send_written [OF J] by metis
  from v(3,4) parse [OF assms(2) [OF v(1)]] show ?thesis by blast
qed

definition demo_opaque_value :: json where
  "demo_opaque_value = objectValue [(''msg_type'', stringValue ''opaque_send''), (''from_id'', stringValue ''987654321''),
     (''format'', stringValue ''f''), (''tech'', stringValue ''t''), (''data'', stringValue ''d''),
     (''to_ids'', arrayValue [stringValue ''b'']), (''broadcast'', booleanValue False)]"

definition single :: "json \<Rightarrow> string \<Rightarrow> MessageConglomerate" where
  "single v ty = new_MessageConglomerate\<lparr>messages_json := [v], message_bases := [\<lparr>msg_type = ty\<rparr>]\<rparr>"

lemma demo_opaque_send: "opaque_send_value demo_lib ''a'' [''b''] ''d'' ''f'' ''t'' = Inr demo_opaque_value"
  by (simp add: opaque_send_value_def demo_lib_def demo_json_def set_all_def append_all_def append_at_def demo_opaque_value_def)

theorem opaque_send_round_trip_witness:
  "\<exists>v. makeOpaqueSend demo_lib new_OngoingSerialization ''a'' [''b''] ''d'' ''f'' ''t'' = Inr (emit_json demo_lib new_OngoingSerialization v) \<and>
    ParseJsonMessageBase demo_lib v = Inr \<lparr>msg_type = ''opaque_send''\<rparr> \<and>
    parseOpaqueSend demo_lib (single demo_opaque_value ''opaque_send'') 0 =
      (if [''b''] = [] then throw ''Badly formatted OPAQUE_SEND message.''
       else Inr \<lparr>msg_type = ''opaque_send'', fromId = ''987654321'', toIds = [''b''], broadcast = False, os_data = ''d'',
                 os_format = ''f'', os_tech = ''t''\<rparr>)"
  by (rule opaque_send_round_trip [OF demo_lib_doc])
    (auto simp: demo_opaque_send has_message_def single_def getJsonMessage_def getBaseMessage_def vec_at_def new_MessageConglomerate_def)

text \<open>The value that one location becomes; \<open>singleAgent\<close> is written over for each.\<close>

definition location_members :: "string \<times> DPoint \<Rightarrow> string \<rightharpoonup> json" where
  "location_members it = map_of [(''y'', realValue (dp_y (snd it))), (''x'', realValue (dp_x (snd it))), (''id'', stringValue (fst it))]"

lemma location_members_over: "(m :: string \<rightharpoonup> json) ++ location_members it = location_members it"
  if "dom m \<subseteq> {''id'', ''x'', ''y''}"
  using that by (auto simp: fun_eq_iff map_add_def location_members_def split: option.splits)

lemma location_step_object:
  assumes J: "json_doc J" and sa: "members sa = Some m" and m: "dom m \<subseteq> {''id'', ''x'', ''y''}"
    and res: "is_object res r" and k: "r ''locations'' = (if vs = [] then None else Some (arrayValue vs))"
  shows "\<exists>sa' res'. location_step J it (sa, res) = Inr (sa', res') \<and> is_object sa' (location_members it) \<and>
    is_object res' (r(''locations'' \<mapsto> arrayValue (vs @ [sa'])))"
proof -
  let ?fs = "[(''id'', stringValue (fst it)), (''x'', realValue (dp_x (snd it))), (''y'', realValue (dp_y (snd it)))]"
  obtain sa' where sa': "set_all J sa ?fs = Inr sa'" "is_object sa' (m ++ map_of (rev ?fs))"
    using set_all_object [OF J sa, of ?fs] by blast
  have "m ++ map_of (rev ?fs) = location_members it"
    using location_members_over [OF m, of it] by (simp add: location_members_def)
  with sa'(2) have obj: "is_object sa' (location_members it)" by simp
  obtain res' where res': "append_at J res ''locations'' sa' = Inr res'" "is_object res' (r(''locations'' \<mapsto> arrayValue (vs @ [sa'])))"
    using append_at_object [OF J res k, of sa'] by blast
  have "location_step J it (sa, res) = Inr (sa', res')"
    using sa'(1) res'(1) by (simp add: location_step_def)
  with obj res'(2) show ?thesis by blast
qed

lemma locations_object:
  assumes J: "json_doc J"
  shows "members sa = Some m \<Longrightarrow> dom m \<subseteq> {''id'', ''x'', ''y''} \<Longrightarrow> is_object res r \<Longrightarrow>
      r ''locations'' = (if vs = [] then None else Some (arrayValue vs)) \<Longrightarrow>
    \<exists>sa' res' us. fold_outcome (location_step J) locs (sa, res) = Inr (sa', res') \<and>
      list_all2 (\<lambda>it u. is_object u (location_members it)) locs us \<and>
      is_object res' (if locs = [] then r else r(''locations'' \<mapsto> arrayValue (vs @ us)))"
proof (induction locs arbitrary: sa m res r vs)
  case Nil
  then show ?case by auto
next
  case (Cons it locs)
  obtain sa1 res1 where step: "location_step J it (sa, res) = Inr (sa1, res1)" "is_object sa1 (location_members it)"
      "is_object res1 (r(''locations'' \<mapsto> arrayValue (vs @ [sa1])))"
    using location_step_object [OF J Cons.prems] by blast
  have dom: "dom (location_members it) \<subseteq> {''id'', ''x'', ''y''}" by (auto simp: location_members_def split: if_splits)
  have k: "(r(''locations'' \<mapsto> arrayValue (vs @ [sa1]))) ''locations'' =
      (if vs @ [sa1] = [] then None else Some (arrayValue (vs @ [sa1])))" by simp
  obtain sa' res' us where rest: "fold_outcome (location_step J) locs (sa1, res1) = Inr (sa', res')"
      "list_all2 (\<lambda>it u. is_object u (location_members it)) locs us"
      "is_object res' (if locs = [] then r(''locations'' \<mapsto> arrayValue (vs @ [sa1]))
         else (r(''locations'' \<mapsto> arrayValue (vs @ [sa1])))(''locations'' \<mapsto> arrayValue ((vs @ [sa1]) @ us)))"
    using Cons.IH [OF is_object_members [OF step(2)] dom step(3) k] by blast
  have "is_object res' (r(''locations'' \<mapsto> arrayValue (vs @ sa1 # us)))"
    using rest(2,3) by (cases "locs = []") simp_all
  then have obj: "is_object res' (if it # locs = [] then r else r(''locations'' \<mapsto> arrayValue (vs @ sa1 # us)))"
    by (simp only: list.distinct if_False)
  have loop: "fold_outcome (location_step J) (it # locs) (sa, res) = Inr (sa', res')"
    using step(1) rest(1) by simp
  have all: "list_all2 (\<lambda>it u. is_object u (location_members it)) (it # locs) (sa1 # us)"
    using step(2) rest(2) by simp
  from loop all obj show ?case by blast
qed

lemma parse_location_object:
  assumes J: "json_doc J" and u: "is_object u (location_members it)"
  shows "parse_location J u locs = Inr (map_put (fst it) (snd it) locs)"
  using json_isMember [OF J is_object_members [OF u]] json_get [OF J is_object_members [OF u]]
  by (cases "snd it") (simp add: parse_location_def location_members_def get_string_def json_as [OF J])

lemma put_ordered: "map_ok (locs @ [it]) \<Longrightarrow> map_put (fst it) (snd it) locs = locs @ [it]"
proof (induction locs)
  case Nil
  then show ?case by (cases it) simp
next
  case (Cons l locs)
  obtain k v where l: "l = (k, v)" by (cases l)
  from Cons.prems have "map_ok (locs @ [it])" "k < fst it" unfolding l by (auto simp: map_ok_Cons)
  with Cons.IH l show ?case by (auto dest: less_asym)
qed

lemma parse_locations:
  assumes J: "json_doc J"
  shows "list_all2 (\<lambda>it u. is_object u (location_members it)) locs us \<Longrightarrow> map_ok (pre @ locs) \<Longrightarrow>
    fold_outcome (parse_location J) us pre = Inr (pre @ locs)"
proof (induction locs us arbitrary: pre rule: list_all2_induct)
  case (Cons it locs u us)
  have "map_ok (pre @ [it])" using Cons.prems by (auto simp: map_ok_def sorted_wrt_append)
  then have "parse_location J u pre = Inr (pre @ [it])"
    using parse_location_object [OF J Cons.hyps(1)] by (simp add: put_ordered)
  with Cons.IH [of "pre @ [it]"] Cons.prems show ?case by simp
qed simp

text \<open>The value that \<open>makeAllLocations\<close> writes.\<close>

definition all_locations_value :: "jsonlib \<Rightarrow> (string, DPoint) smap \<Rightarrow> json outcome" where
  "all_locations_value J locs =
     ebind (set_all J nullValue [(''msg_type'', stringValue ''all_locations'')]) (\<lambda>res.
     ebind (fold_outcome (location_step J) locs (nullValue, res)) (\<lambda>(_, res). Inr res))"

lemma all_locations_written:
  assumes J: "json_doc J" and locs: "map_ok locs" "locs \<noteq> []"
  obtains v m where "all_locations_value J locs = Inr v" and "is_object v m"
    and "makeAllLocations J og locs = Inr (emit_json J og v)"
    and "ParseJsonMessageBase J v = Inr \<lparr>msg_type = ''all_locations''\<rparr>"
    and "\<And>c i. has_message c i v \<lparr>msg_type = ''all_locations''\<rparr> \<Longrightarrow>
      parseAllLocations J c i = Inr \<lparr>msg_type = ''all_locations'', agentLocations = locs\<rparr>"
proof -
  obtain r where r: "set_all J nullValue [(''msg_type'', stringValue ''all_locations'')] = Inr r"
      "is_object r [''msg_type'' \<mapsto> stringValue ''all_locations'']"
    using set_all_null [OF J, of "[(''msg_type'', stringValue ''all_locations'')]"] by auto
  have k: "[''msg_type'' \<mapsto> stringValue ''all_locations''] ''locations'' =
      (if ([] :: json list) = [] then None else Some (arrayValue []))" by simp
  obtain sa v us where loop: "fold_outcome (location_step J) locs (nullValue, r) = Inr (sa, v)"
      "list_all2 (\<lambda>it u. is_object u (location_members it)) locs us"
      "is_object v (if locs = [] then [''msg_type'' \<mapsto> stringValue ''all_locations'']
         else [''msg_type'' \<mapsto> stringValue ''all_locations'', ''locations'' \<mapsto> arrayValue ([] @ us)])"
    using locations_object [OF J _ _ r(2) k, of nullValue Map.empty locs] by auto
  then have v: "is_object v [''msg_type'' \<mapsto> stringValue ''all_locations'', ''locations'' \<mapsto> arrayValue us]"
    using locs(2) by simp
  note mem = is_object_members [OF v]
  have "makeAllLocations J og locs = Inr (emit_json J og v)"
    using r(1) loop(1) by (simp add: makeAllLocations_def PREFER_BINARY_MESSAGES_def)
  moreover have "ParseJsonMessageBase J v = Inr \<lparr>msg_type = ''all_locations''\<rparr>"
    using J v by (rule json_type) simp
  moreover have "parseAllLocations J c i = Inr \<lparr>msg_type = ''all_locations'', agentLocations = locs\<rparr>"
    if "has_message c i v \<lparr>msg_type = ''all_locations''\<rparr>" for c i
    using that is_object_not_null [OF v] parse_locations [OF J loop(2), of "[]"] locs(1)
    by (simp add: has_message_def parseAllLocations_def parse_base_def json_isMember [OF J mem] json_get [OF J mem] json_elements [OF J] isArray_def
        MessageBase.extend_def AllLocationsMessage.fields_def)
  moreover have "all_locations_value J locs = Inr v" using r(1) loop(1) by (simp add: all_locations_value_def)
  ultimately show thesis using that v by blast
qed

text \<open>
  What \<open>makeAllLocations\<close> writes for a non-empty map of locations, \<open>parseAllLocations\<close> reads
  back as the same map.
\<close>

theorem all_locations_round_trip:
  assumes J: "json_doc J" and locs: "map_ok locs" "locs \<noteq> []"
  shows "\<exists>v. makeAllLocations J og locs = Inr (emit_json J og v) \<and>
    ParseJsonMessageBase J v = Inr \<lparr>msg_type = ''all_locations''\<rparr> \<and>
    parseAllLocations J (single v ''all_locations'') 0 = Inr \<lparr>msg_type = ''all_locations'', agentLocations = locs\<rparr>"
proof -
  obtain v where v: "makeAllLocations J og locs = Inr (emit_json J og v)"
      "ParseJsonMessageBase J v = Inr \<lparr>msg_type = ''all_locations''\<rparr>"
    and parse: "\<And>c i. has_message c i v \<lparr>msg_type = ''all_locations''\<rparr> \<Longrightarrow>
      parseAllLocations J c i = Inr \<lparr>msg_type = ''all_locations'', agentLocations = locs\<rparr>"
    using all_locations_written [OF assms] by metis
  have "has_message (single v ''all_locations'') 0 v \<lparr>msg_type = ''all_locations''\<rparr>"
    by (simp add: has_message_def single_def getJsonMessage_def getBaseMessage_def vec_at_def new_MessageConglomerate_def)
  with v parse show ?thesis by blast
qed

theorem all_locations_round_trip_witness:
  "\<exists>v. makeAllLocations demo_lib new_OngoingSerialization [(''a'', \<lparr>dp_x = 1, dp_y = 2\<rparr>), (''b'', \<lparr>dp_x = 3, dp_y = 4\<rparr>)]
      = Inr (emit_json demo_lib new_OngoingSerialization v) \<and>
    ParseJsonMessageBase demo_lib v = Inr \<lparr>msg_type = ''all_locations''\<rparr> \<and>
    parseAllLocations demo_lib (single v ''all_locations'') 0 = Inr \<lparr>msg_type = ''all_locations'',
      agentLocations = [(''a'', \<lparr>dp_x = 1, dp_y = 2\<rparr>), (''b'', \<lparr>dp_x = 3, dp_y = 4\<rparr>)]\<rparr>"
  by (rule all_locations_round_trip [OF demo_lib_doc]) (simp_all add: map_ok_def)

end
