(* ===== verification/Serialize_Bounds.thy ===== *)
theory Serialize_Bounds
  imports Serialize_Props
begin

text \<open>
  Where \<open>JsonParser::deserialize_v1\<close> (model/message/serialize.cc) reads the text of a bundle.
  Nothing compares what the fixed header announces with the length of the text before the
  identifiers and the message lengths are read from it. \<open>read_fields_bounds\<close> says how far a
  sequence of fields may reach; \<open>add_messages_defined\<close>, that the messages themselves are
  checked, as long as the sizes stay away from the range of \<open>int\<close>.
\<close>

section \<open>Reading fields\<close>

lemma read_fields_bounds:
  assumes "\<And>i. 0 \<le> i \<Longrightarrow> in_int (i + w) \<Longrightarrow>
      if i + w \<le> int (length s) + 1 then \<exists>x. rd s i = Inr x \<and> P x else rd s i = Inl Undefined"
    and "0 < w" and "0 \<le> i" and "i + w * int n < 2147483648" and "i \<le> int (length s) + 1"
  shows "if i + w * int n \<le> int (length s) + 1
    then \<exists>xs. read_fields rd w n s i = Inr (xs, i + w * int n) \<and> length xs = n \<and> (\<forall>x \<in> set xs. P x)
    else read_fields rd w n s i = Inl Undefined"
  using assms(3-5)
proof (induction n arbitrary: i)
  case (Suc n)
  have split: "i + w * int (Suc n) = (i + w) + w * int n" by (simp add: algebra_simps)
  have "0 \<le> w * int n" using assms(2) by simp
  then have fits: "in_int (i + w)" "i + w \<le> i + w * int (Suc n)"
    using Suc.prems(1,2) assms(2) unfolding split in_int_def by linarith+
  show ?case
  proof (cases "i + w \<le> int (length s) + 1")
    case True
    then obtain x where x: "rd s i = Inr x" "P x" using assms(1) [OF Suc.prems(1) fits(1)] by auto
    have add: "int_add i w = Inr (i + w)" using fits(1) by (simp add: int_add_Inr)
    note IH = Suc.IH [of "i + w"]
    show ?thesis
    proof (cases "(i + w) + w * int n \<le> int (length s) + 1")
      case le: True
      then obtain xs where "read_fields rd w n s (i + w) = Inr (xs, (i + w) + w * int n)" "length xs = n" "\<forall>x \<in> set xs. P x"
        using IH Suc.prems assms(2) True unfolding split by auto
      with x add le show ?thesis unfolding split by simp
    next
      case False
      then have "read_fields rd w n s (i + w) = Inl Undefined"
        using IH Suc.prems assms(2) True unfolding split by auto
      with x add False show ?thesis unfolding split by simp
    qed
  next
    case False
    then show ?thesis using assms(1) [OF Suc.prems(1) fits(1)] fits(2) by auto
  qed
qed simp

lemma str_index_bounds:
  "0 \<le> i \<Longrightarrow> if i + 1 \<le> int (length s) + 1 then \<exists>c. str_index s i = Inr c \<and> True else str_index s i = Inl Undefined"
  by (auto simp: str_index_def)

text \<open>Three bytes make a number below \<open>2 ^ 24\<close>.\<close>

lemma three_bytes: "unat (push_bit 16 (of_nat (byte a)) OR push_bit 8 (of_nat (byte b)) OR of_nat (byte c) :: uint) < 2 ^ 24"
  (is "unat ?w < _")
proof -
  have byte: "take_bit n (of_nat (byte x) :: uint) = of_nat (byte x)" if "8 \<le> n" for n x
  proof -
    have "(256 :: nat) \<le> 2 ^ n" using power_increasing [OF that, of "2 :: nat"] by simp
    with byte_less [of x] have "byte x < 2 ^ n" by (rule less_le_trans)
    then show ?thesis by (simp add: take_bit_of_nat take_bit_nat_eq_self)
  qed
  have join: "take_bit 24 (push_bit 16 x OR push_bit 8 y OR z) = push_bit 16 x OR push_bit 8 y OR z"
    if "take_bit 8 x = x" "take_bit 16 y = y" "take_bit 24 z = z" for x y z :: uint
    using that by (simp add: take_bit_push_bit)
  have "take_bit 24 ?w = ?w" by (rule join [OF byte byte byte]) simp_all
  moreover have "unat (take_bit 24 ?w) < 2 ^ 24"
    by (simp only: unsigned_take_bit_eq take_bit_nat_less_exp)
  ultimately show ?thesis by (rule subst)
qed

lemma read_length_bounds:
  assumes "0 \<le> i" and "in_int (i + 3)"
  shows "if i + 3 \<le> int (length s) + 1 then \<exists>l. read_length_field s i = Inr l \<and> unat l < 2 ^ 24
    else read_length_field s i = Inl Undefined"
proof -
  have add: "int_add i 1 = Inr (i + 1)" "int_add i 2 = Inr (i + 2)"
    using assms by (simp_all add: int_add_Inr in_int_def)
  show ?thesis
  proof (cases "i + 3 \<le> int (length s) + 1")
    case True
    then obtain a b c where "str_index s i = Inr a" "str_index s (i + 1) = Inr b" "str_index s (i + 2) = Inr c"
      using str_index_bounds [of i s] str_index_bounds [of "i + 1" s] str_index_bounds [of "i + 2" s] assms(1) by auto
    with add True three_bytes [of a b c] show ?thesis by (simp add: read_length_field_def)
  next
    case False
    have "str_index s (i + 2) = Inl Undefined" using False assms(1) by (simp add: str_index_def)
    then show ?thesis using add False assms(1) by (auto simp: read_length_field_def str_index_def)
  qed
qed

section \<open>Adding the messages\<close>

text \<open>A library whose accessors throw, but never more than that, on a value of the wrong kind.\<close>

definition json_checked :: "jsonlib \<Rightarrow> bool" where
  "json_checked J \<longleftrightarrow> (\<forall>v. ParseJsonMessageBase J v \<noteq> Inl Undefined)"

lemma demo_json_checked: "json_checked (demo_json p)"
  by (auto simp: json_checked_def ParseJsonMessageBase_def get_string_def outcome_simps demo_json_def throw_def
      split: option.splits json.splits if_splits)

lemma addMessage_defined:
  assumes J: "json_checked J" and s: "length s < 2 ^ 30" and i: "0 \<le> i" "i < 2 ^ 30 + 1" and l: "0 \<le> l" "l < 2 ^ 24"
    and whole: "(if msgStr \<noteq> [] then msgStr else messages_v1 c) = s"
  shows "addMessage_v1 J i l msgStr c \<noteq> Inl Undefined"
proof -
  have "in_int (i + l)" using i l by (simp add: in_int_def)
  moreover have "in_int (int (length s))" using s by (simp add: in_int_def)
  moreover have "str_index s i \<noteq> Inl Undefined" if "i + l \<le> int (length s)"
    using that i l by (auto simp: str_index_def)
  ultimately show ?thesis
    using J i l unfolding addMessage_v1_def whole
    by (auto simp: Let_def past_end_def int_add_def outcome_simps to_int_id json_checked_def throw_def
        split: if_splits option.splits)
qed

lemma add_messages_defined:
  assumes J: "json_checked J" and s: "length s < 2 ^ 30"
    and "\<forall>l \<in> set ls. unat l < 2 ^ 24" and "0 \<le> i" and "i < 2 ^ 30 + 1"
    and "if first then messages_v1 c = [] else messages_v1 c = s"
  shows "add_messages J s first ls i c \<noteq> Inl Undefined"
  using assms(3-)
proof (induction ls arbitrary: first i c)
  case (Cons l ls)
  let ?l = "to_int (int (unat l))" and ?msg = "if first then s else []"
  have "unat l < 16777216" using Cons.prems(1) by simp
  then have l: "int (unat l) < 16777216" by linarith
  then have "in_int (int (unat l))" unfolding in_int_def by linarith
  then have eq: "?l = int (unat l)" by (rule to_int_id)
  then have l: "0 \<le> ?l" "?l < 2 ^ 24" using l unfolding eq by simp_all
  have whole: "(if ?msg \<noteq> [] then ?msg else messages_v1 c) = s" using Cons.prems(4) by (auto split: if_splits)
  show ?case
  proof (cases "addMessage_v1 J i ?l ?msg c")
    case (Inl e)
    then show ?thesis using addMessage_defined [OF J s Cons.prems(2,3) l whole] by auto
  next
    case (Inr d)
    then have d: "messages_v1 d = s" "i + ?l \<le> to_int (int (length s))"
      using whole Cons.prems(4) by (auto elim!: addMessage_v1_Inr split: if_splits)
    have si: "int (length s) < 1073741824" using s by simp
    from d(2) have next_i: "i + ?l \<le> int (length s)" using s by (simp add: to_int_id in_int_def)
    have "in_int (i + int (unat l))"
      using Cons.prems(2) l next_i si unfolding eq in_int_def by (intro conjI; linarith)
    then have "to_int (i + int (unat l)) = i + int (unat l)" by (rule to_int_id)
    moreover have "add_messages J s False ls (i + int (unat l)) d \<noteq> Inl Undefined"
      using Cons.prems next_i l d s unfolding eq by (intro Cons.IH) simp_all
    ultimately show ?thesis using Inr by (simp add: outcome_simps)
  qed
qed simp

section \<open>The bounds\<close>

lemma header_range:
  assumes "read_bundle_header hdr = Inr h"
  shows "header_fits h"
  using assms
  by (auto simp: read_bundle_header_def NEW_BUNDLES_def read_bundle_header_v1_def outcome_simps header_fits_def byte_simps
      split: if_splits)

lemma deserialize_defined:
  assumes J: "json_checked J" and s: "length s < 2 ^ 30" and h: "header_fits h"
  shows "deserialize J h s new_MessageConglomerate = Inl Undefined \<longleftrightarrow>
    int (length s) + 1 < sendIdLen h + destIdLen h + 3 * messageCount h"
proof -
  let ?n = "sendIdLen h" and ?d = "destIdLen h" and ?m = "messageCount h" and ?lim = "int (length s) + 1"
  have range: "0 \<le> ?n" "?n < 256" "0 \<le> ?d" "?d < 256" "0 \<le> ?m" "?m < 256"
    using h by (simp_all add: header_fits_def)
  note char = read_fields_bounds [where rd = str_index and w = 1 and s = s and P = "\<lambda>_. True", OF str_index_bounds]
  note field = read_fields_bounds [where rd = read_length_field and w = 3 and s = s and P = "\<lambda>l. unat l < 2 ^ 24", OF read_length_bounds]
  show ?thesis
  proof (cases "?n \<le> ?lim")
    case False
    then have "read_fields str_index 1 (nat ?n) s 0 = Inl Undefined"
      using char [of 0 "nat ?n"] range by simp
    then show ?thesis using False range by (simp add: deserialize_def NEW_BUNDLES_def deserialize_v1_def)
  next
    case n: True
    then obtain sid where sid: "read_fields str_index 1 (nat ?n) s 0 = Inr (sid, ?n)"
      using char [of 0 "nat ?n"] range by auto
    show ?thesis
    proof (cases "?n + ?d \<le> ?lim")
      case False
      then have "read_fields str_index 1 (nat ?d) s ?n = Inl Undefined"
        using char [of ?n "nat ?d"] range n by simp
      then show ?thesis using False range sid by (simp add: deserialize_def NEW_BUNDLES_def deserialize_v1_def Let_def)
    next
      case d: True
      then obtain did where did: "read_fields str_index 1 (nat ?d) s ?n = Inr (did, ?n + ?d)"
        using char [of ?n "nat ?d"] range n by auto
      show ?thesis
      proof (cases "?n + ?d + 3 * ?m \<le> ?lim")
        case False
        then have "read_fields read_length_field 3 (nat ?m) s (?n + ?d) = Inl Undefined"
          using field [of "?n + ?d" "nat ?m"] range d by simp
        then show ?thesis using False sid did by (simp add: deserialize_def NEW_BUNDLES_def deserialize_v1_def Let_def)
      next
        case m: True
        then obtain lens where lens: "read_fields read_length_field 3 (nat ?m) s (?n + ?d) = Inr (lens, ?n + ?d + 3 * ?m)"
            "\<forall>l \<in> set lens. unat l < 2 ^ 24"
          using field [of "?n + ?d" "nat ?m"] range d by auto
        have "add_messages J s True lens (?n + ?d + 3 * ?m) (setSenderId sid new_MessageConglomerate) \<noteq> Inl Undefined"
          using m s range by (intro add_messages_defined [OF J s lens(2)]) (simp_all add: setSenderId_def new_MessageConglomerate_def)
        then show ?thesis using m sid did lens(1)
          by (simp add: deserialize_def NEW_BUNDLES_def deserialize_v1_def Let_def outcome_simps)
      qed
    qed
  qed
qed

text \<open>
  C10: how far a received bundle may reach. Whatever header and whatever text arrive, the
  deserialization reads outside of the text exactly if the header announces identifiers and
  message lengths that take more than the text and its terminating null: nothing checks the
  announcement. In all other cases it returns or throws; the messages themselves are checked.
\<close>

theorem short_bundle_overruns:
  assumes "read_bundle_header hdr = Inr h" and "length s < 2 ^ 30" and "json_checked J"
  shows "deserialize J h s new_MessageConglomerate = Inl Undefined \<longleftrightarrow>
    int (length s) + 1 < sendIdLen h + destIdLen h + 3 * messageCount h"
  using assms by (intro deserialize_defined) (simp_all add: header_range)

text \<open>Eight bytes from the network are enough: one message is announced, and no text.\<close>

theorem short_bundle_overruns_witness:
  "\<exists>h. read_bundle_header (map uchar [1, 0, 0, 1, 0, 0, 0, 0]) = Inr h \<and> remLen h = 0 \<and>
     deserialize demo_lib h [] new_MessageConglomerate = Inl Undefined"
proof -
  let ?h = "\<lparr>sendIdLen = 0, destIdLen = 0, messageCount = 1, remLen = 0\<rparr> :: BundleHeader"
  have h: "read_bundle_header (map uchar [1, 0, 0, 1, 0, 0, 0, 0]) = Inr ?h"
    by (simp add: read_bundle_header_def NEW_BUNDLES_def read_v1_bytes byte_simps)
  have "json_checked demo_lib" by (simp add: demo_lib_def demo_json_checked)
  from short_bundle_overruns [OF h _ this, of "[]"] h show ?thesis by simp
qed

end
