(* ===== verification/Environment.thy ===== *)
theory Environment
  imports Serialize
begin

text \<open>
  The libraries around the program: boost::asio for the network, ns-3 for the simulated
  one, and JsonCpp. The program's calls that change their state are the constructors of
  \<open>event\<close>; the list of all calls so far is the \<open>history\<close>, oldest first. What a call returns
  is a function of the history that ends in it (\<open>env\<close>), so an environment is any
  behaviour of the libraries. A theorem holds for every environment, or names the
  documented laws it needs.

  A null \<open>ns3::Ptr\<close> is None; a handle to a library object is a number.
\<close>

type_synonym node = nat
type_synonym device = nat
type_synonym iface = nat
type_synonym address = nat
type_synonym socket = nat
type_synonym packet = string
type_synonym channel = nat

text \<open>
  The configurable helper objects of ns-3 that the program fills in before it installs or
  creates something with them. A field is None or empty until the program has set it; what a
  default-constructed helper does about it is the library's matter, so the helpers that
  \<open>Default()\<close> makes are told apart only where both kinds are used.
\<close>

datatype attribute_value = DoubleValue double | StringValue string

type_synonym attributes = "(string \<times> attribute_value) list"

record channel_helper =
  ch_default :: bool
  ch_delay :: "string option"
  ch_losses :: "(string \<times> attributes) list"

record phy_helper =
  ph_attributes :: attributes
  ph_pcap :: "string option"
  ph_channel :: "channel option"

record mac_helper =
  mh_type :: "string option"

record wifi_helper =
  wh_standard :: "string option"
  wh_manager :: "(string \<times> attributes) option"

definition new_channel_helper :: channel_helper where
  "new_channel_helper = \<lparr>ch_default = False, ch_delay = None, ch_losses = []\<rparr>"

definition default_channel_helper :: channel_helper where
  "default_channel_helper = \<lparr>ch_default = True, ch_delay = None, ch_losses = []\<rparr>"

definition default_phy_helper :: phy_helper where
  "default_phy_helper = \<lparr>ph_attributes = [], ph_pcap = None, ph_channel = None\<rparr>"

definition default_mac_helper :: mac_helper where
  "default_mac_helper = \<lparr>mh_type = None\<rparr>"

definition default_wifi_helper :: wifi_helper where
  "default_wifi_helper = \<lparr>wh_standard = None, wh_manager = None\<rparr>"

datatype event =
    \<comment> \<open>boost::asio\<close>
    NetResolve string string
  | NetConnect nat
  | NetClose
  | NetWrite string
  | NetRead nat
  | NetAsyncRead nat
    \<comment> \<open>ns-3: nodes, devices, protocol stacks\<close>
  | CreateNode
  | CreateNodes nat
  | ChannelCreate channel_helper
  | WifiInstall wifi_helper phy_helper mac_helper "node list"
  | WaveInstall wifi_helper phy_helper mac_helper "node list"
  | StationInstall channel string "node list"
  | ApInstall channel string node
  | MobilityInstall "node list"
  | InternetInstall "node list"
  | AddressBase string string
  | AddressBaseFrom string string string
  | AddressAssign "device list"
  | NewNetwork
  | ConfigDefault string string
    \<comment> \<open>ns-3: sockets and objects\<close>
  | SocketCreate "node option"
  | SocketRecvCallback socket nat
  | SocketBind socket "address \<times> int"
  | SocketConnect socket "address \<times> int"
  | SocketSend socket packet
  | SocketRecv socket
  | Dispose nat
  | PositionSet node "double \<times> double \<times> double"
    \<comment> \<open>ns-3: the simulator\<close>
  | Schedule nat
  | SimulatorStop
  | SimulatorDestroy
    \<comment> \<open>the operating system: time, threads, the trace file, the profiler's log file\<close>
  | Sleep nat
  | ThreadStart
  | ServiceStop
  | ThreadJoin
  | ClockGet
  | CpuClock
  | TraceOpen string
  | LogOpen string
  | LogWrite string     \<comment> \<open>on a file that is open\<close>
  | LogLost string      \<comment> \<open>on a stream without a file: nothing is written\<close>
  | LogFlush
  | LogClose

type_synonym history = "event list"

record env =
  lib :: jsonlib
  net_resolve :: "history \<Rightarrow> nat option"       \<comment> \<open>the first endpoint; None: the error code is set\<close>
  net_connect :: "history \<Rightarrow> bool"             \<comment> \<open>no error\<close>
  net_is_open :: "history \<Rightarrow> bool"
  net_write :: "history \<Rightarrow> bool"               \<comment> \<open>False: \<open>system_error\<close> is thrown\<close>
  net_read :: "history \<Rightarrow> string option"       \<comment> \<open>None: the error code is set\<close>
  ns_new_node :: "history \<Rightarrow> node"
  ns_new_nodes :: "history \<Rightarrow> node list"
  ns_new_channel :: "history \<Rightarrow> channel"
  ns_devices :: "history \<Rightarrow> device list"
  ns_interfaces :: "history \<Rightarrow> iface list"
  ns_address :: "iface \<Rightarrow> address"
  ns_broadcast :: "device \<Rightarrow> address"
  ns_has_mobility :: "history \<Rightarrow> node \<Rightarrow> bool"
  ns_position :: "history \<Rightarrow> node \<Rightarrow> double \<times> double \<times> double"
  ns_new_socket :: "history \<Rightarrow> socket option"
  ns_bind :: "history \<Rightarrow> int"
  ns_send :: "history \<Rightarrow> int"
  ns_recv :: "history \<Rightarrow> packet list"          \<comment> \<open>what \<open>Recv\<close> returns until the null packet\<close>
  os_clock :: "history \<Rightarrow> (int \<times> int) option"  \<comment> \<open>\<open>clock_gettime\<close>: seconds and nanoseconds; None: an error\<close>
  os_cpu :: "history \<Rightarrow> int"                    \<comment> \<open>\<open>clock()\<close>\<close>
  os_trace :: "history \<Rightarrow> string list option"  \<comment> \<open>the lines of the file; None: it is not open\<close>
  log_fail :: "history \<Rightarrow> bool"                \<comment> \<open>\<open>LogFile.fail()\<close>\<close>
  log_ready :: "history \<Rightarrow> bool"               \<comment> \<open>\<open>LogFile.is_open() && LogFile.good()\<close>\<close>

text \<open>The state every component's state extends: the history alone.\<close>

record base_world =
  history :: history

definition call :: "event \<Rightarrow> 'z base_world_scheme \<Rightarrow> 'z base_world_scheme" where
  "call e w = w\<lparr>history := history w @ [e]\<rparr>"

lemma history_call [simp]: "history (call e w) = history w @ [e]"
  by (simp add: call_def)

text \<open>The byte strings written to the network so far.\<close>

fun written :: "history \<Rightarrow> string list" where
  "written [] = []"
| "written (NetWrite s # h) = s # written h"
| "written (_ # h) = written h"

text \<open>The text written to the log file so far.\<close>

fun log_text :: "history \<Rightarrow> string" where
  "log_text [] = []"
| "log_text (LogWrite s # h) = s @ log_text h"
| "log_text (_ # h) = log_text h"

lemma log_text_append [simp]: "log_text (h @ h') = log_text h @ log_text h'"
  by (induction h rule: log_text.induct) simp_all

text \<open>The calls that may change whether the socket is open.\<close>

fun links :: "history \<Rightarrow> event list" where
  "links [] = []"
| "links (NetConnect n # h) = NetConnect n # links h"
| "links (NetClose # h) = NetClose # links h"
| "links (_ # h) = links h"

lemma links_append [simp]: "links (h @ h') = links h @ links h'"
  by (induction h rule: links.induct) simp_all

text \<open>
  The calls that neither the agents nor their handlers make: those that may change whether the
  socket is open, those that steer the simulator, and those that open and close the log file.
\<close>

fun is_outer :: "event \<Rightarrow> bool" where
  "is_outer (NetConnect _) = True"
| "is_outer NetClose = True"
| "is_outer (Schedule _) = True"
| "is_outer SimulatorStop = True"
| "is_outer (LogOpen _) = True"
| "is_outer LogClose = True"
| "is_outer _ = False"

definition outer :: "history \<Rightarrow> event list" where
  "outer h = filter is_outer h"

lemma outer_simps [simp]: "outer [] = []" "outer (e # h) = (if is_outer e then e # outer h else outer h)"
    "outer (h @ h') = outer h @ outer h'"
  by (simp_all add: outer_def)

lemma in_outer: "is_outer e \<Longrightarrow> e \<in> set (outer h) \<longleftrightarrow> e \<in> set h"
  by (simp add: outer_def)

lemma links_outer: "links (outer h) = links h"
  by (induction h rule: links.induct) simp_all

text \<open>
  The documented laws of the libraries that some theorems name: a read that reports no
  error fills its buffer exactly, a socket is not open after a close, and only connecting and
  closing change whether it is.
\<close>

definition reads_exactly :: "env \<Rightarrow> bool" where
  "reads_exactly E \<longleftrightarrow> (\<forall>h n s. net_read E (h @ [NetRead n]) = Some s \<longrightarrow> length s = n)"

definition closed_after_close :: "env \<Rightarrow> bool" where
  "closed_after_close E \<longleftrightarrow> (\<forall>h. \<not> net_is_open E (h @ [NetClose]))"

definition open_by_links :: "env \<Rightarrow> bool" where
  "open_by_links E \<longleftrightarrow> (\<forall>h h'. links h = links h' \<longrightarrow> net_is_open E h = net_is_open E h')"

text \<open>
  What ns-3 documents: installing on nodes yields devices, assigning addresses to devices
  yields interfaces, a socket is created on a node that is there, and a node has a mobility
  model once one is installed on it. \<open>ns3_one_each\<close> is the same with the numbers: as many
  nodes as asked for, a device for every node, an interface for every device.
\<close>

definition ns3_one_each :: "env \<Rightarrow> bool" where
  "ns3_one_each E \<longleftrightarrow>
     (\<forall>h n. length (ns_new_nodes E (h @ [CreateNodes n])) = n) \<and>
     (\<forall>h wf ph mc ns. length (ns_devices E (h @ [WifiInstall wf ph mc ns])) = length ns) \<and>
     (\<forall>h wf ph mc ns. length (ns_devices E (h @ [WaveInstall wf ph mc ns])) = length ns) \<and>
     (\<forall>h ds. length (ns_interfaces E (h @ [AddressAssign ds])) = length ds)"

definition ns3_laws :: "env \<Rightarrow> bool" where
  "ns3_laws E \<longleftrightarrow>
     (\<forall>h wf ph mc ns. ns \<noteq> [] \<longrightarrow> ns_devices E (h @ [WifiInstall wf ph mc ns]) \<noteq> []) \<and>
     (\<forall>h ds. ds \<noteq> [] \<longrightarrow> ns_interfaces E (h @ [AddressAssign ds]) \<noteq> []) \<and>
     (\<forall>h n. ns_new_socket E (h @ [SocketCreate (Some n)]) \<noteq> None) \<and>
     (\<forall>h n. ns_has_mobility E h n \<longleftrightarrow> (\<exists>ns. MobilityInstall ns \<in> set h \<and> n \<in> set ns))"

text \<open>An instance: handles count up with the history, and the network delivers a stream.\<close>

definition demo_env :: "jsonlib \<Rightarrow> (history \<Rightarrow> string option) \<Rightarrow> (history \<Rightarrow> bool) \<Rightarrow> env" where
  "demo_env J rd up = \<lparr>
     lib = J,
     net_resolve = (\<lambda>h. Some 0), net_connect = (\<lambda>h. True), net_is_open = up,
     net_write = (\<lambda>h. True), net_read = rd,
     ns_new_node = (\<lambda>h. length h),
     ns_new_nodes = (\<lambda>h. case last h of CreateNodes n \<Rightarrow> [length h..<length h + n] | _ \<Rightarrow> []),
     ns_new_channel = (\<lambda>h. length h),
     ns_devices = (\<lambda>h. case last h of WifiInstall _ _ _ ns \<Rightarrow> ns | WaveInstall _ _ _ ns \<Rightarrow> ns | _ \<Rightarrow> [length h]),
     ns_interfaces = (\<lambda>h. case last h of AddressAssign ds \<Rightarrow> ds | _ \<Rightarrow> []), ns_address = (\<lambda>i. i),
     ns_broadcast = (\<lambda>d. d),
     ns_has_mobility = (\<lambda>h n. list_ex (\<lambda>e. case e of MobilityInstall ns \<Rightarrow> n \<in> set ns | _ \<Rightarrow> False) h),
     ns_position = (\<lambda>h n. (0, 0, 0)),
     ns_new_socket = (\<lambda>h. Some (length h)), ns_bind = (\<lambda>h. 0), ns_send = (\<lambda>h. 0), ns_recv = (\<lambda>h. []),
     os_clock = (\<lambda>h. Some (int (length h), 0)), os_cpu = (\<lambda>h. 0), os_trace = (\<lambda>h. Some []), log_fail = (\<lambda>h. False),
     log_ready = foldl (\<lambda>up e. case e of LogOpen _ \<Rightarrow> True | LogClose \<Rightarrow> False | _ \<Rightarrow> up) False\<rparr>"

lemma demo_env_laws: "ns3_laws (demo_env J rd up)"
proof -
  have "list_ex (\<lambda>e. case e of MobilityInstall ns \<Rightarrow> n \<in> set ns | _ \<Rightarrow> False) h \<longleftrightarrow>
      (\<exists>ns. MobilityInstall ns \<in> set h \<and> n \<in> set ns)" for h n
    by (induction h) (auto split: event.splits)
  then show ?thesis by (simp add: ns3_laws_def demo_env_def)
qed

lemma demo_env_one_each: "ns3_one_each (demo_env J rd up)"
  by (simp add: ns3_one_each_def demo_env_def)

end
