(* ===== verification/Network.thy ===== *)
theory Network
  imports Environment
begin

text \<open>
  \<open>Session\<close> (model/network/smb_session.h and .cc) frames bundles on a socket: an 8-byte
  header that tells the length of the text that follows. \<open>Connection\<close>
  (model/network/smb_connection.h and .cc) owns the session, the buffers of the
  asynchronous read and its handler. The broker's virtual \<open>onMessageReceived\<close> is an
  argument of the handler; the broker supplies it in Broker.

  The locale \<open>transport\<close> is what the parts above rely on: every bundle that is sent is
  framed and appended to the bytes on the wire, and those bytes have one reading.
\<close>

section \<open>State\<close>

record Session =
  outbound_header :: string
  inbound_header :: string
  inbound_data :: string

definition new_Session :: Session where
  "new_Session = \<lparr>outbound_header = [], inbound_header = replicate header_length CHR 0x00, inbound_data = []\<rparr>"

record Connection =
  m_session :: "Session option"
  incomingHeader :: BundleHeader
  incomingMessage :: string
  simmob_host :: string
  simmob_port :: string

text \<open>
  Where the I/O thread is: in an asynchronous read, named after the handler that its completion
  calls, or, at an end of file, inside \<open>readHandler\<close>, which has closed the socket and has not yet
  called \<open>onMessageReceived\<close>.
\<close>

datatype async_op = ReadHeader | ReadData nat | AtEof

record net_world = base_world +
  conn :: Connection
  pending :: "async_op option"

text \<open>The error codes that the code tells apart.\<close>

datatype error_code = EndOfFile | InvalidArgument | OtherError

definition set_session :: "Session \<Rightarrow> 'z net_world_scheme \<Rightarrow> 'z net_world_scheme" where
  "set_session s w = w\<lparr>conn := (conn w)\<lparr>m_session := Some s\<rparr>\<rparr>"

text \<open>\<open>m_session->...\<close>\<close>

definition with_session :: "'z net_world_scheme \<Rightarrow> (Session \<Rightarrow> 'a outcome) \<Rightarrow> 'a outcome" where
  "with_session w f = (case m_session (conn w) of None \<Rightarrow> Inl Undefined | Some s \<Rightarrow> f s)"

section \<open>Session\<close>

definition session_connect :: "env \<Rightarrow> nat \<Rightarrow> 'z net_world_scheme \<Rightarrow> bool \<times> 'z net_world_scheme" where
  "session_connect E resolvIt w =
     (let w' = call (NetConnect resolvIt) w in (net_connect E (history w'), w'))"

definition session_isOpen :: "env \<Rightarrow> 'z net_world_scheme \<Rightarrow> bool" where
  "session_isOpen E w = net_is_open E (history w)"

definition closeSocket :: "'z net_world_scheme \<Rightarrow> 'z net_world_scheme" where
  "closeSocket w = call NetClose w"

text \<open>The gather-write throws on an error, and otherwise writes both buffers in full.\<close>

definition session_write ::
  "env \<Rightarrow> BundleHeader \<Rightarrow> string \<Rightarrow> Session \<Rightarrow> 'z net_world_scheme \<Rightarrow> (bool \<times> 'z net_world_scheme) outcome" where
  "session_write E header t s w =
     (let s' = s\<lparr>outbound_header := make_bundle_header header\<rparr>;
          w1 = set_session s' w in
      if outbound_header s' = [] then Inr (False, w1) else
      let w2 = call (NetWrite (outbound_header s' @ t)) w1 in
      if \<not> net_write E (history w2) then Inl SystemError
      else let res = to_int (int (length (outbound_header s' @ t))) in Inr (res \<noteq> 0, w2))"

definition resize :: "nat \<Rightarrow> string \<Rightarrow> string" where
  "resize n s = take n s @ replicate (n - length s) CHR 0x00"

text \<open>The result is the flag, the reference arguments \<open>h\<close> and \<open>t\<close>, and the state.\<close>

definition session_read ::
  "env \<Rightarrow> BundleHeader \<Rightarrow> string \<Rightarrow> Session \<Rightarrow> 'z net_world_scheme \<Rightarrow>
     (bool \<times> BundleHeader \<times> string \<times> 'z net_world_scheme) outcome" where
  "session_read E h t s w =
     (let w1 = call (NetRead header_length) w in
      case net_read E (history w1) of
        None \<Rightarrow> Inr (False, h, t, w1)
      | Some bs \<Rightarrow>
          let s1 = s\<lparr>inbound_header := bs\<rparr> in
          ebind (read_bundle_header (take header_length (inbound_header s1))) (\<lambda>h'.
          if remLen h' = 0 then Inr (False, h', t, set_session s1 w1) else
          let s2 = s1\<lparr>inbound_data := resize (unat (remLen h')) (inbound_data s1)\<rparr>;
              w2 = call (NetRead (unat (remLen h'))) (set_session s2 w1) in
          case net_read E (history w2) of
            None \<Rightarrow> Inr (False, h', t, w2)
          | Some bs' \<Rightarrow>
              let s3 = s2\<lparr>inbound_data := bs'\<rparr>;
                  t' = take (unat (remLen h')) (inbound_data s3) in
              Inr (t' \<noteq> [], h', t', set_session s3 w2)))"

text \<open>\<open>async_read\<close> names the first of its two handlers; asio fills the buffer and calls it.\<close>

definition async_read :: "'z net_world_scheme \<Rightarrow> 'z net_world_scheme" where
  "async_read w = (call (NetAsyncRead header_length) w)\<lparr>pending := Some ReadHeader\<rparr>"

definition handle_read_header ::
  "(error_code option \<Rightarrow> 'z net_world_scheme \<Rightarrow> 'z net_world_scheme outcome) \<Rightarrow>
     error_code option \<Rightarrow> 'z net_world_scheme \<Rightarrow> 'z net_world_scheme outcome" where
  "handle_read_header handler e w =
     (case e of
        Some _ \<Rightarrow> handler e w
      | None \<Rightarrow> with_session w (\<lambda>s.
          ebind (read_bundle_header (take header_length (inbound_header s))) (\<lambda>h.
          let w1 = w\<lparr>conn := (conn w)\<lparr>incomingHeader := h\<rparr>\<rparr> in
          if remLen h = 0 then handler (Some InvalidArgument) w1
          else
            let n = unat (remLen h);
                w2 = set_session (s\<lparr>inbound_data := resize n (inbound_data s)\<rparr>) w1 in
            Inr ((call (NetAsyncRead n) w2)\<lparr>pending := Some (ReadData n)\<rparr>))))"

definition handle_read_data ::
  "(error_code option \<Rightarrow> 'z net_world_scheme \<Rightarrow> 'z net_world_scheme outcome) \<Rightarrow>
     error_code option \<Rightarrow> 'z net_world_scheme \<Rightarrow> 'z net_world_scheme outcome" where
  "handle_read_data handler e w =
     (case e of
        Some _ \<Rightarrow> handler e w
      | None \<Rightarrow> with_session w (\<lambda>s.
          handler e (w\<lparr>conn := (conn w)\<lparr>incomingMessage := inbound_data s\<rparr>\<rparr>)))"

section \<open>Connection\<close>

definition new_Connection :: "bool \<Rightarrow> string \<Rightarrow> string \<Rightarrow> Connection outcome" where
  "new_Connection hasBroker host port =
     (if \<not> hasBroker then throw ''Null Broker in Connection.''
      else Inr \<lparr>m_session = None, incomingHeader = new_BundleHeader, incomingMessage = [],
                simmob_host = host, simmob_port = port\<rparr>)"

text \<open>
  The name is resolved twice; the error code of the second call is checked, the endpoint
  of the first one is used.
\<close>

definition connection_connect :: "env \<Rightarrow> 'z net_world_scheme \<Rightarrow> (bool \<times> 'z net_world_scheme) outcome" where
  "connection_connect E w =
     (let w0 = (case m_session (conn w) of None \<Rightarrow> set_session new_Session w | Some _ \<Rightarrow> w);
          query = NetResolve (simmob_host (conn w)) (simmob_port (conn w));
          w1 = call query w0; it = net_resolve E (history w1);
          w2 = call query w1 in
      if net_resolve E (history w2) = None then throw ''Couldn't resolve server.''
      else case it of None \<Rightarrow> Inl Undefined | Some ep \<Rightarrow> Inr (session_connect E ep w2))"

definition receive ::
  "env \<Rightarrow> BundleHeader \<Rightarrow> string \<Rightarrow> 'z net_world_scheme \<Rightarrow>
     (bool \<times> BundleHeader \<times> string \<times> 'z net_world_scheme) outcome" where
  "receive E header input w = with_session w (\<lambda>s. session_read E header input s w)"

definition isOpen :: "env \<Rightarrow> 'z net_world_scheme \<Rightarrow> bool outcome" where
  "isOpen E w = with_session w (\<lambda>_. Inr (session_isOpen E w))"

definition async_receive :: "env \<Rightarrow> 'z net_world_scheme \<Rightarrow> 'z net_world_scheme outcome" where
  "async_receive E w =
     ebind (isOpen E w) (\<lambda>up.
     if \<not> up then throw ''Connection is down, reading will Fail''
     else Inr (async_read (w\<lparr>conn := (conn w)\<lparr>incomingMessage := []\<rparr>\<rparr>)))"

definition readHandler ::
  "env \<Rightarrow> (BundleHeader \<Rightarrow> string \<Rightarrow> 'z net_world_scheme \<Rightarrow> 'z net_world_scheme outcome) \<Rightarrow>
     error_code option \<Rightarrow> 'z net_world_scheme \<Rightarrow> 'z net_world_scheme outcome" where
  "readHandler E onMessageReceived e w =
     (case e of
        Some ec \<Rightarrow>
          if ec = EndOfFile then
            let w1 = closeSocket w in
            ebind (onMessageReceived (incomingHeader (conn w1)) (incomingMessage (conn w1)) w1) (async_receive E)
          else Inr w
      | None \<Rightarrow>
          ebind (onMessageReceived (incomingHeader (conn w)) (incomingMessage (conn w)) w) (async_receive E))"

definition send :: "env \<Rightarrow> BundleHeader \<Rightarrow> string \<Rightarrow> 'z net_world_scheme \<Rightarrow> (bool \<times> 'z net_world_scheme) outcome" where
  "send E header str w = with_session w (\<lambda>s. session_write E header str s w)"

section \<open>What is sent\<close>

lemma written_append: "written (h @ h') = written h @ written h'"
  by (induction h rule: written.induct) simp_all

definition wire :: "'z net_world_scheme \<Rightarrow> string" where
  "wire w = concat (written (history w))"

lemma net_simps [simp]:
  "history (set_session s w) = history w" "m_session (conn (set_session s w)) = Some s"
  "pending (set_session s w) = pending w" "conn (call e w) = conn w" "pending (call e w) = pending w"
  "history (w\<lparr>conn := c\<rparr>) = history w" "history (w\<lparr>pending := p\<rparr>) = history w"
  by (simp_all add: set_session_def call_def)

lemma with_session_Inr: "with_session w f = Inr r \<longleftrightarrow> (\<exists>s. m_session (conn w) = Some s \<and> f s = Inr r)"
  by (auto simp: with_session_def split: option.splits)

lemma session_write_Inr:
  assumes "session_write E h t s w = Inr (ok, w')"
  shows "w' = call (NetWrite (make_bundle_header h @ t)) (set_session (s\<lparr>outbound_header := make_bundle_header h\<rparr>) w)"
    and "net_write E (history w @ [NetWrite (make_bundle_header h @ t)])"
    and "ok \<longleftrightarrow> to_int (int (header_length + length t)) \<noteq> 0"
proof -
  have ne: "make_bundle_header h \<noteq> []" and len: "length (make_bundle_header h) = header_length"
    by (simp_all add: make_bundle_header_in_use length_make_v1) (simp add: make_bundle_header_v1_def)
  show "w' = call (NetWrite (make_bundle_header h @ t)) (set_session (s\<lparr>outbound_header := make_bundle_header h\<rparr>) w)"
    and "net_write E (history w @ [NetWrite (make_bundle_header h @ t)])"
    and "ok \<longleftrightarrow> to_int (int (header_length + length t)) \<noteq> 0"
    using assms ne len by (auto simp: session_write_def Let_def split: if_splits)
qed

lemma send_Inr:
  assumes "send E h t w = Inr (ok, w')"
  obtains s where "m_session (conn w) = Some s"
    and "w' = call (NetWrite (make_bundle_header h @ t)) (set_session (s\<lparr>outbound_header := make_bundle_header h\<rparr>) w)"
    and "ok \<longleftrightarrow> to_int (int (header_length + length t)) \<noteq> 0"
proof -
  from assms obtain s where s: "m_session (conn w) = Some s" "session_write E h t s w = Inr (ok, w')"
    by (auto simp: send_def with_session_Inr)
  show thesis by (rule that [OF s(1)]) (rule session_write_Inr(1,3) [OF s(2)])+
qed

locale transport =
  fixes put :: "BundleHeader \<Rightarrow> string \<Rightarrow> 'w \<Rightarrow> (bool \<times> 'w) outcome"
    and on_wire :: "'w \<Rightarrow> string"
  assumes put_on_wire: "put h t w = Inr (ok, w') \<Longrightarrow> on_wire w' = on_wire w @ frame make_bundle_header_v1 h t"
begin

fun put_all :: "(BundleHeader \<times> string) list \<Rightarrow> 'w \<Rightarrow> 'w outcome" where
  "put_all [] w = Inr w"
| "put_all ((h, t) # bs) w = ebind (put h t w) (\<lambda>(_, w'). put_all bs w')"

lemma put_all_on_wire:
  "put_all bs w = Inr w' \<Longrightarrow> on_wire w' = on_wire w @ concat (map (\<lambda>(h, t). frame make_bundle_header_v1 h t) bs)"
proof (induction bs arbitrary: w)
  case (Cons b bs)
  then show ?case by (cases b) (auto simp: outcome_simps dest: put_on_wire)
qed simp

text \<open>The bytes on the wire determine the bundles that were sent.\<close>

lemma wire_determines_bundles:
  assumes "put_all bs w = Inr w'" and "put_all bs' v = Inr v'"
    and "on_wire w = on_wire v" and "on_wire w' = on_wire v'"
    and "\<forall>(h, t) \<in> set bs. header_fits h \<and> length t = unat (remLen h)"
    and "\<forall>(h, t) \<in> set bs'. header_fits h \<and> length t = unat (remLen h)"
  shows "bs = bs'"
  using v1.frames_unique [OF assms(5,6)] put_all_on_wire [OF assms(1)] put_all_on_wire [OF assms(2)] assms(3,4)
  by (simp add: header_length_def)

end

interpretation net: transport "send E" wire for E
  by unfold_locales (auto simp: wire_def written_append frame_def make_bundle_header_in_use elim!: send_Inr)

section \<open>What is received\<close>

fun consumed :: "history \<Rightarrow> nat" where
  "consumed [] = 0"
| "consumed (NetRead n # h) = n + consumed h"
| "consumed (_ # h) = consumed h"

lemma consumed_append: "consumed (h @ h') = consumed h + consumed h'"
  by (induction h rule: consumed.induct) simp_all

text \<open>The peer sends this stream of bytes, and then closes the connection.\<close>

definition delivers :: "env \<Rightarrow> string \<Rightarrow> bool" where
  "delivers E stream \<longleftrightarrow> (\<forall>h n. net_read E (h @ [NetRead n]) =
     (if consumed h + n \<le> length stream then Some (take n (drop (consumed h) stream)) else None))"

definition unread :: "string \<Rightarrow> 'z net_world_scheme \<Rightarrow> string" where
  "unread stream w = drop (consumed (history w)) stream"

lemma net_read_unread:
  assumes "delivers E stream" and "n \<le> length (unread stream w)" and "0 < n"
  shows "net_read E (history w @ [NetRead n]) = Some (take n (unread stream w))"
    and "unread stream (call (NetRead n) w) = drop n (unread stream w)"
  using assms by (auto simp: delivers_def unread_def consumed_append add.commute)

lemma net_read_short:
  assumes "delivers E stream" and "length (unread stream w) < n"
  shows "net_read E (history w @ [NetRead n]) = None"
  using assms by (auto simp: delivers_def unread_def)

lemma unread_cong: "history w = history w' \<Longrightarrow> unread stream w = unread stream w'"
  by (simp add: unread_def)

text \<open>Receiving takes one frame off the stream, and leaves the rest of it alone.\<close>

lemma receive_frame:
  assumes E: "delivers E stream" and s: "m_session (conn w) = Some s"
    and stream: "unread stream w = frame make_bundle_header h body @ rest"
    and h: "header_fits h" "length body = unat (remLen h)" "body \<noteq> []"
  shows "\<exists>s'. let w' = set_session s' (call (NetRead (length body)) (call (NetRead header_length) w)) in
    receive E h0 t0 w = Inr (True, h, body, w') \<and> unread stream w' = rest"
proof -
  let ?hb = "make_bundle_header h"
  have len: "length ?hb = header_length" by (simp add: make_bundle_header_in_use length_make_v1)
  have pos: "0 < header_length" by (simp add: header_length_def)
  let ?w1 = "call (NetRead header_length) w"
  have r1: "net_read E (history w @ [NetRead header_length]) = Some ?hb"
    "unread stream ?w1 = body @ rest"
    using net_read_unread [OF E _ pos, of w] len by (simp_all add: stream frame_def)
  have n: "remLen h \<noteq> 0" using h(2,3) by auto
  let ?s1 = "s\<lparr>inbound_header := ?hb\<rparr>"
  let ?s2 = "?s1\<lparr>inbound_data := resize (length body) (inbound_data s)\<rparr>"
  have u1: "unread stream (set_session ?s2 ?w1) = body @ rest"
    using r1(2) by (simp add: unread_def)
  have r2: "net_read E (history (set_session ?s2 ?w1) @ [NetRead (length body)]) = Some body"
    "unread stream (call (NetRead (length body)) (set_session ?s2 ?w1)) = rest"
    using net_read_unread [OF E, of "length body" "set_session ?s2 ?w1"] h(3) unfolding u1 by simp_all
  let ?w2 = "call (NetRead (length body)) (set_session ?s2 ?w1)"
  let ?s3 = "?s2\<lparr>inbound_data := body\<rparr>"
  have "receive E h0 t0 w = Inr (True, h, body, set_session ?s3 ?w2)"
    using s r1(1) r2(1) n h(3) header_over_wire [OF h(1)]
    by (simp add: receive_def with_session_def session_read_def Let_def len flip: h(2))
  moreover have "set_session ?s3 ?w2 = set_session ?s3 (call (NetRead (length body)) ?w1)"
    by (simp add: set_session_def call_def)
  moreover have "unread stream (set_session ?s3 (call (NetRead (length body)) ?w1)) = rest"
    using r2(2) by (simp add: unread_def)
  ultimately show ?thesis by (auto simp: Let_def)
qed

text \<open>A stream that ends inside a header is a failed read, not a bundle.\<close>

lemma receive_short:
  assumes "delivers E stream" and "m_session (conn w) = Some s" and "length (unread stream w) < header_length"
  shows "receive E h0 t0 w = Inr (False, h0, t0, call (NetRead header_length) w)"
  using net_read_short [OF assms(1,3)] assms(2)
  by (simp add: receive_def with_session_def session_read_def Let_def)

section \<open>The asynchronous read\<close>

text \<open>asio stores the bytes of a completed read in the buffer, and then calls the handler.\<close>

definition arrive_header :: "string \<Rightarrow> 'z net_world_scheme \<Rightarrow> 'z net_world_scheme outcome" where
  "arrive_header bs w = with_session w (\<lambda>s. Inr ((set_session (s\<lparr>inbound_header := bs\<rparr>) w)\<lparr>pending := None\<rparr>))"

definition arrive_data :: "string \<Rightarrow> 'z net_world_scheme \<Rightarrow> 'z net_world_scheme outcome" where
  "arrive_data bs w = with_session w (\<lambda>s. Inr ((set_session (s\<lparr>inbound_data := bs\<rparr>) w)\<lparr>pending := None\<rparr>))"

lemma handle_read_header_cases:
  assumes "handle_read_header handler None w = Inr w'"
  obtains h where "remLen h = 0" and "handler (Some InvalidArgument) (w\<lparr>conn := (conn w)\<lparr>incomingHeader := h\<rparr>\<rparr>) = Inr w'"
  | h s where "w' = (call (NetAsyncRead (unat (remLen h))) (set_session s (w\<lparr>conn := (conn w)\<lparr>incomingHeader := h\<rparr>\<rparr>)))
      \<lparr>pending := Some (ReadData (unat (remLen h)))\<rparr>"
  using assms by (auto simp: handle_read_header_def with_session_Inr outcome_simps Let_def split: if_splits)

text \<open>The two handlers of one bundle in a row: they deliver the bundle's header and text.\<close>

lemma header_then_data:
  assumes "m_session (conn w) = Some s" and "header_fits h" and "length body = unat (remLen h)" and "body \<noteq> []"
  shows "\<exists>w1 w2. ebind (arrive_header (make_bundle_header h) w) (handle_read_header handler None) = Inr w1 \<and>
      pending w1 = Some (ReadData (length body)) \<and>
      ebind (arrive_data body w1) (handle_read_data handler None) = handler None w2 \<and>
      incomingHeader (conn w2) = h \<and> incomingMessage (conn w2) = body \<and> pending w2 = None \<and>
      history w2 = history w @ [NetAsyncRead (length body)]"
proof -
  have len: "length (make_bundle_header h) = header_length"
    by (simp add: make_bundle_header_in_use length_make_v1)
  have n: "remLen h \<noteq> 0" using assms(3,4) by auto
  show ?thesis
    using assms(1,3) n header_over_wire [OF assms(2)]
    by (simp add: arrive_header_def arrive_data_def handle_read_header_def handle_read_data_def
        with_session_def Let_def len set_session_def call_def)
      (rule exI, rule conjI, rule refl, simp)
qed

text \<open>
  After an end of file the handler closes the socket, delivers what it has, and then fails:
  reading again needs an open connection.
\<close>

lemma readHandler_eof_fails:
  assumes "closed_after_close E"
    and "omr (incomingHeader (conn (closeSocket w))) (incomingMessage (conn (closeSocket w))) (closeSocket w) = Inr w'"
    and "m_session (conn w') \<noteq> None" and "history w' = history (closeSocket w)"
  shows "readHandler E omr (Some EndOfFile) w = throw ''Connection is down, reading will Fail''"
  using assms
  by (auto simp: readHandler_def Let_def async_receive_def isOpen_def with_session_def session_isOpen_def
      closeSocket_def closed_after_close_def)

end
