(* ===== verification/Helpers.thy ===== *)
theory Helpers
  imports Environment
begin

text \<open>
  The helpers that an agent installs its devices with: \<open>BaseWifi\<close> (model/smb_base_wifi.h and
  .cc), \<open>BaseIP\<close> (model/smb_base_ip.h and .cc) and \<open>BaseMobility\<close> (model/smb_base_mobility.h and
  .cc), and the initialisation of the static members of \<open>Agent\<close> that are made of them
  (model/smb_agent.cc). Static initialisation comes before \<open>main\<close>, so its calls are the
  first of every history; nothing changes these members afterwards, so \<open>m_wifi\<close> is a
  function of the environment.
\<close>

section \<open>BaseWifi\<close>

record BaseWifi =
  m_wifiHelper :: wifi_helper
  m_wifiMacHelper :: mac_helper
  m_wifiPhyHelper :: phy_helper
  m_phyMode :: string
  m_rss :: double
  m_init_done :: bool

text \<open>The bit pattern of the double -80.\<close>

definition minus_80 :: double where
  "minus_80 = 0xC054000000000000"

definition BaseWifi_init :: "env \<Rightarrow> BaseWifi \<Rightarrow> 'z base_world_scheme \<Rightarrow> BaseWifi \<times> 'z base_world_scheme" where
  "BaseWifi_init E b w =
     (let b1 = b\<lparr>m_wifiHelper := (m_wifiHelper b)\<lparr>wh_standard := Some ''WIFI_PHY_STANDARD_80211b''\<rparr>\<rparr>;
          phy = default_phy_helper\<lparr>ph_attributes := [(''RxGain'', DoubleValue 0)],
            ph_pcap := Some ''DLT_IEEE802_11_RADIO''\<rparr>;
          wifiChannel = new_channel_helper\<lparr>ch_delay := Some ''ns3::ConstantSpeedPropagationDelayModel'',
            ch_losses := [(''ns3::FixedRssLossModel'', [(''Rss'', DoubleValue (m_rss b))])]\<rparr>;
          w1 = call (ChannelCreate wifiChannel) w;
          b2 = b1\<lparr>m_wifiPhyHelper := phy\<lparr>ph_channel := Some (ns_new_channel E (history w1))\<rparr>\<rparr>;
          b3 = b2\<lparr>m_wifiMacHelper := default_mac_helper\<rparr>;
          b4 = b3\<lparr>m_wifiHelper := (m_wifiHelper b3)\<lparr>wh_manager := Some (''ns3::ConstantRateWifiManager'',
            [(''DataMode'', StringValue (m_phyMode b)), (''ControlMode'', StringValue (m_phyMode b))])\<rparr>\<rparr>;
          b5 = b4\<lparr>m_wifiMacHelper := (m_wifiMacHelper b4)\<lparr>mh_type := Some ''ns3::AdhocWifiMac''\<rparr>\<rparr>
      in (b5\<lparr>m_init_done := True\<rparr>, w1))"

text \<open>\<open>configure\<close> is a second copy of the same statements.\<close>

definition BaseWifi_configure :: "env \<Rightarrow> BaseWifi \<Rightarrow> 'z base_world_scheme \<Rightarrow> BaseWifi \<times> 'z base_world_scheme" where
  "BaseWifi_configure E b w =
     (let b1 = b\<lparr>m_wifiHelper := (m_wifiHelper b)\<lparr>wh_standard := Some ''WIFI_PHY_STANDARD_80211b''\<rparr>\<rparr>;
          phy = default_phy_helper\<lparr>ph_attributes := [(''RxGain'', DoubleValue 0)],
            ph_pcap := Some ''DLT_IEEE802_11_RADIO''\<rparr>;
          wifiChannel = new_channel_helper\<lparr>ch_delay := Some ''ns3::ConstantSpeedPropagationDelayModel'',
            ch_losses := [(''ns3::FixedRssLossModel'', [(''Rss'', DoubleValue (m_rss b))])]\<rparr>;
          w1 = call (ChannelCreate wifiChannel) w;
          b2 = b1\<lparr>m_wifiPhyHelper := phy\<lparr>ph_channel := Some (ns_new_channel E (history w1))\<rparr>\<rparr>;
          b3 = b2\<lparr>m_wifiMacHelper := default_mac_helper\<rparr>;
          b4 = b3\<lparr>m_wifiHelper := (m_wifiHelper b3)\<lparr>wh_manager := Some (''ns3::ConstantRateWifiManager'',
            [(''DataMode'', StringValue (m_phyMode b)), (''ControlMode'', StringValue (m_phyMode b))])\<rparr>\<rparr>;
          b5 = b4\<lparr>m_wifiMacHelper := (m_wifiMacHelper b4)\<lparr>mh_type := Some ''ns3::AdhocWifiMac''\<rparr>\<rparr>
      in (b5\<lparr>m_init_done := True\<rparr>, w1))"

definition new_BaseWifi :: "env \<Rightarrow> 'z base_world_scheme \<Rightarrow> BaseWifi \<times> 'z base_world_scheme" where
  "new_BaseWifi E w =
     BaseWifi_init E \<lparr>m_wifiHelper = default_wifi_helper, m_wifiMacHelper = default_mac_helper,
       m_wifiPhyHelper = default_phy_helper, m_phyMode = ''DsssRate1Mbps'', m_rss = minus_80, m_init_done = False\<rparr> w"

definition BaseWifi_Install ::
  "env \<Rightarrow> BaseWifi \<Rightarrow> node list \<Rightarrow> 'z base_world_scheme \<Rightarrow> device list \<times> 'z base_world_scheme" where
  "BaseWifi_Install E b nodes w =
     (let w' = call (WifiInstall (m_wifiHelper b) (m_wifiPhyHelper b) (m_wifiMacHelper b) nodes) w
      in (ns_devices E (history w'), w'))"

section \<open>BaseIP and BaseMobility\<close>

definition BaseIP_SetBase :: "string \<Rightarrow> string \<Rightarrow> string \<Rightarrow> 'z base_world_scheme \<Rightarrow> 'z base_world_scheme" where
  "BaseIP_SetBase network netmask address w = call (AddressBaseFrom network netmask address) w"

text \<open>The constructor; its member \<open>m_last_ip_assignment\<close> is not used again.\<close>

definition new_BaseIP :: "'z base_world_scheme \<Rightarrow> 'z base_world_scheme" where
  "new_BaseIP w = (let m_last_ip_assignment = ''0.0.0.1'' in call (AddressBaseFrom ''11.0.0.0'' ''255.0.0.0'' m_last_ip_assignment) w)"

definition BaseIP_Install_ip :: "env \<Rightarrow> device list \<Rightarrow> 'z base_world_scheme \<Rightarrow> iface list \<times> 'z base_world_scheme" where
  "BaseIP_Install_ip E devices w =
     (let w' = call (AddressAssign devices) w in (ns_interfaces E (history w'), w'))"

definition BaseIP_Install_inet :: "node list \<Rightarrow> 'z base_world_scheme \<Rightarrow> 'z base_world_scheme" where
  "BaseIP_Install_inet nodes w = call (InternetInstall nodes) w"

definition BaseIP_Install ::
  "env \<Rightarrow> node list \<Rightarrow> device list \<Rightarrow> 'z base_world_scheme \<Rightarrow> iface list \<times> 'z base_world_scheme" where
  "BaseIP_Install E nodes devices w = BaseIP_Install_ip E devices (BaseIP_Install_inet nodes w)"

definition BaseMobility_Install :: "node list \<Rightarrow> 'z base_world_scheme \<Rightarrow> 'z base_world_scheme" where
  "BaseMobility_Install nodes w = call (MobilityInstall nodes) w"

section \<open>Static initialisation\<close>

text \<open>
  \<open>temp\<close> and its copy \<open>Agent::m_wifi\<close>, which shares the channel, then \<open>Agent::m_mobility\<close>, whose
  constructor does nothing, and \<open>Agent::m_ip\<close>.
\<close>

definition static_init :: "env \<Rightarrow> BaseWifi \<times> base_world" where
  "static_init E =
     (let (temp, w1) = new_BaseWifi E \<lparr>history = []\<rparr>; m_wifi = temp in (m_wifi, new_BaseIP w1))"

definition m_wifi :: "env \<Rightarrow> BaseWifi" where
  "m_wifi E = fst (static_init E)"

definition static_history :: "env \<Rightarrow> history" where
  "static_history E = history (snd (static_init E))"

text \<open>The one call that installs the wifi devices of an agent.\<close>

abbreviation wifi_call :: "env \<Rightarrow> node list \<Rightarrow> 'z base_world_scheme \<Rightarrow> 'z base_world_scheme" where
  "wifi_call E nodes w \<equiv>
     call (WifiInstall (m_wifiHelper (m_wifi E)) (m_wifiPhyHelper (m_wifi E)) (m_wifiMacHelper (m_wifi E)) nodes) w"

end
