(* ===== verification/Agents.thy ===== *)
theory Agents
  imports Network Helpers
begin

text \<open>
  \<open>Agent\<close> and \<open>WFD_Agent\<close> of model/smb_agent.h and .cc, on top of the helpers \<open>BaseWifi\<close>, \<open>BaseIP\<close>
  and \<open>BaseMobility\<close> (Helpers). Agents live in a heap and are referred to by
  pointers (None is null); \<open>AllAgents\<close> is the static map from agent ids to pointers. The
  dynamic class of an object is the \<open>wfd\<close> part, which only a \<open>WFD_Agent\<close> has; members that no
  constructor initialises are None until they are written.

  \<open>agents_ok\<close> is the invariant of the map and the heap. \<open>ready\<close> is what \<open>init\<close> establishes for an
  \<open>Agent\<close>, and what moving it and sending from it need; \<open>WFD_Agent::init\<close> does not establish it.
\<close>

section \<open>State\<close>

datatype AgentRole = WFD_GO | WFD_CLIENT

record WFD_part =
  m_wfd_node :: "node option"
  wfd_role :: "AgentRole option"
  wfd_groupId :: "uint option"

record Agent =
  m_AgentId :: string
  m_node :: "node option"
  m_device :: "device option"
  nc :: "node list"
  ndc :: "device list"
  iic :: "iface list"
  m_socket :: "socket option"
  m_isa :: "(address \<times> int) option"
  wfd :: "WFD_part option"

type_synonym ptr = "nat option"

record agent_world = net_world +
  m_outgoing :: OngoingSerialization
  heap :: "Agent list"
  AllAgents :: "(string, ptr) smap"
  global_pckt_cnt :: uint
  wfd_nc :: "node list"
  wfd_go_nc :: "(uint, node list) smap"
  wfd_cln_nc :: "(uint, node list) smap"
  wfd_go_ndc :: "(uint, device list) smap"
  wfd_cln_ndc :: "(uint, device list) smap"

definition new_Agent :: "string \<Rightarrow> node option \<Rightarrow> Agent" where
  "new_Agent agId nd = \<lparr>m_AgentId = agId, m_node = nd, m_device = None, nc = [], ndc = [], iic = [],
     m_socket = None, m_isa = None, wfd = None\<rparr>"

definition new_WFD_Agent :: "string \<Rightarrow> Agent" where
  "new_WFD_Agent agId =
     (new_Agent agId None)\<lparr>wfd := Some \<lparr>m_wfd_node = None, wfd_role = None, wfd_groupId = None\<rparr>\<rparr>"

text \<open>\<open>CreateObject\<close>: the pointer and the state.\<close>

definition create_object :: "Agent \<Rightarrow> 'z agent_world_scheme \<Rightarrow> nat \<times> 'z agent_world_scheme" where
  "create_object ag w = (length (heap w), w\<lparr>heap := heap w @ [ag]\<rparr>)"

definition with_agent :: "nat \<Rightarrow> 'z agent_world_scheme \<Rightarrow> (Agent \<Rightarrow> 'a outcome) \<Rightarrow> 'a outcome" where
  "with_agent this w f = (if this < length (heap w) then f (heap w ! this) else Inl Undefined)"

definition put_agent :: "nat \<Rightarrow> Agent \<Rightarrow> 'z agent_world_scheme \<Rightarrow> 'z agent_world_scheme" where
  "put_agent this ag w = w\<lparr>heap := (heap w)[this := ag]\<rparr>"

definition deref :: "ptr \<Rightarrow> (nat \<Rightarrow> 'a outcome) \<Rightarrow> 'a outcome" where
  "deref p f = (case p of None \<Rightarrow> Inl Undefined | Some this \<Rightarrow> f this)"

section \<open>Agent\<close>

definition GetAgentId :: "nat \<Rightarrow> 'z agent_world_scheme \<Rightarrow> string outcome" where
  "GetAgentId this w = with_agent this w (\<lambda>ag. Inr (m_AgentId ag))"

definition GetAddress :: "env \<Rightarrow> nat \<Rightarrow> 'z agent_world_scheme \<Rightarrow> address outcome" where
  "GetAddress E this w =
     with_agent this w (\<lambda>ag. ebind (vec_index (iic ag) 0) (\<lambda>i. Inr (ns_address E i)))"

definition Bind :: "env \<Rightarrow> nat \<Rightarrow> int \<Rightarrow> 'z agent_world_scheme \<Rightarrow> (int \<times> 'z agent_world_scheme) outcome" where
  "Bind E this port w =
     ebind (GetAddress E this w) (\<lambda>addr.
     with_agent this w (\<lambda>ag.
     let w1 = put_agent this (ag\<lparr>m_isa := Some (addr, port)\<rparr>) w in
     case m_socket ag of
       None \<Rightarrow> throw ''Can't bind socket''
     | Some s \<Rightarrow> let w2 = call (SocketBind s (addr, port)) w1 in Inr (ns_bind E (history w2), w2)))"

text \<open>\<open>CreateSocket\<close> on the agent's node, with the agent as the receive callback.\<close>

definition create_socket :: "env \<Rightarrow> nat \<Rightarrow> 'z agent_world_scheme \<Rightarrow> 'z agent_world_scheme outcome" where
  "create_socket E this w =
     with_agent this w (\<lambda>ag.
     let w1 = call (SocketCreate (m_node ag)) w; s = ns_new_socket E (history w1) in
     case s of
       None \<Rightarrow> Inl Undefined
     | Some s' \<Rightarrow> Inr (call (SocketRecvCallback s' this) (put_agent this (ag\<lparr>m_socket := s\<rparr>) w1)))"

definition initSocket :: "env \<Rightarrow> nat \<Rightarrow> 'z agent_world_scheme \<Rightarrow> 'z agent_world_scheme outcome" where
  "initSocket E this w =
     ebind (create_socket E this w) (\<lambda>w1.
     with_agent this w1 (\<lambda>ag.
     ebind (Bind E this 80 (put_agent this (ag\<lparr>m_isa := None\<rparr>) w1)) (\<lambda>(_, w2). Inr w2)))"

text \<open>The node that \<open>init\<close> is given, or else a new one.\<close>

definition node_for :: "env \<Rightarrow> node option \<Rightarrow> 'z base_world_scheme \<Rightarrow> node \<times> 'z base_world_scheme" where
  "node_for E nd w = (case nd of
       Some n \<Rightarrow> (n, w)
     | None \<Rightarrow> let w' = call CreateNode w in (ns_new_node E (history w'), w'))"

definition agent_init :: "env \<Rightarrow> node option \<Rightarrow> nat \<Rightarrow> 'z agent_world_scheme \<Rightarrow> 'z agent_world_scheme outcome" where
  "agent_init E nd this w =
     with_agent this w (\<lambda>ag.
     let (n, w1) = node_for E nd w;
         nodes = nc ag @ [n];
         (devices, w2) = BaseWifi_Install E (m_wifi E) nodes w1;
         w3 = BaseMobility_Install nodes w2;
         (ifaces, w4) = BaseIP_Install E nodes devices w3 in
     ebind (vec_index nodes 0) (\<lambda>n0.
     let w5 = put_agent this (ag\<lparr>m_isa := None, nc := nodes, ndc := devices, iic := ifaces, m_node := Some n0\<rparr>) w4 in
     ebind (create_socket E this w5) (\<lambda>w6.
     ebind (Bind E this 80 w6) (\<lambda>(_, w7). Inr w7))))"

definition getAgent :: "string \<Rightarrow> 'z agent_world_scheme \<Rightarrow> ptr \<times> 'z agent_world_scheme" where
  "getAgent agId w = (let (p, m) = map_index agId (AllAgents w) in (p, w\<lparr>AllAgents := m\<rparr>))"

definition AddAgent :: "string \<Rightarrow> ptr \<Rightarrow> 'z agent_world_scheme \<Rightarrow> 'z agent_world_scheme" where
  "AddAgent agId ag w = w\<lparr>AllAgents := map_insert agId ag (AllAgents w)\<rparr>"

definition RemoveAgent :: "string \<Rightarrow> 'z agent_world_scheme \<Rightarrow> 'z agent_world_scheme outcome" where
  "RemoveAgent agId w =
     (case map_of (AllAgents w) agId of
        None \<Rightarrow> Inr w
      | Some p \<Rightarrow> deref p (\<lambda>this.
          let w1 = call (Dispose this) w in Inr (w1\<lparr>AllAgents := map_erase agId (AllAgents w1)\<rparr>)))"

text \<open>
  The destructors, which run when the last reference goes, free the bound address; \<open>~WFD_Agent\<close>
  runs first and leaves nothing to free to \<open>~Agent\<close>.
\<close>

definition delete_Agent :: "nat \<Rightarrow> 'z agent_world_scheme \<Rightarrow> 'z agent_world_scheme outcome" where
  "delete_Agent this w =
     with_agent this w (\<lambda>ag. Inr (if m_isa ag \<noteq> None then put_agent this (ag\<lparr>m_isa := None\<rparr>) w else w))"

definition delete_WFD_Agent :: "nat \<Rightarrow> 'z agent_world_scheme \<Rightarrow> 'z agent_world_scheme outcome" where
  "delete_WFD_Agent this w =
     ebind (with_agent this w (\<lambda>ag. Inr (if m_isa ag \<noteq> None then put_agent this (ag\<lparr>m_isa := None\<rparr>) w else w)))
       (delete_Agent this)"

definition getAgents :: "'z agent_world_scheme \<Rightarrow> (string, ptr) smap" where
  "getAgents w = AllAgents w"

definition GetNode :: "nat \<Rightarrow> 'z agent_world_scheme \<Rightarrow> node option outcome" where
  "GetNode this w = with_agent this w (\<lambda>ag. Inr (m_node ag))"

text \<open>\<open>m_node->GetObject<MobilityModel>()->GetPosition()\<close>: null at either arrow is undefined.\<close>

definition GetPosition :: "env \<Rightarrow> nat \<Rightarrow> 'z agent_world_scheme \<Rightarrow> (double \<times> double \<times> double) outcome" where
  "GetPosition E this w =
     with_agent this w (\<lambda>ag. case m_node ag of
       None \<Rightarrow> Inl Undefined
     | Some n \<Rightarrow> if ns_has_mobility E (history w) n then Inr (ns_position E (history w) n) else Inl Undefined)"

text \<open>\<open>m_device->GetBroadcast()\<close>; no code sets \<open>m_device\<close>.\<close>

definition GetBroadcastAddress :: "env \<Rightarrow> nat \<Rightarrow> 'z agent_world_scheme \<Rightarrow> address outcome" where
  "GetBroadcastAddress E this w =
     with_agent this w (\<lambda>ag. case m_device ag of None \<Rightarrow> Inl Undefined | Some d \<Rightarrow> Inr (ns_broadcast E d))"

definition configure :: bool where
  "configure = True"

text \<open>\<open>SetPosition\<close> goes the same way.\<close>

definition SetPosition ::
  "env \<Rightarrow> nat \<Rightarrow> double \<times> double \<times> double \<Rightarrow> 'z agent_world_scheme \<Rightarrow> 'z agent_world_scheme outcome" where
  "SetPosition E this v w =
     with_agent this w (\<lambda>ag. case m_node ag of
       None \<Rightarrow> Inl Undefined
     | Some n \<Rightarrow> if ns_has_mobility E (history w) n then Inr (call (PositionSet n v) w) else Inl Undefined)"

text \<open>The log message between connecting and sending also asks for the sender's own address.\<close>

definition SendTo ::
  "env \<Rightarrow> nat \<Rightarrow> ptr \<Rightarrow> packet \<Rightarrow> 'z agent_world_scheme \<Rightarrow> (int \<times> 'z agent_world_scheme) outcome" where
  "SendTo E this agent pkt w =
     (case agent of
        None \<Rightarrow> Inr (- 1, w)
      | Some dest \<Rightarrow>
          ebind (GetAddress E dest w) (\<lambda>addr.
          with_agent this w (\<lambda>ag. case m_socket ag of
            None \<Rightarrow> Inl Undefined
          | Some s \<Rightarrow>
              let w1 = call (SocketConnect s (addr, 80)) w in
              ebind (GetAddress E this w1) (\<lambda>_.
              let w2 = w1\<lparr>global_pckt_cnt := global_pckt_cnt w1 + 1\<rparr>;
                  w3 = call (SocketSend s pkt) w2 in
              Inr (ns_send E (history w3), w3)))))"

text \<open>The message that \<open>ReceivePacket\<close> makes of a packet, and one turn of its loop.\<close>

definition forwarded_fields :: "string list" where
  "forwarded_fields = [''MESSAGE_TYPE'', ''MESSAGE_CAT'', ''SENDING_AGENT'', ''MULTICAST_DATA'',
     ''RECEIVING_AGENT_ID'', ''GLOBAL_PACKET_COUNT'', ''TICK_SENT'']"

definition forwarded_value :: "jsonlib \<Rightarrow> json \<Rightarrow> json outcome" where
  "forwarded_value J j_msg =
     ebind (fold_outcome (\<lambda>k outgoing. ebind (js_get J j_msg k) (js_set J outgoing k)) forwarded_fields nullValue)
       (\<lambda>outgoing. set_all J outgoing
          [(''SENDER'', stringValue ''0''), (''SENDER_TYPE'', stringValue ''NS3_SIMULATOR'')])"

definition receive_one :: "env \<Rightarrow> packet \<Rightarrow> 'z agent_world_scheme \<Rightarrow> 'z agent_world_scheme outcome" where
  "receive_one E pkt w =
     (if to_int (int (length pkt)) \<le> 0 then Inr w else
      case parseJSON (lib E) pkt nullValue of (ok, j_msg) \<Rightarrow>
        if \<not> ok then Inr w else
        ebind (forwarded_value (lib E) j_msg) (\<lambda>outgoing.
        ebind (makeUnknownJSON (lib E) (m_outgoing w) outgoing) (\<lambda>og.
        Inr (w\<lparr>m_outgoing := og\<rparr>))))"

definition ReceivePacket :: "env \<Rightarrow> socket \<Rightarrow> 'z agent_world_scheme \<Rightarrow> 'z agent_world_scheme outcome" where
  "ReceivePacket E s w =
     (let w1 = call (SocketRecv s) w in fold_outcome (receive_one E) (ns_recv E (history w1)) w1)"

text \<open>
  \<open>GetPacketSource\<close>, which nothing calls: the source in the first IPv4 header of a packet. Of an
  item of the packet's metadata it reads the name of the type and, of such a header, what
  \<open>Deserialize\<close> yields as the source. \<open>src_ip\<close> begins as the default address.
\<close>

record metadata_item =
  item_tid :: string
  item_source :: address

fun find_source :: "metadata_item list \<Rightarrow> address \<Rightarrow> address" where
  "find_source [] src_ip = src_ip"
| "find_source (item # items) src_ip =
     (if item_tid item = ''ns3::Ipv4Header'' then item_source item else find_source items src_ip)"

definition GetPacketSource :: "address \<Rightarrow> metadata_item list \<Rightarrow> address" where
  "GetPacketSource default_address items = find_source items default_address"

section \<open>Packets that arrive\<close>

text \<open>The objects that were registered to receive from a socket, the last one is in force.\<close>

fun callbacks :: "socket \<Rightarrow> history \<Rightarrow> nat list" where
  "callbacks s [] = []"
| "callbacks s (SocketRecvCallback s' p # h) = (if s' = s then [p] else []) @ callbacks s h"
| "callbacks s (_ # h) = callbacks s h"

lemma callbacks_append [simp]: "callbacks s (h @ h') = callbacks s h @ callbacks s h'"
  by (induction s h rule: callbacks.induct) simp_all

text \<open>
  ns-3 calls the object that is registered for the socket when a packet has arrived. The map
  of agents holds the only lasting reference to an agent, so an object that no entry refers to
  has been freed, and calling a member of it is undefined.
\<close>

definition packet_arrives :: "env \<Rightarrow> socket \<Rightarrow> 'z agent_world_scheme \<Rightarrow> 'z agent_world_scheme outcome" where
  "packet_arrives E s w = (case callbacks s (history w) of
       [] \<Rightarrow> Inr w
     | ps \<Rightarrow> if Some (last ps) \<in> snd ` set (AllAgents w) then ReceivePacket E s w else Inl Undefined)"

section \<open>WFD_Agent\<close>

definition with_wfd :: "nat \<Rightarrow> 'z agent_world_scheme \<Rightarrow> (Agent \<Rightarrow> WFD_part \<Rightarrow> 'a outcome) \<Rightarrow> 'a outcome" where
  "with_wfd this w f =
     with_agent this w (\<lambda>ag. case wfd ag of None \<Rightarrow> Inl Undefined | Some d \<Rightarrow> f ag d)"

definition setRole :: "nat \<Rightarrow> AgentRole \<Rightarrow> 'z agent_world_scheme \<Rightarrow> 'z agent_world_scheme outcome" where
  "setRole this role w =
     with_wfd this w (\<lambda>ag d. Inr (put_agent this (ag\<lparr>wfd := Some (d\<lparr>wfd_role := Some role\<rparr>)\<rparr>) w))"

definition getRole :: "nat \<Rightarrow> 'z agent_world_scheme \<Rightarrow> AgentRole outcome" where
  "getRole this w =
     with_wfd this w (\<lambda>ag d. case wfd_role d of None \<Rightarrow> Inl Undefined | Some r \<Rightarrow> Inr r)"

definition figureOutGroup :: "nat \<Rightarrow> 'z agent_world_scheme \<Rightarrow> 'z agent_world_scheme outcome" where
  "figureOutGroup this w =
     with_wfd this w (\<lambda>ag d.
     let w1 = put_agent this (ag\<lparr>wfd := Some (d\<lparr>wfd_groupId := Some 0\<rparr>)\<rparr>) w in
     ebind (GetAgentId this w1) (\<lambda>myId.
     ebind (map_begin (AllAgents w1)) (\<lambda>(_, p).
     deref p (\<lambda>first.
     ebind (GetAgentId first w1) (\<lambda>firstId.
     setRole this (if myId = firstId then WFD_GO else WFD_CLIENT) w1)))))"

text \<open>\<open>m[groupId].Add(node)\<close>.\<close>

definition add_to_group :: "uint \<Rightarrow> node \<Rightarrow> (uint, node list) smap \<Rightarrow> (uint, node list) smap" where
  "add_to_group g n m = (let (c, m') = map_index g m in map_put g (c @ [n]) m')"

text \<open>The node goes into the container of its role in its group, and into the one of all nodes.\<close>

definition join_group :: "AgentRole \<Rightarrow> uint \<Rightarrow> node \<Rightarrow> 'z agent_world_scheme \<Rightarrow> 'z agent_world_scheme" where
  "join_group role g n w =
     (let w1 = (case role of
            WFD_GO \<Rightarrow> w\<lparr>wfd_go_nc := add_to_group g n (wfd_go_nc w)\<rparr>
          | WFD_CLIENT \<Rightarrow> w\<lparr>wfd_cln_nc := add_to_group g n (wfd_cln_nc w)\<rparr>)
      in w1\<lparr>wfd_nc := wfd_nc w1 @ [n]\<rparr>)"

definition wfd_init :: "env \<Rightarrow> node option \<Rightarrow> nat \<Rightarrow> 'z agent_world_scheme \<Rightarrow> 'z agent_world_scheme outcome" where
  "wfd_init E nd this w =
     with_wfd this w (\<lambda>ag d.
     let (n, w1) = node_for E nd w;
         w2 = put_agent this (ag\<lparr>wfd := Some (d\<lparr>m_wfd_node := Some n\<rparr>)\<rparr>) w1 in
     ebind (figureOutGroup this w2) (\<lambda>w3.
     ebind (getRole this w3) (\<lambda>role.
     with_wfd this w3 (\<lambda>_ d3. case wfd_groupId d3 of
       None \<Rightarrow> Inl Undefined
     | Some g \<Rightarrow> Inr (join_group role g n w3)))))"

text \<open>The virtual \<open>init\<close>.\<close>

definition init :: "env \<Rightarrow> node option \<Rightarrow> nat \<Rightarrow> 'z agent_world_scheme \<Rightarrow> 'z agent_world_scheme outcome" where
  "init E nd this w =
     with_agent this w (\<lambda>ag. case wfd ag of None \<Rightarrow> agent_init E nd this w | Some _ \<Rightarrow> wfd_init E nd this w)"

definition config_group :: "env \<Rightarrow> nat \<Rightarrow> 'z agent_world_scheme \<Rightarrow> 'z agent_world_scheme outcome" where
  "config_group E groupId w =
     (let g = of_nat groupId; ssid = ''WFD-GRP-'' @ show_dec groupId;
          (cln, clns) = map_index g (wfd_cln_nc w);
          w0 = call (ChannelCreate default_channel_helper) w;
          chan = ns_new_channel E (history w0);
          w1 = call (StationInstall chan ssid cln) (w0\<lparr>wfd_cln_nc := clns\<rparr>);
          clnDev = ns_devices E (history w1);
          w2 = w1\<lparr>wfd_cln_ndc := map_put g clnDev (wfd_cln_ndc w1)\<rparr>;
          (go, gos) = map_index g (wfd_go_nc w2) in
      ebind (vec_index go 0) (\<lambda>go0.
      let w3 = call (ApInstall chan ssid go0) (w2\<lparr>wfd_go_nc := gos\<rparr>);
          goDev = ns_devices E (history w3);
          w4 = w3\<lparr>wfd_go_ndc := map_put g goDev (wfd_go_ndc w3)\<rparr>;
          w5 = call (InternetInstall (go @ cln)) w4;
          w6 = call (AddressAssign (goDev @ clnDev)) w5;
          w7 = call NewNetwork w6 in
      Inr (call (MobilityInstall (go @ cln)) w7)))"

lemma config_group_size:
  "config_group E g w = Inr w' \<Longrightarrow> length (wfd_go_nc w') = length (wfd_go_nc w)"
  by (auto simp: config_group_def Let_def outcome_simps map_index_def vec_index_def default_list_def call_def
      split: prod.splits option.splits if_splits)

text \<open>
  The loop re-reads the number of groups, which \<open>wfd_go_nc[groupId]\<close> can increase; but then
  the new group has no owner and the iteration does not complete, so the loop ends.
\<close>

function config_groups :: "env \<Rightarrow> nat \<Rightarrow> 'z agent_world_scheme \<Rightarrow> 'z agent_world_scheme outcome" where
  "config_groups E groupId w =
     (if groupId < length (wfd_go_nc w)
      then ebind (config_group E groupId w) (config_groups E (groupId + 1))
      else Inr w)"
  by pat_completeness auto
termination
  by (relation "measure (\<lambda>(E, g, w). length (wfd_go_nc w) - g)") (auto dest: config_group_size)

declare config_groups.simps [simp del]

definition configAll :: "env \<Rightarrow> 'z agent_world_scheme \<Rightarrow> 'z agent_world_scheme outcome" where
  "configAll E w = config_groups E 0 (call (AddressBase ''10.0.0.0'' ''255.255.255.0'') w)"

section \<open>What the operations leave alone\<close>

text \<open>
  \<open>agents_only\<close>: the operation stays inside the agents and ns-3. It writes nothing to the
  network and reads nothing from it, and leaves the connection, the outgoing messages and every part of the state
  that later components add.
\<close>

definition agents_only :: "'z agent_world_scheme \<Rightarrow> 'z agent_world_scheme \<Rightarrow> bool" where
  "agents_only w w' \<longleftrightarrow> agent_world.more w' = agent_world.more w \<and> conn w' = conn w \<and>
     pending w' = pending w \<and> m_outgoing w' = m_outgoing w \<and> written (history w') = written (history w) \<and>
     consumed (history w') = consumed (history w) \<and> log_text (history w') = log_text (history w) \<and>
     outer (history w') = outer (history w)"

text \<open>
  \<open>same_agents p\<close>: besides, the agents stay where they are and keep their identity, no agent
  but \<open>p\<close> changes, and the history goes on.
\<close>

definition same_agents :: "nat \<Rightarrow> 'z agent_world_scheme \<Rightarrow> 'z agent_world_scheme \<Rightarrow> bool" where
  "same_agents p w w' \<longleftrightarrow> agents_only w w' \<and> AllAgents w' = AllAgents w \<and> length (heap w') = length (heap w) \<and>
     m_AgentId (heap w' ! p) = m_AgentId (heap w ! p) \<and> (wfd (heap w' ! p) = None) = (wfd (heap w ! p) = None) \<and>
     (\<forall>q. q \<noteq> p \<longrightarrow> heap w' ! q = heap w ! q) \<and> (\<exists>h. history w' = history w @ h)"

lemma agents_only_refl [simp]: "agents_only w w"
  by (simp add: agents_only_def)

lemma agents_only_trans [trans]: "agents_only u v \<Longrightarrow> agents_only v w \<Longrightarrow> agents_only u w"
  by (simp add: agents_only_def)

lemma same_agents_refl [simp]: "same_agents p w w"
  by (simp add: same_agents_def)

lemma same_agents_trans [trans]: "same_agents p u v \<Longrightarrow> same_agents p v w \<Longrightarrow> same_agents p u w"
  by (auto simp: same_agents_def agents_only_def)

lemma same_agents_only: "same_agents p w w' \<Longrightarrow> agents_only w w'"
  by (simp add: same_agents_def)

lemma same_agents_call: "written [e] = [] \<Longrightarrow> consumed [e] = 0 \<Longrightarrow> log_text [e] = [] \<Longrightarrow> outer [e] = [] \<Longrightarrow>
    same_agents p w (call e w)"
  by (simp add: same_agents_def agents_only_def call_def written_append consumed_append)

lemma same_agents_put:
  "m_AgentId ag = m_AgentId (heap w ! p) \<Longrightarrow> (wfd ag = None) = (wfd (heap w ! p) = None) \<Longrightarrow>
     same_agents p w (put_agent p ag w)"
  by (cases "p < length (heap w)") (auto simp: same_agents_def agents_only_def put_agent_def nth_list_update list_update_beyond not_less)

lemma with_agent_Inr:
  "with_agent p w f = Inr r \<longleftrightarrow> p < length (heap w) \<and> f (heap w ! p) = Inr r"
  by (simp add: with_agent_def)

lemma with_wfd_Inr:
  "with_wfd p w f = Inr r \<longleftrightarrow> p < length (heap w) \<and> (\<exists>d. wfd (heap w ! p) = Some d \<and> f (heap w ! p) d = Inr r)"
  by (auto simp: with_wfd_def with_agent_Inr split: option.splits)

lemma deref_Inr: "deref p f = Inr r \<longleftrightarrow> (\<exists>a. p = Some a \<and> f a = Inr r)"
  by (simp add: deref_def split: option.splits)

lemmas access_simps = outcome_simps with_agent_Inr with_wfd_Inr deref_Inr

lemma Bind_same: "Bind E p port w = Inr (r, w') \<Longrightarrow> same_agents p w w'"
  by (auto simp: Bind_def access_simps Let_def split: option.splits
      intro!: same_agents_trans [OF same_agents_put same_agents_call])

lemma create_socket_same: "create_socket E p w = Inr w' \<Longrightarrow> same_agents p w w'"
  by (auto simp: create_socket_def access_simps Let_def split: option.splits
      intro!: same_agents_trans [OF same_agents_call [of "SocketCreate (m_node (heap w ! p))" p w]]
        same_agents_trans [OF same_agents_put same_agents_call])
    (simp_all add: call_def)

lemma node_for_same: "node_for E nd w = (n, w1) \<Longrightarrow> same_agents p w w1 \<and> heap w1 = heap w"
  by (auto simp: node_for_def Let_def call_def intro: same_agents_call [unfolded call_def] split: option.splits)

lemma agent_init_Inr:
  assumes "agent_init E nd p w = Inr w'" and "node_for E nd w = (n, w1)"
  obtains w4 w6 r ds ifs where "p < length (heap w)"
    and "w4 = call (AddressAssign ds) (call (InternetInstall (nc (heap w ! p) @ [n]))
           (call (MobilityInstall (nc (heap w ! p) @ [n])) (wifi_call E (nc (heap w ! p) @ [n]) w1)))"
    and "create_socket E p (put_agent p ((heap w ! p)\<lparr>m_isa := None, nc := nc (heap w ! p) @ [n], ndc := ds,
           iic := ifs, m_node := Some ((nc (heap w ! p) @ [n]) ! 0)\<rparr>) w4) = Inr w6"
    and "Bind E p 80 w6 = Inr (r, w')"
    and "ifs = ns_interfaces E (history w4)"
  using assms
  by (auto simp: agent_init_def access_simps Let_def vec_index_def BaseWifi_Install_def BaseMobility_Install_def
      BaseIP_Install_def BaseIP_Install_ip_def BaseIP_Install_inet_def split: if_splits)

lemma agent_init_same:
  assumes "agent_init E nd p w = Inr w'"
  shows "same_agents p w w'"
proof -
  obtain n w1 where nw: "node_for E nd w = (n, w1)" by (cases "node_for E nd w")
  have heap: "heap (call e v) = heap v" for e and v :: "'a agent_world_scheme" by (simp add: call_def)
  from assms nw show ?thesis
  proof (rule agent_init_Inr)
    fix w4 w6 :: "'a agent_world_scheme" and ds ifs r
    assume w4: "w4 = call (AddressAssign ds) (call (InternetInstall (nc (heap w ! p) @ [n]))
           (call (MobilityInstall (nc (heap w ! p) @ [n])) (wifi_call E (nc (heap w ! p) @ [n]) w1)))"
    let ?ag = "(heap w ! p)\<lparr>m_isa := None, nc := nc (heap w ! p) @ [n], ndc := ds,
           iic := ifs, m_node := Some ((nc (heap w ! p) @ [n]) ! 0)\<rparr>"
    assume w6: "create_socket E p (put_agent p ?ag w4) = Inr w6" and bind: "Bind E p 80 w6 = Inr (r, w')"
    have "same_agents p w w1" using node_for_same [OF nw] by simp
    also have "same_agents p w1 w4" 
      by (simp add: w4 same_agents_def agents_only_def call_def written_append consumed_append)
    also have "same_agents p w4 (put_agent p ?ag w4)"
      by (rule same_agents_put) (simp_all add: w4 heap node_for_same [OF nw])
    also have "same_agents p (put_agent p ?ag w4) w6" using w6 by (rule create_socket_same)
    also have "same_agents p w6 w'" using bind by (rule Bind_same)
    finally show ?thesis .
  qed
qed

lemma setRole_same: "setRole p r w = Inr w' \<Longrightarrow> same_agents p w w'"
  by (auto simp: setRole_def access_simps intro!: same_agents_put)

lemma figureOutGroup_same: "figureOutGroup p w = Inr w' \<Longrightarrow> same_agents p w w'"
  by (auto simp: figureOutGroup_def access_simps Let_def dest!: setRole_same
      intro!: same_agents_put elim!: same_agents_trans [rotated])

lemma join_group_same: "same_agents p w (join_group r g n w)"
  by (simp add: join_group_def same_agents_def agents_only_def Let_def split: AgentRole.split)

lemma wfd_init_Inr:
  assumes "wfd_init E nd p w = Inr w'" and "node_for E nd w = (n, w1)"
  obtains d w3 r g where "p < length (heap w)" and "wfd (heap w ! p) = Some d"
    and "figureOutGroup p (put_agent p ((heap w ! p)\<lparr>wfd := Some (d\<lparr>m_wfd_node := Some n\<rparr>)\<rparr>) w1) = Inr w3"
    and "getRole p w3 = Inr r" and "\<exists>d3. wfd (heap w3 ! p) = Some d3 \<and> wfd_groupId d3 = Some g"
    and "w' = join_group r g n w3"
  using assms by (auto simp: wfd_init_def access_simps split: option.splits)

lemma wfd_init_same:
  assumes "wfd_init E nd p w = Inr w'"
  shows "same_agents p w w'"
proof -
  obtain n w1 where nw: "node_for E nd w = (n, w1)" by (cases "node_for E nd w")
  from assms nw show ?thesis
  proof (rule wfd_init_Inr)
    fix d w3 r g
    let ?ag = "(heap w ! p)\<lparr>wfd := Some (d\<lparr>m_wfd_node := Some n\<rparr>)\<rparr>"
    assume d: "wfd (heap w ! p) = Some d" and w3: "figureOutGroup p (put_agent p ?ag w1) = Inr w3"
      and w': "w' = join_group r g n w3"
    have "same_agents p w w1" using node_for_same [OF nw] by simp
    also have "same_agents p w1 (put_agent p ?ag w1)"
      by (rule same_agents_put) (simp_all add: node_for_same [OF nw] d)
    also have "same_agents p (put_agent p ?ag w1) w3" using w3 by (rule figureOutGroup_same)
    also have "same_agents p w3 w'" unfolding w' by (rule join_group_same)
    finally show ?thesis .
  qed
qed

lemma init_same: "init E nd p w = Inr w' \<Longrightarrow> same_agents p w w'"
  by (auto simp: init_def access_simps split: option.splits dest: agent_init_same wfd_init_same)

lemma SetPosition_Inr:
  "SetPosition E p v w = Inr w' \<longleftrightarrow>
     p < length (heap w) \<and> (\<exists>n. m_node (heap w ! p) = Some n \<and> ns_has_mobility E (history w) n \<and>
       w' = call (PositionSet n v) w)"
  by (auto simp: SetPosition_def access_simps split: option.splits)

lemma SetPosition_same: "SetPosition E p v w = Inr w' \<Longrightarrow> same_agents q w w'"
  by (auto simp: SetPosition_Inr intro: same_agents_call)

lemma call_agent_fields [simp]:
  "heap (call e w) = heap w" "AllAgents (call e w) = AllAgents w" "m_outgoing (call e w) = m_outgoing w"
  "global_pckt_cnt (call e w) = global_pckt_cnt w"
  "agent_world.more (call e w) = agent_world.more w" for w :: "'z agent_world_scheme"
  by (simp_all add: call_def)

lemma SendTo_same: "SendTo E p a pkt w = Inr (r, w') \<Longrightarrow> same_agents q w w'"
  by (auto simp: SendTo_def access_simps Let_def same_agents_def agents_only_def written_append consumed_append split: option.splits)

lemma config_group_same:
  "config_group E g w = Inr w' \<Longrightarrow> same_agents p w w'"
  by (auto simp: config_group_def Let_def outcome_simps same_agents_def agents_only_def written_append consumed_append call_def
      split: prod.splits)

lemma config_groups_same: "config_groups E g w = Inr w' \<Longrightarrow> same_agents p w w'"
proof (induction E g w rule: config_groups.induct)
  case (1 E g w)
  show ?case
  proof (cases "g < length (wfd_go_nc w)")
    case True
    with "1.prems" obtain v where v: "config_group E g w = Inr v" "config_groups E (g + 1) v = Inr w'"
      by (subst (asm) config_groups.simps) (auto simp: outcome_simps)
    from config_group_same [OF v(1)] "1.IH" [OF True v] show ?thesis by (rule same_agents_trans)
  next
    case False
    with "1.prems" show ?thesis by (subst (asm) config_groups.simps) simp
  qed
qed

section \<open>The map of agents\<close>

definition agents_ok :: "'z agent_world_scheme \<Rightarrow> bool" where
  "agents_ok w \<longleftrightarrow> map_ok (AllAgents w) \<and>
     (\<forall>agId p. map_of (AllAgents w) agId = Some (Some p) \<longrightarrow> p < length (heap w) \<and> m_AgentId (heap w ! p) = agId)"

lemma agents_ok_same: "agents_ok w \<Longrightarrow> same_agents p w w' \<Longrightarrow> agents_ok w'"
  unfolding agents_ok_def same_agents_def by metis

lemma getAgent_simps:
  "fst (getAgent a w) = (case map_of (AllAgents w) a of None \<Rightarrow> None | Some p \<Rightarrow> p)"
  "heap (snd (getAgent a w)) = heap w"
  "history (snd (getAgent a w)) = history w"
  "map_ok (AllAgents w) \<Longrightarrow> map_of (AllAgents (snd (getAgent a w))) =
     (if map_of (AllAgents w) a = None then (map_of (AllAgents w))(a \<mapsto> None) else map_of (AllAgents w))"
  by (simp_all add: getAgent_def map_index_def default_option_def map_of_put split: option.splits)

lemma getAgent_known: "map_of (AllAgents w) a = Some p \<Longrightarrow> getAgent a w = (p, w)"
  by (simp add: getAgent_def map_index_present)

lemma getAgent_unknown:
  "map_of (AllAgents w) a = None \<Longrightarrow> getAgent a w = (None, w\<lparr>AllAgents := map_put a None (AllAgents w)\<rparr>)"
  by (simp add: getAgent_def map_index_absent default_option_def)

lemma getAgent_ok: "agents_ok w \<Longrightarrow> agents_ok (snd (getAgent a w))"
  by (cases "map_of (AllAgents w) a")
    (auto simp: getAgent_known getAgent_unknown agents_ok_def map_of_put split: if_splits)

lemma getAgent_only: "agents_only w (snd (getAgent a w))"
  by (cases "map_of (AllAgents w) a") (simp_all add: getAgent_known getAgent_unknown agents_only_def)

lemma AddAgent_ok:
  "agents_ok w \<Longrightarrow> p < length (heap w) \<Longrightarrow> m_AgentId (heap w ! p) = a \<Longrightarrow> agents_ok (AddAgent a (Some p) w)"
  by (auto simp: agents_ok_def AddAgent_def map_of_insert split: if_splits)

lemma AddAgent_only: "agents_only w (AddAgent a p w)"
  by (simp add: agents_only_def AddAgent_def)

lemma RemoveAgent_Inr:
  "RemoveAgent a w = Inr w' \<longleftrightarrow>
     (map_of (AllAgents w) a = None \<and> w' = w) \<or>
     (\<exists>p. map_of (AllAgents w) a = Some (Some p) \<and> w' = (call (Dispose p) w)\<lparr>AllAgents := map_erase a (AllAgents w)\<rparr>)"
  by (auto simp: RemoveAgent_def deref_Inr Let_def split: option.splits)

lemma RemoveAgent_ok: "agents_ok w \<Longrightarrow> RemoveAgent a w = Inr w' \<Longrightarrow> agents_ok w'"
  by (auto simp: RemoveAgent_Inr agents_ok_def map_of_erase split: if_splits)

lemma RemoveAgent_only: "RemoveAgent a w = Inr w' \<Longrightarrow> agents_only w w'"
  by (auto simp: RemoveAgent_Inr agents_only_def written_append consumed_append)

lemma create_object_simps:
  "create_object ag w = (p, w') \<Longrightarrow> p = length (heap w) \<and> w' = w\<lparr>heap := heap w @ [ag]\<rparr>"
  by (auto simp: create_object_def)

lemma create_object_ok: "agents_ok w \<Longrightarrow> agents_ok (w\<lparr>heap := heap w @ [ag]\<rparr>)"
  by (auto simp: agents_ok_def nth_append less_Suc_eq)

section \<open>Agents that can act\<close>

definition ready :: "env \<Rightarrow> 'z agent_world_scheme \<Rightarrow> nat \<Rightarrow> bool" where
  "ready E w p \<longleftrightarrow> p < length (heap w) \<and> iic (heap w ! p) \<noteq> [] \<and> m_socket (heap w ! p) \<noteq> None \<and>
     (\<exists>n. m_node (heap w ! p) = Some n \<and> ns_has_mobility E (history w) n)"

definition all_ready :: "env \<Rightarrow> 'z agent_world_scheme \<Rightarrow> bool" where
  "all_ready E w \<longleftrightarrow> (\<forall>agId p. map_of (AllAgents w) agId = Some (Some p) \<longrightarrow> ready E w p)"

lemma mobility_stays: "ns3_laws E \<Longrightarrow> ns_has_mobility E h n \<Longrightarrow> ns_has_mobility E (h @ h') n"
  by (auto simp: ns3_laws_def)

lemma ready_same: "ns3_laws E \<Longrightarrow> ready E w q \<Longrightarrow> same_agents p w w' \<Longrightarrow> q \<noteq> p \<Longrightarrow> ready E w' q"
  by (auto simp: ready_def same_agents_def mobility_stays)

lemma all_ready_same:
  assumes "ns3_laws E" and "all_ready E w" and "\<And>p. same_agents p w w'"
  shows "all_ready E w'"
  unfolding all_ready_def
proof (intro allI impI)
  fix a q assume "map_of (AllAgents w') a = Some (Some q)"
  then have "map_of (AllAgents w) a = Some (Some q)" using assms(3) by (simp add: same_agents_def)
  then have "ready E w q" using assms(2) by (simp add: all_ready_def)
  then show "ready E w' q" using ready_same [OF assms(1) _ assms(3), of q "Suc q"] by simp
qed

lemma getAgent_ready: "all_ready E w \<Longrightarrow> agents_ok w \<Longrightarrow> all_ready E (snd (getAgent a w))"
  by (cases "map_of (AllAgents w) a")
    (auto simp: getAgent_known getAgent_unknown agents_ok_def all_ready_def ready_def map_of_put split: if_splits)

lemma ready_call: "ns3_laws E \<Longrightarrow> ready E w p \<Longrightarrow> ready E ((call e w)\<lparr>AllAgents := m\<rparr>) p"
  by (auto simp: ready_def mobility_stays)

lemma RemoveAgent_ready:
  "ns3_laws E \<Longrightarrow> all_ready E w \<Longrightarrow> agents_ok w \<Longrightarrow> RemoveAgent a w = Inr w' \<Longrightarrow> all_ready E w'"
  by (auto simp: RemoveAgent_Inr agents_ok_def all_ready_def map_of_erase ready_call split: if_splits)

text \<open>\<open>Agent::init\<close> succeeds, and makes the agent ready.\<close>

lemma create_socket_ready:
  assumes "ns3_laws E" and "p < length (heap w)" and "m_node (heap w ! p) = Some n"
  shows "\<exists>w'. create_socket E p w = Inr w' \<and> iic (heap w' ! p) = iic (heap w ! p) \<and>
    m_node (heap w' ! p) = Some n \<and> m_socket (heap w' ! p) \<noteq> None"
proof -
  obtain s where "ns_new_socket E (history w @ [SocketCreate (Some n)]) = Some s"
    using assms(1) unfolding ns3_laws_def by (meson not_None_eq)
  then show ?thesis
    using assms(2,3) by (simp add: create_socket_def with_agent_def put_agent_def Let_def)
qed

lemma Bind_ready:
  assumes "p < length (heap w)" and "iic (heap w ! p) \<noteq> []" and "m_socket (heap w ! p) \<noteq> None"
  shows "\<exists>r w'. Bind E p port w = Inr (r, w') \<and> iic (heap w' ! p) = iic (heap w ! p) \<and>
    m_node (heap w' ! p) = m_node (heap w ! p) \<and> m_socket (heap w' ! p) \<noteq> None"
  using assms by (auto simp: Bind_def GetAddress_def with_agent_def vec_index_def put_agent_def Let_def)

lemma socket_bind_ready:
  assumes "ns3_laws E" and "p < length (heap w)" and "m_node (heap w ! p) = Some n"
    and "iic (heap w ! p) \<noteq> []" and "ns_has_mobility E (history w) n"
  shows "\<exists>w1 r w2. create_socket E p w = Inr w1 \<and> Bind E p port w1 = Inr (r, w2) \<and> ready E w2 p"
proof -
  obtain w1 where w1: "create_socket E p w = Inr w1" "iic (heap w1 ! p) = iic (heap w ! p)"
      "m_node (heap w1 ! p) = Some n" "m_socket (heap w1 ! p) \<noteq> None"
    using create_socket_ready [OF assms(1-3)] by blast
  have same: "same_agents p w w1" using w1(1) by (rule create_socket_same)
  then have p1: "p < length (heap w1)" using assms(2) by (simp add: same_agents_def)
  then obtain r w2 where w2: "Bind E p port w1 = Inr (r, w2)" "iic (heap w2 ! p) = iic (heap w ! p)"
      "m_node (heap w2 ! p) = Some n" "m_socket (heap w2 ! p) \<noteq> None"
    using Bind_ready [of p w1 E port] w1 assms(4) by auto
  have "same_agents p w w2" using same Bind_same [OF w2(1)] by (rule same_agents_trans)
  then have "p < length (heap w2)" "ns_has_mobility E (history w2) n"
    using assms(1,2,5) by (auto simp: same_agents_def mobility_stays)
  with w1(1) w2 assms(4) show ?thesis by (auto simp: ready_def)
qed

lemma agent_init_ready:
  assumes laws: "ns3_laws E" and p: "p < length (heap w)"
  shows "\<exists>w'. agent_init E nd p w = Inr w' \<and> ready E w' p"
proof -
  obtain n w1 where nw: "node_for E nd w = (n, w1)" by (cases "node_for E nd w")
  have heap1: "heap w1 = heap w" using node_for_same [OF nw] by simp
  define nodes where "nodes = nc (heap w ! p) @ [n]"
  define w2 where "w2 = wifi_call E nodes w1"
  define ds where "ds = ns_devices E (history w2)"
  define w4 where "w4 = call (AddressAssign ds) (call (InternetInstall nodes) (call (MobilityInstall nodes) w2))"
  define ifs where "ifs = ns_interfaces E (history w4)"
  define w5 where "w5 = put_agent p ((heap w ! p)\<lparr>m_isa := None, nc := nodes, ndc := ds, iic := ifs,
    m_node := Some (nodes ! 0)\<rparr>) w4"
  have law: "ds \<noteq> [] \<Longrightarrow> ns_interfaces E (h @ [AddressAssign ds]) \<noteq> []" for h ds
    using laws by (simp add: ns3_laws_def)
  have "nodes \<noteq> []" by (simp add: nodes_def)
  then have "ds \<noteq> []" using laws by (simp add: ns3_laws_def ds_def w2_def)
  then have ifs: "ifs \<noteq> []" unfolding ifs_def w4_def history_call by (rule law)
  have "nodes ! 0 \<in> set nodes" by (rule nth_mem) (simp add: nodes_def)
  then have mob: "ns_has_mobility E (history w5) (nodes ! 0)"
    using laws by (simp add: ns3_laws_def w5_def put_agent_def w4_def) blast
  have h5: "heap w5 = (heap w)[p := (heap w ! p)\<lparr>m_isa := None, nc := nodes, ndc := ds, iic := ifs,
      m_node := Some (nodes ! 0)\<rparr>]"
    by (simp add: w5_def put_agent_def w4_def w2_def heap1)
  obtain w6 r w7 where "create_socket E p w5 = Inr w6" "Bind E p 80 w6 = Inr (r, w7)" "ready E w7 p"
    using socket_bind_ready [OF laws, of p w5 "nodes ! 0" 80] p mob ifs by (auto simp: h5)
  moreover from this have "agent_init E nd p w = Inr w7"
    using p nw \<open>nodes \<noteq> []\<close>
    by (simp add: agent_init_def with_agent_def BaseWifi_Install_def BaseMobility_Install_def
        BaseIP_Install_def BaseIP_Install_ip_def BaseIP_Install_inet_def Let_def vec_index_def w5_def ifs_def w4_def ds_def w2_def nodes_def)
  ultimately show ?thesis by blast
qed

text \<open>A ready agent can be moved, and can send to another ready agent.\<close>

lemma SetPosition_ready: "ready E w p \<Longrightarrow> \<exists>w'. SetPosition E p v w = Inr w'"
  by (auto simp: ready_def SetPosition_Inr)

lemma SendTo_ready:
  assumes "ready E w p" and "ready E w q"
  shows "\<exists>r w'. SendTo E p (Some q) pkt w = Inr (r, w')"
  using assms by (auto simp: ready_def SendTo_def GetAddress_def with_agent_def vec_index_def Let_def)

end
