(* ===== verification/Handlers.thy ===== *)
theory Handlers
  imports Agents
begin

text \<open>
  model/message/handlers.h and .cc: the lookup of a handler by message type and the five
  handlers. The locale \<open>handler\<close> is the contract between a handler and the broker's loop:
  a handler keeps an invariant of the state, and stays inside a frame. Its client lemma
  carries both over the handling of any sequence of messages.
\<close>

section \<open>Lookup\<close>

datatype Handler =
    AllLocationHandler
  | AgentsInfoHandler
  | NullHandler
  | OpaqueSendHandler
  | InvalidHandler

definition new_HandlerLookup :: "(string, Handler) smap" where
  "new_HandlerLookup = fold (\<lambda>(k, h). map_put k h)
     [(''all_locations'', AllLocationHandler),
      (''new_agents'', AgentsInfoHandler),
      (''ticked_simmob'', NullHandler),
      (''opaque_send'', OpaqueSendHandler),
      (''MULTICAST'', InvalidHandler),
      (''UNICAST'', InvalidHandler)] []"

definition getHandler :: "(string, Handler) smap \<Rightarrow> string \<Rightarrow> Handler outcome" where
  "getHandler HandlerMap msgType =
     (case map_of HandlerMap msgType of
        Some h \<Rightarrow> Inr h
      | None \<Rightarrow> throw ''Unknown handler for message type.'')"

section \<open>The handlers\<close>

definition add_one_agent :: "env \<Rightarrow> string \<Rightarrow> 'z agent_world_scheme \<Rightarrow> 'z agent_world_scheme outcome" where
  "add_one_agent E agId w =
     (let (p, w1) = create_object (new_Agent agId None) w in
      ebind (init E None p w1) (\<lambda>w2. Inr (AddAgent agId (Some p) w2)))"

definition AgentsInfo_handle ::
  "env \<Rightarrow> MessageConglomerate \<Rightarrow> int \<Rightarrow> 'z agent_world_scheme \<Rightarrow> 'z agent_world_scheme outcome" where
  "AgentsInfo_handle E msgs msgNumber w =
     ebind (parseNewAgents (lib E) msgs msgNumber) (\<lambda>aInfo.
     ebind (fold_outcome (add_one_agent E) (addAgentIds aInfo) w) (\<lambda>w1.
     fold_outcome RemoveAgent (remAgentIds aInfo) w1))"

definition locate_one :: "env \<Rightarrow> string \<times> DPoint \<Rightarrow> 'z agent_world_scheme \<Rightarrow> 'z agent_world_scheme outcome" where
  "locate_one E it w =
     (case map_of (AllAgents w) (fst it) of
        None \<Rightarrow> Inr w
      | Some agent \<Rightarrow> (case agent of
          None \<Rightarrow> Inr w
        | Some this \<Rightarrow> SetPosition E this (dp_x (snd it), dp_y (snd it), 0) w))"

definition AllLocation_handle ::
  "env \<Rightarrow> MessageConglomerate \<Rightarrow> int \<Rightarrow> 'z agent_world_scheme \<Rightarrow> 'z agent_world_scheme outcome" where
  "AllLocation_handle E msgs msgNumber w =
     ebind (parseAllLocations (lib E) msgs msgNumber) (\<lambda>aInfo.
     fold_outcome (locate_one E) (agentLocations aInfo) w)"

text \<open>One recipient: \<open>res\<close> is declared outside the loop and keeps its members.\<close>

definition send_one ::
  "env \<Rightarrow> nat \<Rightarrow> string \<Rightarrow> json \<times> 'z agent_world_scheme \<Rightarrow> (json \<times> 'z agent_world_scheme) outcome" where
  "send_one E sending_agent toId s = (case s of (res, w) \<Rightarrow>
     ebind (js_set (lib E) res ''to_id'' (stringValue toId)) (\<lambda>res1.
     ebind (get_string (lib E) res1 ''to_id'') (\<lambda>rid.
     let (receiving_agent, w1) = getAgent rid w in
     if receiving_agent = None then Inr (res1, w1) else
     let str = write_line (lib E) (\<not> NEW_BUNDLES) res1 in
     ebind (SendTo E sending_agent receiving_agent str w1) (\<lambda>(_, w2). Inr (res1, w2)))))"

definition OpaqueSend_handle ::
  "env \<Rightarrow> MessageConglomerate \<Rightarrow> int \<Rightarrow> 'z agent_world_scheme \<Rightarrow> 'z agent_world_scheme outcome" where
  "OpaqueSend_handle E msgs msgNumber w =
     ebind (parseOpaqueSend (lib E) msgs msgNumber) (\<lambda>osMsg.
     ebind (set_all (lib E) nullValue
              [(''msg_type'', stringValue ''opaque_receive''),
               (''from_id'', stringValue (fromId osMsg)),
               (''data'', stringValue (os_data osMsg))]) (\<lambda>res.
     ebind (get_string (lib E) res ''from_id'') (\<lambda>sid.
     let (sending_agent, w1) = getAgent sid w in
     case sending_agent of
       None \<Rightarrow> Inr w1
     | Some this \<Rightarrow>
         ebind (fold_outcome (send_one E this) (toIds osMsg) (res, w1)) (\<lambda>(_, w2). Inr w2))))"

text \<open>The virtual \<open>handle\<close>.\<close>

definition handle ::
  "env \<Rightarrow> Handler \<Rightarrow> MessageConglomerate \<Rightarrow> int \<Rightarrow> 'z agent_world_scheme \<Rightarrow> 'z agent_world_scheme outcome" where
  "handle E h msgs msgNumber w = (case h of
       AllLocationHandler \<Rightarrow> AllLocation_handle E msgs msgNumber w
     | AgentsInfoHandler \<Rightarrow> AgentsInfo_handle E msgs msgNumber w
     | NullHandler \<Rightarrow> Inr w
     | OpaqueSendHandler \<Rightarrow> OpaqueSend_handle E msgs msgNumber w
     | InvalidHandler \<Rightarrow> throw ''Attempting to use an invalid message (probably MULTICAST or UNICAST, which were replaced with OPAQUE_SEND and OPAQUE_RECEIVE).'')"

section \<open>The contract of a handler\<close>

locale handler =
  fixes act :: "'h \<Rightarrow> MessageConglomerate \<Rightarrow> int \<Rightarrow> 'w \<Rightarrow> 'w outcome"
    and inv :: "'w \<Rightarrow> bool"
    and frame :: "'w \<Rightarrow> 'w \<Rightarrow> bool"
  assumes act_inv: "inv w \<Longrightarrow> act h c i w = Inr w' \<Longrightarrow> inv w'"
    and act_frame: "act h c i w = Inr w' \<Longrightarrow> frame w w'"
    and frame_refl: "frame w w"
    and frame_trans: "frame u v \<Longrightarrow> frame v w \<Longrightarrow> frame u w"
begin

text \<open>The loop over the messages of a bundle, each with the handler its type selects.\<close>

definition act_all ::
  "(string \<Rightarrow> 'h outcome) \<Rightarrow> MessageConglomerate \<Rightarrow> int list \<Rightarrow> 'w \<Rightarrow> 'w outcome" where
  "act_all lookup c is w = fold_outcome (\<lambda>i w.
     ebind (getBaseMessage c i) (\<lambda>b. ebind (lookup (msg_type b)) (\<lambda>h. act h c i w))) is w"

lemma act_all_inv: "inv w \<Longrightarrow> act_all lookup c is w = Inr w' \<Longrightarrow> inv w'"
  unfolding act_all_def
  by (rule fold_outcome_invariant [where P = inv]) (auto simp: outcome_simps intro: act_inv)

lemma act_all_frame: "act_all lookup c is w = Inr w' \<Longrightarrow> frame w w'"
  unfolding act_all_def
  by (rule fold_outcome_invariant [where P = "frame w"])
    (auto simp: outcome_simps frame_refl, metis act_frame frame_trans)

text \<open>A message whose type has no handler ends the loop with the lookup's error.\<close>

lemma act_all_unknown:
  assumes "act_all lookup c is w = Inr w1" and "getBaseMessage c i = Inr b" and "lookup (msg_type b) = Inl e"
  shows "act_all lookup c (is @ i # js) w = Inl e"
  using assms by (simp add: act_all_def fold_outcome_append)

end

section \<open>The agents that a message adds and removes\<close>

lemma add_one_agent_step:
  assumes "add_one_agent E a w = Inr w'"
  obtains w2 where "agent_init E None (length (heap w)) (w\<lparr>heap := heap w @ [new_Agent a None]\<rparr>) = Inr w2"
    and "w' = AddAgent a (Some (length (heap w))) w2"
    and "same_agents (length (heap w)) (w\<lparr>heap := heap w @ [new_Agent a None]\<rparr>) w2"
  using assms
  by (auto simp: add_one_agent_def create_object_def init_def with_agent_def outcome_simps new_Agent_def
      dest: agent_init_same)

lemma add_one_agent_only: "add_one_agent E a w = Inr w' \<Longrightarrow> agents_only w w'"
  by (erule add_one_agent_step)
    (auto simp: agents_only_def AddAgent_def dest!: same_agents_only)

lemma add_one_agent_ok:
  assumes "agents_ok w" and "add_one_agent E a w = Inr w'"
  shows "agents_ok w'"
  using assms(2)
proof (rule add_one_agent_step)
  fix w2
  let ?w1 = "w\<lparr>heap := heap w @ [new_Agent a None]\<rparr>"
  assume w': "w' = AddAgent a (Some (length (heap w))) w2" and same: "same_agents (length (heap w)) ?w1 w2"
  have "agents_ok w2" using create_object_ok [OF assms(1)] same by (rule agents_ok_same)
  moreover have "length (heap w) < length (heap w2)" "m_AgentId (heap w2 ! length (heap w)) = a"
    using same by (simp_all add: same_agents_def new_Agent_def)
  ultimately show ?thesis unfolding w' by (rule AddAgent_ok)
qed

lemma add_one_agent_ready:
  assumes laws: "ns3_laws E" and "agents_ok w" and "all_ready E w"
  shows "\<exists>w'. add_one_agent E a w = Inr w' \<and> all_ready E w'"
proof -
  let ?p = "length (heap w)" and ?w1 = "w\<lparr>heap := heap w @ [new_Agent a None]\<rparr>"
  obtain w2 where w2: "agent_init E None ?p ?w1 = Inr w2" "ready E w2 ?p"
    using agent_init_ready [OF laws, of ?p ?w1 None] by auto
  have same: "same_agents ?p ?w1 w2" using w2(1) by (rule agent_init_same)
  have old: "ready E w2 q" if "map_of (AllAgents w) k = Some (Some q)" for k q
  proof -
    have "q < ?p" using assms(2) that by (auto simp: agents_ok_def)
    moreover have "ready E w q" using assms(3) that by (simp add: all_ready_def)
    ultimately have "ready E ?w1 q" by (simp add: ready_def nth_append)
    with \<open>q < ?p\<close> show ?thesis using ready_same [OF laws _ same] by simp
  qed
  have "map_ok (AllAgents w)" "AllAgents w2 = AllAgents w"
    using assms(2) same by (simp_all add: agents_ok_def same_agents_def)
  then have "all_ready E (AddAgent a (Some ?p) w2)"
    using w2(2) old by (auto simp: all_ready_def AddAgent_def map_of_insert ready_def split: if_splits)
  moreover have "add_one_agent E a w = Inr (AddAgent a (Some ?p) w2)"
    using w2(1) by (simp add: add_one_agent_def create_object_def init_def with_agent_def new_Agent_def)
  ultimately show ?thesis by blast
qed

text \<open>Ids that are known stay as they are; new ids get a new agent.\<close>

lemma add_agents_effect:
  assumes "fold_outcome (add_one_agent E) ids w = Inr w'" and "agents_ok w"
  shows "map_of (AllAgents w) k \<noteq> None \<Longrightarrow> map_of (AllAgents w') k = map_of (AllAgents w) k"
    and "map_of (AllAgents w) k = None \<Longrightarrow> k \<notin> set ids \<Longrightarrow> map_of (AllAgents w') k = None"
    and "map_of (AllAgents w) k = None \<Longrightarrow> k \<in> set ids \<Longrightarrow>
           \<exists>p \<ge> length (heap w). map_of (AllAgents w') k = Some (Some p)"
proof -
  have "(map_of (AllAgents w) k \<noteq> None \<longrightarrow> map_of (AllAgents w') k = map_of (AllAgents w) k) \<and>
    (map_of (AllAgents w) k = None \<longrightarrow>
       (if k \<in> set ids then \<exists>p \<ge> length (heap w). map_of (AllAgents w') k = Some (Some p)
        else map_of (AllAgents w') k = None))"
    using assms
  proof (induction ids arbitrary: w)
    case Nil
    then show ?case by simp
  next
    case (Cons a ids)
    from Cons.prems(1) obtain v where v: "add_one_agent E a w = Inr v" "fold_outcome (add_one_agent E) ids v = Inr w'"
      by (auto simp: outcome_simps)
    have step: "map_of (AllAgents v) k =
        (if k = a \<and> map_of (AllAgents w) k = None then Some (Some (length (heap w))) else map_of (AllAgents w) k)"
      using v(1) by (rule add_one_agent_step)
        (use Cons.prems(2) in \<open>auto simp: agents_ok_def AddAgent_def map_of_insert same_agents_def\<close>)
    have heap: "length (heap w) \<le> length (heap v)"
      using v(1) by (rule add_one_agent_step) (auto simp: AddAgent_def same_agents_def)
    have "agents_ok v" using Cons.prems(2) v(1) by (rule add_one_agent_ok)
    from Cons.IH [OF v(2) this] show ?case
      unfolding step using heap by (cases "k = a"; cases "map_of (AllAgents w) k") (auto intro: order_trans)
  qed
  then show "map_of (AllAgents w) k \<noteq> None \<Longrightarrow> map_of (AllAgents w') k = map_of (AllAgents w) k"
    and "map_of (AllAgents w) k = None \<Longrightarrow> k \<notin> set ids \<Longrightarrow> map_of (AllAgents w') k = None"
    and "map_of (AllAgents w) k = None \<Longrightarrow> k \<in> set ids \<Longrightarrow>
           \<exists>p \<ge> length (heap w). map_of (AllAgents w') k = Some (Some p)"
    by simp_all
qed

lemma remove_agents_effect:
  assumes "fold_outcome RemoveAgent ids w = Inr w'" and "agents_ok w"
  shows "map_of (AllAgents w') k = (if k \<in> set ids then None else map_of (AllAgents w) k)"
  using assms
proof (induction ids arbitrary: w)
  case (Cons a ids)
  from Cons.prems(1) obtain v where v: "RemoveAgent a w = Inr v" "fold_outcome RemoveAgent ids v = Inr w'"
    by (auto simp: outcome_simps)
  have "map_of (AllAgents v) k = (if k = a then None else map_of (AllAgents w) k)"
    using v(1) Cons.prems(2) by (auto simp: RemoveAgent_Inr agents_ok_def map_of_erase)
  with Cons.IH [OF v(2) RemoveAgent_ok [OF Cons.prems(2) v(1)]] show ?case by (cases "k = a") simp_all
qed simp

lemma remove_agents_defined:
  assumes "agents_ok w"
  shows "(\<exists>w'. fold_outcome RemoveAgent ids w = Inr w') \<longleftrightarrow> (\<forall>k \<in> set ids. map_of (AllAgents w) k \<noteq> Some None)"
  using assms
proof (induction ids arbitrary: w)
  case (Cons a ids)
  show ?case
  proof (cases "RemoveAgent a w")
    case (Inl e)
    have "map_of (AllAgents w) a = Some None"
      using Inl by (auto simp: RemoveAgent_def deref_def Let_def split: option.splits)
    with Inl show ?thesis by auto
  next
    case (Inr v)
    have "map_of (AllAgents w) a \<noteq> Some None" using Inr by (auto simp: RemoveAgent_Inr)
    moreover have "map_of (AllAgents v) k = (if k = a then None else map_of (AllAgents w) k)" for k
      using Inr Cons.prems by (auto simp: RemoveAgent_Inr agents_ok_def map_of_erase)
    ultimately show ?thesis
      using Inr Cons.IH [OF RemoveAgent_ok [OF Cons.prems Inr]] by auto
  qed
qed simp

section \<open>The agents that a message moves\<close>

text \<open>What a location does to the simulation: nothing for an unknown agent or a null one.\<close>

definition moves :: "'z agent_world_scheme \<Rightarrow> string \<times> DPoint \<Rightarrow> event list" where
  "moves w it = (case map_of (AllAgents w) (fst it) of
     Some (Some p) \<Rightarrow> (case m_node (heap w ! p) of
         Some n \<Rightarrow> [PositionSet n (dp_x (snd it), dp_y (snd it), 0)] | None \<Rightarrow> [])
   | _ \<Rightarrow> [])"

lemma moves_history [simp]: "moves (w\<lparr>history := h\<rparr>) it = moves w it"
  by (simp add: moves_def split: option.split)

lemma locate_one_Inr: "locate_one E it w = Inr w' \<Longrightarrow> w' = w\<lparr>history := history w @ moves w it\<rparr>"
  by (auto simp: locate_one_def moves_def SetPosition_Inr call_def split: option.splits)

lemma locate_all_Inr:
  "fold_outcome (locate_one E) locs w = Inr w' \<Longrightarrow>
     w' = w\<lparr>history := history w @ concat (map (moves w) locs)\<rparr>"
proof (induction locs arbitrary: w)
  case (Cons it locs)
  then obtain v where v: "locate_one E it w = Inr v" "fold_outcome (locate_one E) locs v = Inr w'"
    by (auto simp: outcome_simps)
  have "moves v = moves w" using locate_one_Inr [OF v(1)] by (simp add: fun_eq_iff)
  with Cons.IH [OF v(2)] locate_one_Inr [OF v(1)] show ?case by simp
qed simp

lemma locate_one_same: "locate_one E it w = Inr w' \<Longrightarrow> same_agents q w w'"
  by (auto simp: locate_one_def split: option.splits intro: SetPosition_same)

lemma locate_one_ready: "all_ready E w \<Longrightarrow> \<exists>w'. locate_one E it w = Inr w'"
  by (auto simp: locate_one_def all_ready_def split: option.splits intro: SetPosition_ready)

lemma locate_all_ready:
  assumes "ns3_laws E" and "all_ready E w"
  shows "\<exists>w'. fold_outcome (locate_one E) locs w = Inr w'"
  using assms(2)
proof (induction locs arbitrary: w)
  case (Cons it locs)
  obtain v where v: "locate_one E it w = Inr v" using locate_one_ready [OF Cons.prems] by blast
  have "all_ready E v" using assms(1) Cons.prems locate_one_same [OF v] by (rule all_ready_same)
  with Cons.IH v show ?case by auto
qed simp

section \<open>What an opaque message sends\<close>

text \<open>Looking an id up gives an unknown id a null entry.\<close>

definition looked_up :: "string \<Rightarrow> 'z agent_world_scheme \<Rightarrow> (string, ptr) smap" where
  "looked_up a w = (if map_of (AllAgents w) a = None then map_put a None (AllAgents w) else AllAgents w)"

lemma getAgent_looked_up: "snd (getAgent a w) = w\<lparr>AllAgents := looked_up a w\<rparr>"
  by (cases "map_of (AllAgents w) a") (simp_all add: getAgent_known getAgent_unknown looked_up_def)

definition known :: "'z agent_world_scheme \<Rightarrow> string \<Rightarrow> bool" where
  "known w a \<longleftrightarrow> (\<exists>p. map_of (AllAgents w) a = Some (Some p))"

text \<open>The addresses that the sockets were connected to, and the number of packets sent.\<close>

fun connects :: "history \<Rightarrow> (socket \<times> address \<times> int) list" where
  "connects [] = []"
| "connects (SocketConnect s a # h) = (s, a) # connects h"
| "connects (_ # h) = connects h"

fun sends :: "history \<Rightarrow> (socket \<times> packet) list" where
  "sends [] = []"
| "sends (SocketSend s p # h) = (s, p) # sends h"
| "sends (_ # h) = sends h"

lemma connects_append: "connects (h @ h') = connects h @ connects h'"
  by (induction h rule: connects.induct) simp_all

lemma sends_append: "sends (h @ h') = sends h @ sends h'"
  by (induction h rule: sends.induct) simp_all

lemma SendTo_Inr:
  assumes "SendTo E p (Some q) pkt w = Inr (r, w')"
  obtains i ifs s where "iic (heap w ! q) = i # ifs" and "m_socket (heap w ! p) = Some s"
    and "w' = w\<lparr>history := history w @ [SocketConnect s (ns_address E i, 80), SocketSend s pkt],
                global_pckt_cnt := global_pckt_cnt w + 1\<rparr>"
proof -
  have "iic (heap w ! q) \<noteq> []" using assms
    by (auto simp: SendTo_def GetAddress_def access_simps vec_index_def split: if_splits)
  then obtain i ifs where "iic (heap w ! q) = i # ifs" by (cases "iic (heap w ! q)") auto
  then show thesis
    using assms that by (auto simp: SendTo_def GetAddress_def access_simps vec_index_def Let_def call_def
        split: option.splits if_splits)
qed

lemma send_one_steps:
  assumes "send_one E p t (res, w) = Inr (res', w')"
  obtains rid r w1 where "js_set (lib E) res ''to_id'' (stringValue t) = Inr res'"
    and "get_string (lib E) res' ''to_id'' = Inr rid" and "getAgent rid w = (r, w1)"
    and "(r = None \<and> w' = w1) \<or> (\<exists>q n. r = Some q \<and> SendTo E p r (write_line (lib E) False res') w1 = Inr (n, w'))"
proof -
  let ?rest = "\<lambda>res1 rid. let (receiving_agent, w1) = getAgent rid w in
     if receiving_agent = None then Inr (res1, w1) else
     let str = write_line (lib E) (\<not> NEW_BUNDLES) res1 in
     ebind (SendTo E p receiving_agent str w1) (\<lambda>(_, w2). Inr (res1, w2))"
  from assms obtain res1 rid where 1: "js_set (lib E) res ''to_id'' (stringValue t) = Inr res1"
      "get_string (lib E) res1 ''to_id'' = Inr rid" and rest: "?rest res1 rid = Inr (res', w')"
    by (auto simp only: send_one_def prod.case ebind_eq_Inr)
  obtain r w1 where g: "getAgent rid w = (r, w1)" by (cases "getAgent rid w")
  show thesis
  proof (cases r)
    case None
    with rest g have "res' = res1" "w' = w1" by simp_all
    with that 1 g None show thesis by blast
  next
    case (Some q)
    with rest g have "ebind (SendTo E p (Some q) (write_line (lib E) False res1) w1) (\<lambda>(_, w2). Inr (res1, w2))
        = Inr (res', w')"
      by (simp add: NEW_BUNDLES_def)
    then obtain n where "SendTo E p (Some q) (write_line (lib E) False res1) w1 = Inr (n, w')" "res' = res1"
      by (auto simp only: ebind_eq_Inr split: prod.splits)
    with that 1 g Some show thesis by blast
  qed
qed

text \<open>One recipient: nothing for an unknown one, one packet with the message otherwise.\<close>

lemma send_one_Inr:
  assumes J: "json_doc (lib E)" and res: "is_object res m"
    and step: "send_one E p t (res, w) = Inr (res', w')"
  shows "is_object res' (m(''to_id'' \<mapsto> stringValue t)) \<and>
    (if known w t then \<exists>q s i. map_of (AllAgents w) t = Some (Some q) \<and> m_socket (heap w ! p) = Some s \<and>
         i = hd (iic (heap w ! q)) \<and>
         w' = w\<lparr>history := history w @ [SocketConnect s (ns_address E i, 80), SocketSend s (write_line (lib E) False res')],
                global_pckt_cnt := global_pckt_cnt w + 1\<rparr>
     else w' = w\<lparr>AllAgents := looked_up t w\<rparr>)"
  using step
proof (rule send_one_steps)
  fix rid r w1
  assume set: "js_set (lib E) res ''to_id'' (stringValue t) = Inr res'"
    and get: "get_string (lib E) res' ''to_id'' = Inr rid" and look: "getAgent rid w = (r, w1)"
    and alt: "(r = None \<and> w' = w1) \<or> (\<exists>q n. r = Some q \<and> SendTo E p r (write_line (lib E) False res') w1 = Inr (n, w'))"
  have obj: "is_object res' (m(''to_id'' \<mapsto> stringValue t))"
    using json_set [OF J is_object_members [OF res]] set by (metis sum.inject(2))
  then have "get_string (lib E) res' ''to_id'' = Inr t"
    using json_get_string [OF J is_object_members] by simp
  with get have rid: "rid = t" by simp
  show ?thesis
  proof (cases "known w t")
    case True
    then obtain q where q: "map_of (AllAgents w) t = Some (Some q)" by (auto simp: known_def)
    with look rid have "r = Some q" "w1 = w" by (simp_all add: getAgent_known)
    with alt obtain n where "SendTo E p (Some q) (write_line (lib E) False res') w = Inr (n, w')" by blast
    then obtain i ifs s where w': "iic (heap w ! q) = i # ifs" "m_socket (heap w ! p) = Some s"
        "w' = w\<lparr>history := history w @ [SocketConnect s (ns_address E i, 80),
             SocketSend s (write_line (lib E) False res')], global_pckt_cnt := global_pckt_cnt w + 1\<rparr>"
      by (rule SendTo_Inr)
    have "i = hd (iic (heap w ! q))" using w'(1) by simp
    with True obj q w'(2,3) show ?thesis by metis
  next
    case False
    have "r = None" using False look rid getAgent_simps(1) [of t w]
      by (cases r) (auto simp: known_def split: option.splits)
    moreover have "w1 = w\<lparr>AllAgents := looked_up t w\<rparr>" using look rid getAgent_looked_up [of t w] by simp
    ultimately show ?thesis using False obj alt by simp
  qed
qed

lemma send_one_only:
  assumes "send_one E p t (res, w) = Inr (res', w')"
  shows "agents_only w w'"
  using assms
proof (rule send_one_steps)
  fix rid r w1
  assume look: "getAgent rid w = (r, w1)"
    and alt: "(r = None \<and> w' = w1) \<or> (\<exists>q n. r = Some q \<and> SendTo E p r (write_line (lib E) False res') w1 = Inr (n, w'))"
  have "agents_only w w1" using getAgent_only [of w rid] look by simp
  moreover have "agents_only w1 w'"
    using alt SendTo_same [where q = 0] same_agents_only by (metis agents_only_refl)
  ultimately show ?thesis by (rule agents_only_trans)
qed

text \<open>An invariant of the agents that both lookups and sends keep is one of the whole loop.\<close>

lemma send_one_keeps:
  assumes "send_one E p t (res, w) = Inr (res', w')"
    and "\<And>a w. P w \<Longrightarrow> P (snd (getAgent a w))" and "\<And>w w'. (\<And>q. same_agents q w w') \<Longrightarrow> P w \<Longrightarrow> P w'"
    and "P w"
  shows "P w'"
  using assms(1)
proof (rule send_one_steps)
  fix rid r w1
  assume look: "getAgent rid w = (r, w1)"
    and alt: "(r = None \<and> w' = w1) \<or> (\<exists>q n. r = Some q \<and> SendTo E p r (write_line (lib E) False res') w1 = Inr (n, w'))"
  have "P w1" using assms(2) [OF assms(4), of rid] look by simp
  with alt assms(3) SendTo_same show ?thesis by metis
qed

lemma send_one_ok: "agents_ok w \<Longrightarrow> send_one E p t (res, w) = Inr (res', w') \<Longrightarrow> agents_ok w'"
  by (erule send_one_keeps [where P = agents_ok]) (auto intro: getAgent_ok agents_ok_same)

lemma send_one_ready:
  assumes "ns3_laws E" and "agents_ok w" and "all_ready E w" and "send_one E p t (res, w) = Inr (res', w')"
  shows "all_ready E w'"
  using send_one_keeps [OF assms(4), of "\<lambda>w. agents_ok w \<and> all_ready E w"] assms(1-3)
  by (auto intro: getAgent_ok getAgent_ready agents_ok_same all_ready_same)

definition agent_of :: "'z agent_world_scheme \<Rightarrow> string \<Rightarrow> Agent" where
  "agent_of w a = heap w ! the (the (map_of (AllAgents w) a))"

lemma send_one_known:
  assumes ok: "agents_ok w" and J: "json_doc (lib E)" and res: "is_object res m"
    and step: "send_one E p t (res, w) = Inr (res', w')"
  shows "known w' = known w" and "\<And>a. known w a \<Longrightarrow> agent_of w' a = agent_of w a" and "heap w' = heap w"
proof -
  have map: "map_of (looked_up t w) = (if map_of (AllAgents w) t = None then (map_of (AllAgents w))(t \<mapsto> None)
      else map_of (AllAgents w))"
    using ok by (simp add: looked_up_def agents_ok_def map_of_put)
  have "w' = w\<lparr>AllAgents := looked_up t w\<rparr> \<or> AllAgents w' = AllAgents w \<and> heap w' = heap w"
    using send_one_Inr [OF J res step] by (auto split: if_splits)
  then show "known w' = known w" "\<And>a. known w a \<Longrightarrow> agent_of w' a = agent_of w a" "heap w' = heap w"
    by (auto simp: known_def agent_of_def fun_eq_iff map split: if_splits)
qed

text \<open>
  The loop over the recipients: the known ones are sent to, in order, each at its own
  address and with the message that names it; the others get nothing.
\<close>

definition message_for :: "env \<Rightarrow> (string \<rightharpoonup> json) \<Rightarrow> string \<Rightarrow> packet \<Rightarrow> bool" where
  "message_for E m t pkt \<longleftrightarrow>
     (\<exists>v. is_object v (m(''to_id'' \<mapsto> stringValue t)) \<and> pkt = write_line (lib E) False v)"

lemma send_all_Inr:
  assumes J: "json_doc (lib E)"
    and loop: "fold_outcome (send_one E p) ts (res, w) = Inr (res', w')"
    and ok: "agents_ok w" and res: "is_object res m"
  shows "\<exists>ps. sends (history w') = sends (history w) @ map (Pair (the (m_socket (heap w ! p)))) ps \<and>
      list_all2 (message_for E m) (filter (known w) ts) ps"
    and "connects (history w') = connects (history w) @
      map (\<lambda>t. (the (m_socket (heap w ! p)), ns_address E (hd (iic (agent_of w t))), 80)) (filter (known w) ts)"
    and "global_pckt_cnt w' = global_pckt_cnt w + of_nat (length (filter (known w) ts))"
proof -
  have "(\<exists>ps. sends (history w') = sends (history w) @ map (Pair (the (m_socket (heap w ! p)))) ps \<and>
      list_all2 (message_for E m) (filter (known w) ts) ps) \<and>
    connects (history w') = connects (history w) @
      map (\<lambda>t. (the (m_socket (heap w ! p)), ns_address E (hd (iic (agent_of w t))), 80)) (filter (known w) ts) \<and>
    global_pckt_cnt w' = global_pckt_cnt w + of_nat (length (filter (known w) ts))"
    using loop ok res
  proof (induction ts arbitrary: w res m)
    case Nil
    then show ?case by simp
  next
    case (Cons t ts)
    from Cons.prems(1) obtain res1 w1 where step: "send_one E p t (res, w) = Inr (res1, w1)"
      and rest: "fold_outcome (send_one E p) ts (res1, w1) = Inr (res', w')"
      by (auto simp: outcome_simps)
    note one = send_one_Inr [OF J Cons.prems(3) step]
    note same = send_one_known [OF Cons.prems(2) J Cons.prems(3) step]
    have obj: "is_object res1 (m(''to_id'' \<mapsto> stringValue t))" using one by blast
    have msg: "message_for E (m(''to_id'' \<mapsto> stringValue t)) = message_for E m"
      by (simp add: message_for_def fun_eq_iff)
    note IH = Cons.IH [OF rest send_one_ok [OF Cons.prems(2) step] obj, unfolded msg same(1) same(3)]
    have addrs: "map (\<lambda>t. (s, ns_address E (hd (iic (agent_of w1 t))), 80)) (filter (known w) ts) =
        map (\<lambda>t. (s, ns_address E (hd (iic (agent_of w t))), 80)) (filter (known w) ts)" for s :: socket
      using same(2) by simp
    show ?case
    proof (cases "known w t")
      case False
      then have "history w1 = history w" "global_pckt_cnt w1 = global_pckt_cnt w" using one by simp_all
      with False IH addrs show ?thesis by simp
    next
      case True
      then obtain q s where q: "map_of (AllAgents w) t = Some (Some q)" "m_socket (heap w ! p) = Some s"
        and w1: "w1 = w\<lparr>history := history w @ [SocketConnect s (ns_address E (hd (iic (heap w ! q))), 80),
             SocketSend s (write_line (lib E) False res1)], global_pckt_cnt := global_pckt_cnt w + 1\<rparr>"
        using one by auto
      have h: "sends (history w1) = sends (history w) @ [(s, write_line (lib E) False res1)]"
        "connects (history w1) = connects (history w) @ [(s, ns_address E (hd (iic (agent_of w t))), 80)]"
        "global_pckt_cnt w1 = global_pckt_cnt w + 1"
        by (simp_all add: w1 sends_append connects_append agent_of_def q)
      have "message_for E m t (write_line (lib E) False res1)" using obj by (auto simp: message_for_def)
      then obtain ps where ps: "sends (history w') = sends (history w) @ map (Pair s) (write_line (lib E) False res1 # ps)"
          "list_all2 (message_for E m) (filter (known w) (t # ts)) (write_line (lib E) False res1 # ps)"
        using IH True h(1) q(2) by auto
      have "connects (history w') = connects (history w) @
          map (\<lambda>t. (s, ns_address E (hd (iic (agent_of w t))), 80)) (filter (known w) (t # ts))"
        using IH True h(2) addrs q(2) by simp
      moreover have "global_pckt_cnt w' = global_pckt_cnt w + of_nat (length (filter (known w) (t # ts)))"
        using IH True h(3) by (simp add: algebra_simps)
      ultimately show ?thesis using ps q(2) by (auto simp only: option.sel)
    qed
  qed
  then show "\<exists>ps. sends (history w') = sends (history w) @ map (Pair (the (m_socket (heap w ! p)))) ps \<and>
      list_all2 (message_for E m) (filter (known w) ts) ps"
    and "connects (history w') = connects (history w) @
      map (\<lambda>t. (the (m_socket (heap w ! p)), ns_address E (hd (iic (agent_of w t))), 80)) (filter (known w) ts)"
    and "global_pckt_cnt w' = global_pckt_cnt w + of_nat (length (filter (known w) ts))"
    by blast+
qed

section \<open>The handlers meet the contract\<close>

lemma OpaqueSend_steps:
  assumes "OpaqueSend_handle E c i w = Inr w'"
  obtains a where "fst (getAgent a w) = None" and "w' = snd (getAgent a w)"
  | a p ts res res' where "getAgent a w = (Some p, snd (getAgent a w))"
      and "fold_outcome (send_one E p) ts (res, snd (getAgent a w)) = Inr (res', w')"
proof -
  from assms obtain os :: OpaqueSendMessage and res a where
    rest: "(let (sending_agent, w1) = getAgent a w in case sending_agent of
       None \<Rightarrow> Inr w1
     | Some this \<Rightarrow> ebind (fold_outcome (send_one E this) (toIds os) (res, w1)) (\<lambda>(_, w2). Inr w2)) = Inr w'"
    by (auto simp only: OpaqueSend_handle_def ebind_eq_Inr)
  obtain r w1 where g: "getAgent a w = (r, w1)" by (cases "getAgent a w")
  show thesis
  proof (cases r)
    case None
    with rest g show thesis by (intro that(1) [of a]) simp_all
  next
    case (Some p)
    with rest g obtain res' where "fold_outcome (send_one E p) (toIds os) (res, w1) = Inr (res', w')"
      by (auto simp: outcome_simps)
    with Some g show thesis by (intro that(2) [of a p "toIds os" res res']) simp_all
  qed
qed

lemma send_all_keeps:
  assumes "fold_outcome (send_one E p) ts (res, w) = Inr (res', w')" and "P w"
    and "\<And>t res w res' w'. send_one E p t (res, w) = Inr (res', w') \<Longrightarrow> P w \<Longrightarrow> P w'"
  shows "P w'"
  using fold_outcome_invariant [OF assms(1), of "\<lambda>s. P (snd s)"] assms(2,3) by fastforce

lemma OpaqueSend_only: "OpaqueSend_handle E c i w = Inr w' \<Longrightarrow> agents_only w w'"
proof (erule OpaqueSend_steps)
  fix a p ts res res'
  assume "fold_outcome (send_one E p) ts (res, snd (getAgent a w)) = Inr (res', w')"
  then show "agents_only w w'"
    by (rule send_all_keeps) (auto intro: getAgent_only agents_only_trans dest: send_one_only)
qed (simp add: getAgent_only)

lemma OpaqueSend_ok: "agents_ok w \<Longrightarrow> OpaqueSend_handle E c i w = Inr w' \<Longrightarrow> agents_ok w'"
proof (erule OpaqueSend_steps)
  fix a p ts res res'
  assume ok: "agents_ok w" and "fold_outcome (send_one E p) ts (res, snd (getAgent a w)) = Inr (res', w')"
  from this(2) show "agents_ok w'"
    by (rule send_all_keeps) (auto intro: getAgent_ok ok send_one_ok)
qed (simp add: getAgent_ok)

lemma OpaqueSend_ready:
  "ns3_laws E \<Longrightarrow> agents_ok w \<Longrightarrow> all_ready E w \<Longrightarrow> OpaqueSend_handle E c i w = Inr w' \<Longrightarrow> all_ready E w'"
proof (erule OpaqueSend_steps)
  fix a p ts res res'
  assume w: "ns3_laws E" "agents_ok w" "all_ready E w"
    and "fold_outcome (send_one E p) ts (res, snd (getAgent a w)) = Inr (res', w')"
  from this(4) have "agents_ok w' \<and> all_ready E w'"
    by (rule send_all_keeps [where P = "\<lambda>w. agents_ok w \<and> all_ready E w"])
      (use w in \<open>auto intro: getAgent_ok getAgent_ready send_one_ok send_one_ready\<close>)
  then show "all_ready E w'" by simp
qed (simp add: getAgent_ready)

lemma AllLocation_same: "AllLocation_handle E c i w = Inr w' \<Longrightarrow> same_agents q w w'"
  unfolding AllLocation_handle_def ebind_eq_Inr
  by (elim exE conjE) (rule fold_outcome_invariant [where P = "same_agents q w"],
      assumption, simp, metis locate_one_same same_agents_trans)

lemma AgentsInfo_steps:
  assumes "AgentsInfo_handle E c i w = Inr w'"
  obtains aInfo w1 where "parseNewAgents (lib E) c i = Inr aInfo"
    and "fold_outcome (add_one_agent E) (addAgentIds aInfo) w = Inr w1"
    and "fold_outcome RemoveAgent (remAgentIds aInfo) w1 = Inr w'"
  using assms by (auto simp: AgentsInfo_handle_def outcome_simps)

lemma add_agents_ok: "agents_ok w \<Longrightarrow> fold_outcome (add_one_agent E) ids w = Inr w' \<Longrightarrow> agents_ok w'"
  by (erule fold_outcome_invariant) (auto intro: add_one_agent_ok)

lemma remove_agents_ok: "agents_ok w \<Longrightarrow> fold_outcome RemoveAgent ids w = Inr w' \<Longrightarrow> agents_ok w'"
  by (erule fold_outcome_invariant) (auto intro: RemoveAgent_ok)

lemma AgentsInfo_ok: "agents_ok w \<Longrightarrow> AgentsInfo_handle E c i w = Inr w' \<Longrightarrow> agents_ok w'"
  by (erule AgentsInfo_steps) (blast intro: add_agents_ok remove_agents_ok)

lemma AgentsInfo_only: "AgentsInfo_handle E c i w = Inr w' \<Longrightarrow> agents_only w w'"
proof (erule AgentsInfo_steps)
  fix ids rids w1
  assume add: "fold_outcome (add_one_agent E) ids w = Inr w1" and rem: "fold_outcome RemoveAgent rids w1 = Inr w'"
  from add have "agents_only w w1"
    by (rule fold_outcome_invariant) (auto intro: agents_only_trans dest: add_one_agent_only)
  with rem show "agents_only w w'"
    by (rule fold_outcome_invariant) (auto intro: agents_only_trans dest: RemoveAgent_only)
qed

lemma add_agents_ready:
  assumes "ns3_laws E" and "agents_ok w" and "all_ready E w"
  shows "\<exists>w'. fold_outcome (add_one_agent E) ids w = Inr w' \<and> agents_ok w' \<and> all_ready E w'"
  using assms(2,3)
proof (induction ids arbitrary: w)
  case (Cons a ids)
  obtain v where "add_one_agent E a w = Inr v" "all_ready E v"
    using add_one_agent_ready [OF assms(1) Cons.prems] by blast
  with Cons.IH add_one_agent_ok [OF Cons.prems(1)] show ?case by auto
qed simp

lemma AgentsInfo_ready:
  assumes "ns3_laws E" and "agents_ok w" and "all_ready E w" and "AgentsInfo_handle E c i w = Inr w'"
  shows "all_ready E w'"
  using assms(4)
proof (rule AgentsInfo_steps)
  fix ids rids w1
  assume add: "fold_outcome (add_one_agent E) ids w = Inr w1" and rem: "fold_outcome RemoveAgent rids w1 = Inr w'"
  have "agents_ok w1 \<and> all_ready E w1" using add_agents_ready [OF assms(1-3), of ids] add by simp
  with rem have "agents_ok w' \<and> all_ready E w'"
    by (rule fold_outcome_invariant [where P = "\<lambda>w. agents_ok w \<and> all_ready E w"])
      (use assms(1) in \<open>auto intro: RemoveAgent_ok RemoveAgent_ready\<close>)
  then show ?thesis by simp
qed

lemma handle_ok: "agents_ok w \<Longrightarrow> handle E h c i w = Inr w' \<Longrightarrow> agents_ok w'"
  by (cases h) (auto simp: handle_def intro: AgentsInfo_ok OpaqueSend_ok agents_ok_same AllLocation_same)

lemma handle_only: "handle E h c i w = Inr w' \<Longrightarrow> agents_only w w'"
  by (cases h) (auto simp: handle_def intro: AgentsInfo_only OpaqueSend_only same_agents_only AllLocation_same)

lemma handle_ready:
  "ns3_laws E \<Longrightarrow> agents_ok w \<Longrightarrow> all_ready E w \<Longrightarrow> handle E h c i w = Inr w' \<Longrightarrow> all_ready E w'"
  by (cases h) (auto simp: handle_def intro: AgentsInfo_ready OpaqueSend_ready all_ready_same AllLocation_same)

interpretation handlers: handler "handle E" agents_ok agents_only for E
  by unfold_locales (auto intro: handle_ok handle_only agents_only_trans)

text \<open>The same contract with the stronger invariant, which holds when ns-3 keeps its laws.\<close>

interpretation ready_handlers: handler "handle E" "\<lambda>w. agents_ok w \<and> (ns3_laws E \<longrightarrow> all_ready E w)" agents_only for E
  by unfold_locales (auto intro: handle_ok handle_only handle_ready agents_only_trans)

section \<open>Sending between ready agents\<close>

lemma send_one_total:
  assumes J: "json_doc (lib E)" and res: "is_object res m" and ready: "all_ready E w" "ready E w p"
  shows "\<exists>res' w'. send_one E p t (res, w) = Inr (res', w')"
proof -
  obtain res1 where r1: "js_set (lib E) res ''to_id'' (stringValue t) = Inr res1"
      "is_object res1 (m(''to_id'' \<mapsto> stringValue t))"
    using json_set [OF J is_object_members [OF res]] by blast
  have rid: "get_string (lib E) res1 ''to_id'' = Inr t"
    using json_get_string [OF J is_object_members [OF r1(2)]] by simp
  show ?thesis
  proof (cases "known w t")
    case True
    then obtain q where q: "map_of (AllAgents w) t = Some (Some q)" by (auto simp: known_def)
    then have "ready E w q" using ready(1) by (simp add: all_ready_def)
    then obtain r w' where "SendTo E p (Some q) (write_line (lib E) (\<not> NEW_BUNDLES) res1) w = Inr (r, w')"
      using SendTo_ready [OF ready(2)] by blast
    then show ?thesis using r1(1) rid q by (simp add: send_one_def getAgent_known Let_def)
  next
    case False
    then have "fst (getAgent t w) = None" by (auto simp: getAgent_simps known_def split: option.splits)
    then show ?thesis using r1(1) rid by (cases "getAgent t w") (simp add: send_one_def)
  qed
qed

lemma send_all_total:
  assumes J: "json_doc (lib E)" and laws: "ns3_laws E"
  shows "is_object res m \<Longrightarrow> agents_ok w \<Longrightarrow> all_ready E w \<Longrightarrow> known w a \<Longrightarrow>
    map_of (AllAgents w) a = Some (Some p) \<Longrightarrow> \<exists>s. fold_outcome (send_one E p) ts (res, w) = Inr s"
proof (induction ts arbitrary: res m w)
  case (Cons t ts)
  have p: "ready E w p" using Cons.prems(3,5) by (simp add: all_ready_def)
  obtain res1 w1 where step: "send_one E p t (res, w) = Inr (res1, w1)"
    using send_one_total [OF J Cons.prems(1,3) p] by blast
  note one = send_one_Inr [OF J Cons.prems(1) step]
  have "map_of (AllAgents w1) a = Some (Some p)"
    using one Cons.prems(2,5)
    by (auto simp: looked_up_def agents_ok_def map_of_put split: if_splits)
  moreover have "known w1 a" using calculation by (simp add: known_def)
  ultimately have "\<exists>s. fold_outcome (send_one E p) ts (res1, w1) = Inr s"
    using Cons.IH one send_one_ok [OF Cons.prems(2) step] send_one_ready [OF laws Cons.prems(2,3) step] by blast
  with step show ?case by simp
qed simp

text \<open>What the handler does, from the message and the agents.\<close>

definition opaque_receive :: "OpaqueSendMessage \<Rightarrow> string \<rightharpoonup> json" where
  "opaque_receive os = map_of [(''data'', stringValue (os_data os)), (''from_id'', stringValue (fromId os)),
     (''msg_type'', stringValue ''opaque_receive'')]"

lemma OpaqueSend_eq:
  assumes J: "json_doc (lib E)" and parse: "parseOpaqueSend (lib E) c i = Inr os"
  shows "\<exists>res. is_object res (opaque_receive os) \<and>
    OpaqueSend_handle E c i w = (case getAgent (fromId os) w of (sending_agent, w1) \<Rightarrow>
      (case sending_agent of None \<Rightarrow> Inr w1
       | Some this \<Rightarrow> ebind (fold_outcome (send_one E this) (toIds os) (res, w1)) (\<lambda>(_, w2). Inr w2)))"
proof -
  obtain res where res: "set_all (lib E) nullValue
      [(''msg_type'', stringValue ''opaque_receive''), (''from_id'', stringValue (fromId os)),
       (''data'', stringValue (os_data os))] = Inr res" "is_object res (opaque_receive os)"
    using set_all_null [OF J, of "[(''msg_type'', stringValue ''opaque_receive''),
      (''from_id'', stringValue (fromId os)), (''data'', stringValue (os_data os))]"]
    by (auto simp: opaque_receive_def)
  have "get_string (lib E) res ''from_id'' = Inr (fromId os)"
    by (rule json_get_string [OF J is_object_members [OF res(2)]]) (simp add: opaque_receive_def)
  with parse res show ?thesis by (auto simp: OpaqueSend_handle_def Let_def)
qed

end
