(* ===== verification/Ts_Queue.thy ===== *)
theory Ts_Queue
  imports Std_Lib
begin

text \<open>
  model/thread_safe_queue.h: a queue whose operations each hold its mutex, so each is one
  atomic step of the model. The locale \<open>fifo\<close> is what its clients rely on (what a push
  adds, what a pop takes); inside it, a drained queue yields what was pushed, in order.
\<close>

record 'a ThreadSafeQueue =
  messageList :: "'a list"

definition new_ThreadSafeQueue :: "'a ThreadSafeQueue" where
  "new_ThreadSafeQueue = \<lparr>messageList = []\<rparr>"

definition push :: "'a \<Rightarrow> 'a ThreadSafeQueue \<Rightarrow> 'a ThreadSafeQueue" where
  "push item q = q\<lparr>messageList := messageList q @ [item]\<rparr>"

text \<open>\<open>pop(res)\<close>: the returned flag, the reference argument after the call, the queue.\<close>

definition pop :: "'a ThreadSafeQueue \<Rightarrow> 'a \<Rightarrow> bool \<times> 'a \<times> 'a ThreadSafeQueue" where
  "pop q res = (case messageList q of
     x # xs \<Rightarrow> (True, x, q\<lparr>messageList := xs\<rparr>)
   | [] \<Rightarrow> (False, res, q))"

definition queue_size :: "'a ThreadSafeQueue \<Rightarrow> int" where
  "queue_size q = to_int (int (length (messageList q)))"

definition clear :: "'a ThreadSafeQueue \<Rightarrow> 'a ThreadSafeQueue" where
  "clear q = q\<lparr>messageList := []\<rparr>"

section \<open>The contract of a queue\<close>

text \<open>One operation on a queue: an item put in, or an attempt to take one out.\<close>

datatype 'a queue_op = Enq 'a | Deq

text \<open>
  A sequence of operations from several threads: the items taken out, and the queue. The
  argument \<open>d\<close> is what the reference argument of a \<open>pop\<close> holds before the call.
\<close>

fun run_ops ::
  "('a \<Rightarrow> 'q \<Rightarrow> 'q) \<Rightarrow> ('q \<Rightarrow> 'a \<Rightarrow> bool \<times> 'a \<times> 'q) \<Rightarrow> 'a \<Rightarrow> 'a queue_op list \<Rightarrow> 'q \<Rightarrow> 'a list \<times> 'q" where
  "run_ops enq deq d [] q = ([], q)"
| "run_ops enq deq d (Enq x # ops) q = run_ops enq deq d ops (enq x q)"
| "run_ops enq deq d (Deq # ops) q =
     (case deq q d of (got, x, q') \<Rightarrow>
        (case run_ops enq deq d ops q' of (xs, r) \<Rightarrow> (if got then x # xs else xs, r)))"

fun put_in :: "'a queue_op list \<Rightarrow> 'a list" where
  "put_in [] = []"
| "put_in (Enq x # ops) = x # put_in ops"
| "put_in (Deq # ops) = put_in ops"

locale fifo =
  fixes enq :: "'a \<Rightarrow> 'q \<Rightarrow> 'q"
    and deq :: "'q \<Rightarrow> 'a \<Rightarrow> bool \<times> 'a \<times> 'q"
    and contents :: "'q \<Rightarrow> 'a list"
  assumes enq_contents: "contents (enq x q) = contents q @ [x]"
    and deq_empty: "contents q = [] \<Longrightarrow> deq q d = (False, d, q)"
    and deq_next: "contents q = x # xs \<Longrightarrow> \<exists>q'. deq q d = (True, x, q') \<and> contents q' = xs"
begin


text \<open>
  Whatever the interleaving of the operations: what came out, followed by what is still
  in, is what was in followed by what was put in. Nothing is lost, doubled or reordered.
\<close>

lemma ops_conserve: "run_ops enq deq d ops q = (out, q') \<Longrightarrow> out @ contents q' = contents q @ put_in ops"
proof (induction ops arbitrary: q out)
  case Nil
  then show ?case by simp
next
  case (Cons a ops)
  show ?case
  proof (cases a)
    case (Enq x)
    with Cons show ?thesis by (simp add: enq_contents)
  next
    case Deq
    show ?thesis
    proof (cases "contents q")
      case Nil
      with Cons Deq show ?thesis by (auto simp: deq_empty split: prod.splits)
    next
      case (Cons y ys)
      obtain r where r: "deq q d = (True, y, r)" "contents r = ys"
        using deq_next [OF Cons] by blast
      obtain out' where out': "run_ops enq deq d ops r = (out', q')" "out = y # out'"
        using Cons.prems Deq r(1) by (auto split: prod.splits)
      with Cons.IH [OF out'(1)] r Cons Deq show ?thesis by simp
    qed
  qed
qed

lemma deq_got: "deq q d = (True, x, q') \<Longrightarrow> contents q = x # contents q'"
proof (cases "contents q")
  case (Cons y ys)
  assume "deq q d = (True, x, q')"
  then show ?thesis using deq_next [OF Cons, of d] Cons by auto
qed (simp add: deq_empty)

lemma deq_not_got: "deq q d = (False, x, q') \<Longrightarrow> contents q = [] \<and> x = d \<and> q' = q"
proof (cases "contents q")
  case (Cons y ys)
  assume "deq q d = (False, x, q')"
  then show ?thesis using deq_next [OF Cons, of d] by auto
qed (simp add: deq_empty)

lemma deq_shrinks: "deq q d = (True, x, q') \<Longrightarrow> length (contents q') < length (contents q)"
  by (simp add: deq_got)

end

interpretation tsq: fifo push pop messageList
  by unfold_locales (simp_all add: push_def pop_def)

lemma clear_empty: "messageList (clear q) = []"
  by (simp add: clear_def)

section \<open>Properties\<close>

text \<open>
  C26: in every interleaving of pushes and pops, what has been popped followed by what is
  still queued is what was queued followed by what has been pushed: nothing is lost,
  duplicated or reordered.
\<close>

theorem queue_conserves:
  assumes "run_ops push pop d ops q = (out, q')"
  shows "out @ messageList q' = messageList q @ put_in ops"
  using assms by (rule tsq.ops_conserve)

theorem queue_conserves_witness:
  "[1, 2] @ messageList \<lparr>messageList = [3 :: nat]\<rparr> =
     messageList new_ThreadSafeQueue @ put_in [Deq, Enq 1, Enq 2, Deq, Deq, Deq, Enq 3]"
  by (rule queue_conserves [of 0]) (simp add: push_def pop_def new_ThreadSafeQueue_def)

end
