(* ===== verification/Broker.thy ===== *)
theory Broker
  imports Handlers Ts_Queue
begin

text \<open>
  \<open>Broker\<close> of model/smb_broker.h and .cc. Its state extends the agents' by the queue of
  received bundles, the pause flag, the tick counter and the handler lookup. Two threads run
  it: the I/O thread calls \<open>onMessageReceived\<close>, the simulator thread calls \<open>pause\<close>; both hold
  \<open>mutex_pause\<close> while they do, so a call is one atomic step (Broker_Steps composes them).
\<close>

record broker_world = agent_world +
  m_incoming :: "MessageConglomerate ThreadSafeQueue"
  m_pause :: bool
  m_global_tick :: uint
  handleLookup :: "(string, Handler) smap"

text \<open>The state of a process that has made the calls \<open>h\<close>, with its broker constructed.\<close>

definition new_Broker :: "history \<Rightarrow> string \<Rightarrow> string \<Rightarrow> broker_world outcome" where
  "new_Broker h host port =
     ebind (new_Connection True host port) (\<lambda>c.
     Inr \<lparr>history = h, conn = c, pending = None,
          m_outgoing = serialize_begin new_OngoingSerialization, heap = [], AllAgents = [], global_pckt_cnt = 0,
          wfd_nc = [], wfd_go_nc = [], wfd_cln_nc = [], wfd_go_ndc = [], wfd_cln_ndc = [],
          m_incoming = new_ThreadSafeQueue, m_pause = True, m_global_tick = 0, handleLookup = new_HandlerLookup\<rparr>)"

text \<open>The destructor stops the service and waits for the I/O thread.\<close>

definition delete_Broker :: "'z broker_world_scheme \<Rightarrow> 'z broker_world_scheme" where
  "delete_Broker w = call ThreadJoin (call ServiceStop w)"

section \<open>Receiving\<close>

text \<open>The loop that looks for a message of the given type; it stops at the first one.\<close>

fun find_type :: "MessageConglomerate \<Rightarrow> string \<Rightarrow> int list \<Rightarrow> bool outcome" where
  "find_type temp ty [] = Inr False"
| "find_type temp ty (i # is) =
     ebind (getBaseMessage temp i) (\<lambda>b. if msg_type b = ty then Inr True else find_type temp ty is)"

definition message_numbers :: "MessageConglomerate \<Rightarrow> int list" where
  "message_numbers c = map int [0..<getCount c]"

definition parsePacket ::
  "env \<Rightarrow> BundleHeader \<Rightarrow> string \<Rightarrow> 'z broker_world_scheme \<Rightarrow> (bool \<times> 'z broker_world_scheme) outcome" where
  "parsePacket E header input w =
     (if input = [] then Inr (True, w) else
      ebind (deserialize (lib E) header input new_MessageConglomerate) (\<lambda>(ok, temp).
      if \<not> ok then Inr (False, w) else
      ebind (find_type temp ''ticked_simmob'' (message_numbers temp)) (\<lambda>res.
      Inr (res, w\<lparr>m_incoming := push temp (m_incoming w)\<rparr>))))"

text \<open>The flag that \<open>parsePacket\<close> returns is only printed.\<close>

definition onMessageReceived ::
  "env \<Rightarrow> BundleHeader \<Rightarrow> string \<Rightarrow> 'z broker_world_scheme \<Rightarrow> 'z broker_world_scheme outcome" where
  "onMessageReceived E header input w =
     ebind (parsePacket E header input w) (\<lambda>(_, w1). Inr (w1\<lparr>m_pause := False\<rparr>))"

section \<open>Processing\<close>

text \<open>One message of a bundle. \<open>getHandler\<close> never returns null, so there is no other branch.\<close>

definition handle_message ::
  "env \<Rightarrow> MessageConglomerate \<Rightarrow> int \<Rightarrow> 'z broker_world_scheme \<Rightarrow> 'z broker_world_scheme outcome" where
  "handle_message E conglom i w =
     ebind (getBaseMessage conglom i) (\<lambda>b.
     ebind (getHandler (handleLookup w) (msg_type b)) (\<lambda>h. handle E h conglom i w))"

definition handle_bundle ::
  "env \<Rightarrow> MessageConglomerate \<Rightarrow> 'z broker_world_scheme \<Rightarrow> 'z broker_world_scheme outcome" where
  "handle_bundle E conglom w = fold_outcome (handle_message E conglom) (message_numbers conglom) w"

text \<open>
  The handlers stay inside the agents, so the broker's part of the state is as it was; in
  particular they do not push to the queue, and the loop that empties it ends.
\<close>

lemma handle_message_only: "handle_message E c i w = Inr w' \<Longrightarrow> agents_only w w'"
  by (auto simp: handle_message_def outcome_simps intro: handle_only)

lemma handle_bundle_only: "handle_bundle E c w = Inr w' \<Longrightarrow> agents_only w w'"
  unfolding handle_bundle_def
  by (rule fold_outcome_invariant [where P = "agents_only w"])
    (auto intro: agents_only_trans handle_message_only)

lemma agents_only_broker:
  assumes "agents_only w w'"
  shows "m_incoming w' = m_incoming w" and "m_pause w' = m_pause w" and "m_global_tick w' = m_global_tick w"
    and "handleLookup w' = handleLookup w" and "broker_world.more w' = broker_world.more w"
  using assms by (cases w; cases w'; simp add: agents_only_def)+

text \<open>\<open>conglom\<close> is declared outside the loop: \<open>pop\<close> assigns it when it takes something.\<close>

function process_loop ::
  "env \<Rightarrow> MessageConglomerate \<Rightarrow> 'z broker_world_scheme \<Rightarrow> 'z broker_world_scheme outcome" where
  "process_loop E conglom w =
     (case pop (m_incoming w) conglom of (got, c, q) \<Rightarrow>
        if got then ebind (handle_bundle E c (w\<lparr>m_incoming := q\<rparr>)) (process_loop E c)
        else Inr w)"
  by pat_completeness auto
termination
  by (relation "measure (\<lambda>(E, c, w). length (messageList (m_incoming w)))")
    (auto dest!: agents_only_broker(1) [OF handle_bundle_only] tsq.deq_shrinks [OF sym])

declare process_loop.simps [simp del]

definition processIncoming :: "env \<Rightarrow> 'z broker_world_scheme \<Rightarrow> 'z broker_world_scheme outcome" where
  "processIncoming E w = process_loop E new_MessageConglomerate w"

section \<open>Sending\<close>

definition sendOutgoing :: "env \<Rightarrow> 'z broker_world_scheme \<Rightarrow> 'z broker_world_scheme outcome" where
  "sendOutgoing E w =
     ebind (serialize_end (lib E) (m_outgoing w) new_BundleHeader []) (\<lambda>(ok, head, msg).
     if \<not> ok then Inr w else
     ebind (send E head msg w) (\<lambda>(_, w1).
     Inr (w1\<lparr>m_outgoing := serialize_begin (m_outgoing w1)\<rparr>)))"

text \<open>The message that ends a tick, which \<open>pause\<close> builds with a serialization of its own.\<close>

definition send_ticked :: "env \<Rightarrow> 'z broker_world_scheme \<Rightarrow> 'z broker_world_scheme outcome" where
  "send_ticked E w =
     ebind (makeTickedClient (lib E) (serialize_begin new_OngoingSerialization)) (\<lambda>res.
     ebind (serialize_end (lib E) res new_BundleHeader []) (\<lambda>(_, resHeader, resMsg).
     ebind (send E resHeader resMsg w) (\<lambda>(_, w1). Inr w1)))"

text \<open>
  One iteration of the loop of \<open>pause\<close>: it sleeps and tries again (\<open>Spinning\<close>), returns for
  good (\<open>Exited\<close>), or ends a tick and schedules the next call (\<open>Rescheduled\<close>).
\<close>

datatype pause_result = Spinning | Exited | Rescheduled

definition pause_iteration ::
  "env \<Rightarrow> 'z broker_world_scheme \<Rightarrow> (pause_result \<times> 'z broker_world_scheme) outcome" where
  "pause_iteration E w =
     (if m_pause w then Inr (Spinning, w) else
      let w1 = w\<lparr>m_pause := True\<rparr> in
      ebind (isOpen E w1) (\<lambda>up.
      if \<not> up then Inr (Exited, w1) else
      ebind (processIncoming E w1) (\<lambda>w2.
      ebind (sendOutgoing E w2) (\<lambda>w3.
      ebind (send_ticked E w3) (\<lambda>w4.
      let w5 = call (Schedule 100) w4 in
      Inr (Rescheduled, w5\<lparr>m_global_tick := m_global_tick w5 + 1\<rparr>))))))"

section \<open>What processing does\<close>

text \<open>The reference: the bundles of the queue one after the other, each off the queue before it is handled.\<close>

fun drain :: "env \<Rightarrow> MessageConglomerate list \<Rightarrow> 'z broker_world_scheme \<Rightarrow> 'z broker_world_scheme outcome" where
  "drain E [] w = Inr w"
| "drain E (c # cs) w =
     ebind (handle_bundle E c (w\<lparr>m_incoming := (m_incoming w)\<lparr>messageList := cs\<rparr>\<rparr>)) (drain E cs)"

lemma process_loop_drain: "process_loop E c w = drain E (messageList (m_incoming w)) w"
proof (induction "messageList (m_incoming w)" arbitrary: c w)
  case Nil
  then show ?case by (simp add: process_loop.simps pop_def flip: Nil)
next
  case (Cons b bs)
  let ?w1 = "w\<lparr>m_incoming := (m_incoming w)\<lparr>messageList := bs\<rparr>\<rparr>"
  have "process_loop E c w = ebind (handle_bundle E b ?w1) (process_loop E b)"
    by (subst process_loop.simps) (simp add: pop_def flip: Cons.hyps(2))
  also have "\<dots> = ebind (handle_bundle E b ?w1) (drain E bs)"
  proof (rule ebind_cong [OF refl])
    fix w2 assume "handle_bundle E b ?w1 = Inr w2"
    then have "m_incoming w2 = (m_incoming w)\<lparr>messageList := bs\<rparr>"
      using agents_only_broker(1) [OF handle_bundle_only] by fastforce
    then show "process_loop E b w2 = drain E bs w2" using Cons.hyps(1) [of w2 b] by simp
  qed
  finally show ?case by (simp flip: Cons.hyps(2))
qed

text \<open>What processing leaves alone of the broker's state: everything but the queue and the agents.\<close>

definition processing_only :: "'z broker_world_scheme \<Rightarrow> 'z broker_world_scheme \<Rightarrow> bool" where
  "processing_only w w' \<longleftrightarrow> conn w' = conn w \<and> pending w' = pending w \<and> m_outgoing w' = m_outgoing w \<and>
     written (history w') = written (history w) \<and> log_text (history w') = log_text (history w) \<and>
     outer (history w') = outer (history w) \<and> m_pause w' = m_pause w \<and> m_global_tick w' = m_global_tick w \<and>
     handleLookup w' = handleLookup w \<and> broker_world.more w' = broker_world.more w"

lemma processing_only_trans: "processing_only u v \<Longrightarrow> processing_only v w \<Longrightarrow> processing_only u w"
  by (simp add: processing_only_def)

lemma agents_only_processing: "agents_only w w' \<Longrightarrow> processing_only w w'"
  using agents_only_broker [of w w'] by (simp add: processing_only_def agents_only_def)

lemma drain_only:
  assumes "drain E cs w = Inr w'" and "cs = messageList (m_incoming w)"
  shows "processing_only w w' \<and> messageList (m_incoming w') = []"
  using assms
proof (induction cs arbitrary: w)
  case Nil
  then show ?case by (simp add: processing_only_def)
next
  case (Cons b bs)
  let ?w1 = "w\<lparr>m_incoming := (m_incoming w)\<lparr>messageList := bs\<rparr>\<rparr>"
  from Cons.prems(1) obtain w2 where w2: "handle_bundle E b ?w1 = Inr w2" "drain E bs w2 = Inr w'"
    by (auto simp: outcome_simps)
  have only: "agents_only ?w1 w2" using w2(1) by (rule handle_bundle_only)
  have "messageList (m_incoming w2) = bs" using agents_only_broker(1) [OF only] by simp
  then have "processing_only w2 w' \<and> messageList (m_incoming w') = []" using Cons.IH [OF w2(2)] by simp
  moreover have "processing_only w ?w1" by (simp add: processing_only_def)
  ultimately show ?case using agents_only_processing [OF only] by (blast intro: processing_only_trans)
qed

lemma processIncoming_only:
  assumes "processIncoming E w = Inr w'"
  shows "processing_only w w'" and "messageList (m_incoming w') = []"
  using drain_only [of E "messageList (m_incoming w)" w w'] assms
  by (simp_all add: processIncoming_def process_loop_drain)

text \<open>The handling of a bundle is the client of the handlers' contract.\<close>

lemma handle_bundle_act_all:
  assumes "handle_bundle E c w = Inr w'"
  shows "handlers.act_all E (getHandler (handleLookup w)) c (message_numbers c) w = Inr w'"
proof -
  have "fold_outcome (\<lambda>i v. ebind (getBaseMessage c i) (\<lambda>b. ebind (getHandler (handleLookup w) (msg_type b))
      (\<lambda>h. handle E h c i v))) is v = Inr w'"
    if "fold_outcome (handle_message E c) is v = Inr w'" and "handleLookup v = handleLookup w" for "is" v
    using that
  proof (induction "is" arbitrary: v)
    case (Cons i "is")
    then obtain u where u: "handle_message E c i v = Inr u" "fold_outcome (handle_message E c) is u = Inr w'"
      by (auto simp: outcome_simps)
    have "handleLookup u = handleLookup w"
      using agents_only_broker(4) [OF handle_message_only [OF u(1)]] Cons.prems(2) by simp
    with Cons.IH [OF u(2)] u(1) Cons.prems(2) show ?case by (simp add: handle_message_def)
  qed simp
  with assms show ?thesis by (simp add: handlers.act_all_def handle_bundle_def)
qed

lemma handle_bundle_ok: "agents_ok w \<Longrightarrow> handle_bundle E c w = Inr w' \<Longrightarrow> agents_ok w'"
  by (rule handlers.act_all_inv [OF _ handle_bundle_act_all])

lemma agents_ok_incoming [simp]: "agents_ok (w\<lparr>m_incoming := q\<rparr>) = agents_ok w"
  by (simp add: agents_ok_def)

lemma all_ready_incoming [simp]: "all_ready E (w\<lparr>m_incoming := q\<rparr>) = all_ready E w"
  by (simp add: all_ready_def ready_def)

lemma handle_bundle_ready:
  "agents_ok w \<and> (ns3_laws E \<longrightarrow> all_ready E w) \<Longrightarrow> handle_bundle E c w = Inr w' \<Longrightarrow>
     agents_ok w' \<and> (ns3_laws E \<longrightarrow> all_ready E w')"
  by (rule ready_handlers.act_all_inv [OF _ handle_bundle_act_all])

lemma drain_inv:
  assumes "drain E cs w = Inr w'" and "P w" and "\<And>w q. P w \<Longrightarrow> P (w\<lparr>m_incoming := q\<rparr>)"
    and "\<And>c w w'. P w \<Longrightarrow> handle_bundle E c w = Inr w' \<Longrightarrow> P w'"
  shows "P w'"
  using assms(1,2)
proof (induction cs arbitrary: w)
  case (Cons b bs)
  then obtain w2 where "handle_bundle E b (w\<lparr>m_incoming := (m_incoming w)\<lparr>messageList := bs\<rparr>\<rparr>) = Inr w2"
      "drain E bs w2 = Inr w'"
    by (auto simp: outcome_simps)
  with Cons.IH assms(3,4) Cons.prems(2) show ?case by blast
qed simp

lemma processIncoming_ok: "agents_ok w \<Longrightarrow> processIncoming E w = Inr w' \<Longrightarrow> agents_ok w'"
  unfolding processIncoming_def process_loop_drain
  by (erule drain_inv [rotated]) (auto intro: handle_bundle_ok)

section \<open>What receiving does\<close>

text \<open>The bundle that a received text adds to the queue.\<close>

definition accepted :: "env \<Rightarrow> BundleHeader \<Rightarrow> string \<Rightarrow> MessageConglomerate list" where
  "accepted E header input =
     (if input = [] then [] else
      case deserialize (lib E) header input new_MessageConglomerate of Inr (True, c) \<Rightarrow> [c] | _ \<Rightarrow> [])"

lemma onMessageReceived_Inr:
  assumes "onMessageReceived E header input w = Inr w'"
  shows "w' = w\<lparr>m_incoming := (m_incoming w)\<lparr>messageList := messageList (m_incoming w) @ accepted E header input\<rparr>,
                m_pause := False\<rparr>"
proof (cases "input = []")
  case True
  have "(m_incoming w)\<lparr>messageList := messageList (m_incoming w)\<rparr> = m_incoming w" by simp
  with assms True show ?thesis by (simp add: onMessageReceived_def parsePacket_def accepted_def)
next
  case False
  with assms obtain ok temp where d: "deserialize (lib E) header input new_MessageConglomerate = Inr (ok, temp)"
    and rest: "ebind (if \<not> ok then Inr (False, w) else
      ebind (find_type temp ''ticked_simmob'' (message_numbers temp)) (\<lambda>res.
      Inr (res, w\<lparr>m_incoming := push temp (m_incoming w)\<rparr>))) (\<lambda>(_, w1). Inr (w1\<lparr>m_pause := False\<rparr>)) = Inr w'"
    by (auto simp: onMessageReceived_def parsePacket_def outcome_simps)
  show ?thesis
  proof (cases ok)
    case True
    with rest have "w' = w\<lparr>m_incoming := push temp (m_incoming w), m_pause := False\<rparr>"
      by (auto simp: outcome_simps)
    with False d True show ?thesis by (simp add: accepted_def push_def)
  next
    case no: False
    have "(m_incoming w)\<lparr>messageList := messageList (m_incoming w)\<rparr> = m_incoming w" by simp
    with rest no False d show ?thesis by (simp add: accepted_def)
  qed
qed

section \<open>What a tick sends\<close>

text \<open>The bytes of the bundle that closes an ongoing serialization.\<close>

definition bundle_bytes :: "OngoingSerialization \<Rightarrow> string" where
  "bundle_bytes og =
     (let res = vary_header (vHead og) @ messages og in make_bundle_header (result_header (vHead og) res) @ res)"

lemma end_then_send:
  assumes "serialize_end J og h0 r0 = Inr (ok, head, msg)" and "send E head msg w = Inr (b, w1)"
  shows "ok \<and> (\<exists>s. w1 = call (NetWrite (bundle_bytes og)) (set_session s w))"
  using assms(2)
proof (rule send_Inr)
  fix s assume "w1 = call (NetWrite (make_bundle_header head @ msg)) (set_session (s\<lparr>outbound_header := make_bundle_header head\<rparr>) w)"
  moreover have "ok" "make_bundle_header head @ msg = bundle_bytes og"
    using assms(1) by (auto simp: serialize_end_eq bundle_bytes_def Let_def)
  ultimately show ?thesis by metis
qed

lemma sendOutgoing_Inr:
  assumes "sendOutgoing E w = Inr w'"
  shows "\<exists>s. w' = (call (NetWrite (bundle_bytes (m_outgoing w))) (set_session s w))\<lparr>m_outgoing := serialize_begin (m_outgoing w)\<rparr>"
proof -
  from assms obtain ok head msg where e: "serialize_end (lib E) (m_outgoing w) new_BundleHeader [] = Inr (ok, head, msg)"
    and rest: "(if \<not> ok then Inr w else ebind (send E head msg w) (\<lambda>(_, w1).
      Inr (w1\<lparr>m_outgoing := serialize_begin (m_outgoing w1)\<rparr>))) = Inr w'"
    by (auto simp: sendOutgoing_def outcome_simps)
  have ok: "ok" using e by (simp add: serialize_end_eq Let_def)
  with rest obtain b w1 where send: "send E head msg w = Inr (b, w1)" and w': "w' = w1\<lparr>m_outgoing := serialize_begin (m_outgoing w1)\<rparr>"
    by (auto simp: outcome_simps)
  from end_then_send [OF e send] w' show ?thesis by (auto simp: set_session_def)
qed

lemma send_ticked_Inr:
  assumes "send_ticked E w = Inr w'"
  obtains s og where "makeTickedClient (lib E) (serialize_begin new_OngoingSerialization) = Inr og"
    and "w' = call (NetWrite (bundle_bytes og)) (set_session s w)"
  using assms by (auto simp: send_ticked_def outcome_simps dest: end_then_send)

text \<open>
  A completed tick: the bundles of the queue were handled, two bundles were written (the
  outgoing messages, then ticked_client), and the broker waits for the next message.
\<close>

lemma pause_tick:
  assumes "pause_iteration E w = Inr (Rescheduled, w')"
  obtains w2 og where "\<not> m_pause w" and "processIncoming E (w\<lparr>m_pause := True\<rparr>) = Inr w2"
    and "makeTickedClient (lib E) (serialize_begin new_OngoingSerialization) = Inr og"
    and "written (history w') = written (history w) @ [bundle_bytes (m_outgoing w), bundle_bytes og]"
    and "m_outgoing w' = serialize_begin (m_outgoing w)" and "m_incoming w' = m_incoming w2"
    and "m_pause w'" and "m_global_tick w' = m_global_tick w + 1" and "AllAgents w' = AllAgents w2" and "heap w' = heap w2"
    and "pending w' = pending w" and "handleLookup w' = handleLookup w" and "\<exists>h. history w' = history w2 @ h"
proof -
  from assms obtain w2 w3 w4 where np: "\<not> m_pause w" and w2: "processIncoming E (w\<lparr>m_pause := True\<rparr>) = Inr w2"
    and w3: "sendOutgoing E w2 = Inr w3" and w4: "send_ticked E w3 = Inr w4"
    and w': "w' = (call (Schedule 100) w4)\<lparr>m_global_tick := m_global_tick (call (Schedule 100) w4) + 1\<rparr>"
    by (auto simp: pause_iteration_def outcome_simps Let_def split: if_splits)
  obtain s where w3': "w3 = (call (NetWrite (bundle_bytes (m_outgoing w2))) (set_session s w2))\<lparr>m_outgoing := serialize_begin (m_outgoing w2)\<rparr>"
    using sendOutgoing_Inr [OF w3] by blast
  obtain t og where og: "makeTickedClient (lib E) (serialize_begin new_OngoingSerialization) = Inr og"
    and w4': "w4 = call (NetWrite (bundle_bytes og)) (set_session t w3)"
    using w4 by (rule send_ticked_Inr)
  note only = processIncoming_only(1) [OF w2, unfolded processing_only_def, simplified]
  show thesis
    by (rule that [OF np w2 og])
      (use only in \<open>simp_all add: w' w4' w3' set_session_def call_def written_append\<close>)
qed

end
