(* ===== verification/Broker_Steps.thy ===== *)
theory Broker_Steps
  imports Broker Serialize_Props
begin

text \<open>
  The broker as a system of two threads. Each step is one atomic call: a completed
  asynchronous read on the I/O thread, an iteration of \<open>pause\<close> or a packet callback on the
  simulator thread. The two calls that share state hold \<open>mutex_pause\<close>; the I/O thread's next
  \<open>async_receive\<close> follows outside of it and touches only the connection's buffers, so it is
  part of the same step.

  At an end of file \<open>readHandler\<close> closes the socket without the mutex, so that is a step of its
  own: the simulator thread can see the closed socket before or after the delivery that follows.
  When \<open>async_receive\<close> throws, what the delivery did stays, and the I/O thread is gone; the
  exception will end the process, but until then the simulator thread may still act. Any other
  step that throws has no successor.

  A run is labelled with the bundles that arrive and the bundles that a tick processes.
\<close>

section \<open>Steps\<close>

datatype action =
    HeaderRead
  | Delivered "MessageConglomerate list"
  | ReadFailed error_code
  | Spun
  | Ticked "MessageConglomerate list"
  | Stopped
  | PacketIn

definition io_handler ::
  "env \<Rightarrow> error_code option \<Rightarrow> 'z broker_world_scheme \<Rightarrow> 'z broker_world_scheme outcome" where
  "io_handler E = readHandler E (onMessageReceived E)"

text \<open>
  \<open>readHandler\<close> from the call of \<open>onMessageReceived\<close> on. Its own outcome is that of the last call;
  as a step it also has a successor when that one throws.
\<close>

definition delivery :: "env \<Rightarrow> 'z broker_world_scheme \<Rightarrow> 'z broker_world_scheme outcome" where
  "delivery E w =
     ebind (onMessageReceived E (incomingHeader (conn w)) (incomingMessage (conn w)) w) (\<lambda>w1.
     Inr (case async_receive E w1 of Inl _ \<Rightarrow> w1 | Inr w2 \<Rightarrow> w2))"

lemma readHandler_delivery:
  "readHandler E (onMessageReceived E) None w = Inr w' \<longleftrightarrow>
     delivery E w = Inr w' \<and> (\<exists>w1. onMessageReceived E (incomingHeader (conn w)) (incomingMessage (conn w)) w = Inr w1 \<and>
       async_receive E w1 = Inr w')"
  "readHandler E (onMessageReceived E) (Some EndOfFile) w = readHandler E (onMessageReceived E) None (closeSocket w)"
  by (auto simp: readHandler_def delivery_def outcome_simps Let_def split: sum.splits)

inductive broker_step :: "env \<Rightarrow> 'z broker_world_scheme \<Rightarrow> action \<Rightarrow> 'z broker_world_scheme \<Rightarrow> bool" for E where
  header_read: "pending w = Some ReadHeader \<Longrightarrow> length bs = header_length \<Longrightarrow> arrive_header bs w = Inr w1 \<Longrightarrow>
     handle_read_header (io_handler E) None w1 = Inr w' \<Longrightarrow> broker_step E w HeaderRead w'"
| data_read: "pending w = Some (ReadData n) \<Longrightarrow> length bs = n \<Longrightarrow> arrive_data bs w = Inr w1 \<Longrightarrow>
     handle_read_data (\<lambda>_. delivery E) None w1 = Inr w' \<Longrightarrow>
     broker_step E w (Delivered (accepted E (incomingHeader (conn w)) bs)) w'"
| header_failed: "pending w = Some ReadHeader \<Longrightarrow> ec \<noteq> EndOfFile \<Longrightarrow>
     handle_read_header (io_handler E) (Some ec) (w\<lparr>pending := None\<rparr>) = Inr w' \<Longrightarrow>
     broker_step E w (ReadFailed ec) w'"
| data_failed: "pending w = Some (ReadData n) \<Longrightarrow> ec \<noteq> EndOfFile \<Longrightarrow>
     handle_read_data (io_handler E) (Some ec) (w\<lparr>pending := None\<rparr>) = Inr w' \<Longrightarrow>
     broker_step E w (ReadFailed ec) w'"
| eof_closed: "pending w = Some op \<Longrightarrow> op \<noteq> AtEof \<Longrightarrow>
     broker_step E w (ReadFailed EndOfFile) ((closeSocket w)\<lparr>pending := Some AtEof\<rparr>)"
| eof_delivered: "pending w = Some AtEof \<Longrightarrow> delivery E (w\<lparr>pending := None\<rparr>) = Inr w' \<Longrightarrow>
     broker_step E w (Delivered (accepted E (incomingHeader (conn w)) (incomingMessage (conn w)))) w'"
| spin: "pause_iteration E w = Inr (Spinning, w') \<Longrightarrow> broker_step E w Spun w'"
| tick: "pause_iteration E w = Inr (Rescheduled, w') \<Longrightarrow>
     broker_step E w (Ticked (messageList (m_incoming w))) w'"
| stop: "pause_iteration E w = Inr (Exited, w') \<Longrightarrow> broker_step E w Stopped w'"
| packet: "packet_arrives E s w = Inr w' \<Longrightarrow> broker_step E w PacketIn w'"

inductive broker_run :: "env \<Rightarrow> 'z broker_world_scheme \<Rightarrow> action list \<Rightarrow> 'z broker_world_scheme \<Rightarrow> bool" for E where
  run_nil: "broker_run E w [] w"
| run_snoc: "broker_run E w acts w1 \<Longrightarrow> broker_step E w1 a w' \<Longrightarrow> broker_run E w (acts @ [a]) w'"

inductive_cases read_failedE: "broker_step E w (ReadFailed ec) w'"
inductive_simps spun_iff: "broker_step E w Spun w'"
inductive_simps run_nil_iff: "broker_run E w [] w'"

text \<open>What arrived, what was processed, how often the I/O thread woke the simulator, how often it acted.\<close>

fun arrived :: "action list \<Rightarrow> MessageConglomerate list" where
  "arrived [] = []"
| "arrived (Delivered cs # as) = cs @ arrived as"
| "arrived (_ # as) = arrived as"

fun processed :: "action list \<Rightarrow> MessageConglomerate list" where
  "processed [] = []"
| "processed (Ticked cs # as) = cs @ processed as"
| "processed (_ # as) = processed as"

fun wakes :: "action list \<Rightarrow> nat" where
  "wakes [] = 0"
| "wakes (Delivered _ # as) = Suc (wakes as)"
| "wakes (_ # as) = wakes as"

fun ticks :: "action list \<Rightarrow> nat" where
  "ticks [] = 0"
| "ticks (Ticked _ # as) = Suc (ticks as)"
| "ticks (_ # as) = ticks as"

fun stops :: "action list \<Rightarrow> nat" where
  "stops [] = 0"
| "stops (Stopped # as) = Suc (stops as)"
| "stops (_ # as) = stops as"

lemma arrived_append: "arrived (as @ bs) = arrived as @ arrived bs"
  by (induction as rule: arrived.induct) simp_all

lemma processed_append: "processed (as @ bs) = processed as @ processed bs"
  by (induction as rule: processed.induct) simp_all

lemma wakes_append: "wakes (as @ bs) = wakes as + wakes bs"
  by (induction as rule: wakes.induct) simp_all

lemma ticks_append: "ticks (as @ bs) = ticks as + ticks bs"
  by (induction as rule: ticks.induct) simp_all

lemma stops_append: "stops (as @ bs) = stops as + stops bs"
  by (induction as rule: stops.induct) simp_all

lemmas label_append = arrived_append processed_append wakes_append ticks_append stops_append

section \<open>What one step changes\<close>

text \<open>The calls of the broker that concern no agent and register no callback.\<close>

fun aside :: "event \<Rightarrow> bool" where
  "aside NetClose = True"
| "aside (NetWrite _) = True"
| "aside (NetAsyncRead _) = True"
| "aside (SocketRecv _) = True"
| "aside (Schedule _) = True"
| "aside _ = False"

text \<open>The steps of the I/O thread leave everything but the network, the queue and the pause flag.\<close>

definition io_only :: "'z broker_world_scheme \<Rightarrow> 'z broker_world_scheme \<Rightarrow> bool" where
  "io_only w w' \<longleftrightarrow> (\<exists>h. history w' = history w @ h \<and> list_all aside h) \<and>
     written (history w') = written (history w) \<and> heap w' = heap w \<and> AllAgents w' = AllAgents w \<and>
     m_outgoing w' = m_outgoing w \<and> global_pckt_cnt w' = global_pckt_cnt w \<and>
     m_global_tick w' = m_global_tick w \<and> handleLookup w' = handleLookup w \<and> broker_world.more w' = broker_world.more w"

text \<open>What a completed read does to the queue and the flag: a delivery adds bundles and clears the flag.\<close>

definition queued :: "'z broker_world_scheme \<Rightarrow> MessageConglomerate list \<Rightarrow> bool \<Rightarrow> 'z broker_world_scheme \<Rightarrow> bool" where
  "queued w cs woke w' \<longleftrightarrow> messageList (m_incoming w') = messageList (m_incoming w) @ cs \<and>
     m_pause w' = (if woke then False else m_pause w)"

lemma async_receive_Inr:
  assumes "async_receive E w = Inr w'"
  shows "w' = (call (NetAsyncRead header_length) (w\<lparr>conn := (conn w)\<lparr>incomingMessage := []\<rparr>\<rparr>))\<lparr>pending := Some ReadHeader\<rparr>"
  using assms by (auto simp: async_receive_def outcome_simps async_read_def split: if_splits)

lemma async_receive_open: "async_receive E w = Inr w' \<Longrightarrow> net_is_open E (history w)"
  by (auto simp: async_receive_def outcome_simps isOpen_def with_session_Inr session_isOpen_def split: if_splits)

text \<open>A delivery that reads on, which needs an open socket, and one that ends the I/O thread.\<close>

lemma delivery_cases:
  assumes "delivery E w = Inr w'"
  defines "w1 \<equiv> w\<lparr>m_incoming := (m_incoming w)\<lparr>messageList := messageList (m_incoming w) @
      accepted E (incomingHeader (conn w)) (incomingMessage (conn w))\<rparr>, m_pause := False\<rparr>"
  obtains "w' = w1" | "net_is_open E (history w)" and
    "w' = (call (NetAsyncRead header_length) (w1\<lparr>conn := (conn w)\<lparr>incomingMessage := []\<rparr>\<rparr>))\<lparr>pending := Some ReadHeader\<rparr>"
proof -
  have w': "w' = (case async_receive E w1 of Inl _ \<Rightarrow> w1 | Inr w2 \<Rightarrow> w2)"
    using assms by (auto simp: delivery_def outcome_simps dest: onMessageReceived_Inr)
  show thesis
  proof (cases "async_receive E w1")
    case (Inl e)
    with w' show thesis by (intro that(1)) simp
  next
    case (Inr w2)
    have "conn w1 = conn w" "history w1 = history w" by (simp_all add: w1_def)
    with Inr w' async_receive_open [OF Inr] async_receive_Inr [OF Inr] show thesis by (intro that(2)) simp_all
  qed
qed

lemma delivery_only:
  assumes "delivery E w = Inr w'"
  shows "io_only w w'" and "queued w (accepted E (incomingHeader (conn w)) (incomingMessage (conn w))) True w'"
  using assms by (rule delivery_cases; simp add: io_only_def queued_def call_def written_append)+

lemma io_handler_failed: "e \<notin> {None, Some EndOfFile} \<Longrightarrow> io_handler E e w = Inr w' \<Longrightarrow> w' = w"
  by (cases e) (auto simp: io_handler_def readHandler_def)

lemma arrive_header_Inr: "arrive_header bs w = Inr w1 \<Longrightarrow> \<exists>s. w1 = (set_session s w)\<lparr>pending := None\<rparr> \<and> inbound_header s = bs"
  by (auto simp: arrive_header_def with_session_Inr)

lemma arrive_data_Inr: "arrive_data bs w = Inr w1 \<Longrightarrow> \<exists>s. w1 = (set_session s w)\<lparr>pending := None\<rparr> \<and> inbound_data s = bs"
  by (auto simp: arrive_data_def with_session_Inr)

lemma header_read_only:
  assumes "arrive_header bs w = Inr w1" and "handle_read_header (io_handler E) None w1 = Inr w'"
  shows "io_only w w'" and "queued w [] False w'"
proof -
  obtain s where w1: "w1 = (set_session s w)\<lparr>pending := None\<rparr>" using arrive_header_Inr [OF assms(1)] by blast
  show "io_only w w'" "queued w [] False w'"
    using assms(2)
    by (rule handle_read_header_cases;
        auto dest!: io_handler_failed [rotated] simp: io_only_def queued_def w1 set_session_def call_def written_append)+
qed

text \<open>The delivery of a text that has arrived.\<close>

lemma data_read_delivery:
  assumes "arrive_data bs w = Inr w1" and "handle_read_data (\<lambda>_. delivery E) None w1 = Inr w'"
  obtains s where "delivery E (w\<lparr>pending := None, conn := (conn w)\<lparr>m_session := Some s, incomingMessage := bs\<rparr>\<rparr>) = Inr w'"
proof -
  obtain s where w1: "w1 = (set_session s w)\<lparr>pending := None\<rparr>" "inbound_data s = bs"
    using arrive_data_Inr [OF assms(1)] by blast
  then show thesis using assms(2) that [of s] by (simp add: handle_read_data_def with_session_def set_session_def)
qed

lemma data_read_only:
  assumes "arrive_data bs w = Inr w1" and "handle_read_data (\<lambda>_. delivery E) None w1 = Inr w'"
  shows "io_only w w'" and "queued w (accepted E (incomingHeader (conn w)) bs) True w'"
proof -
  obtain s where d: "delivery E (w\<lparr>pending := None, conn := (conn w)\<lparr>m_session := Some s, incomingMessage := bs\<rparr>\<rparr>) = Inr w'"
    using assms by (rule data_read_delivery)
  from delivery_only [OF d] show "io_only w w'" "queued w (accepted E (incomingHeader (conn w)) bs) True w'"
    by (simp_all add: io_only_def queued_def)
qed

lemma eof_closed_only: "io_only w ((closeSocket w)\<lparr>pending := p\<rparr>)" "queued w [] False ((closeSocket w)\<lparr>pending := p\<rparr>)"
  by (simp_all add: closeSocket_def call_def io_only_def queued_def written_append)

lemma eof_delivered_only:
  assumes "delivery E (w\<lparr>pending := None\<rparr>) = Inr w'"
  shows "io_only w w'" and "queued w (accepted E (incomingHeader (conn w)) (incomingMessage (conn w))) True w'"
  using delivery_only [OF assms] by (simp_all add: io_only_def queued_def)

lemma handlers_failed:
  "handle_read_header h (Some ec) w = h (Some ec) w" "handle_read_data h (Some ec) w = h (Some ec) w"
  by (simp_all add: handle_read_header_def handle_read_data_def)

lemma read_failed_only:
  assumes "ec \<noteq> EndOfFile"
  shows "handle_read_header (io_handler E) (Some ec) (w\<lparr>pending := None\<rparr>) = Inr w' \<longleftrightarrow> w' = w\<lparr>pending := None\<rparr>"
    and "handle_read_data (io_handler E) (Some ec) (w\<lparr>pending := None\<rparr>) = Inr w' \<longleftrightarrow> w' = w\<lparr>pending := None\<rparr>"
    and "io_only w (w\<lparr>pending := None\<rparr>)" and "queued w [] False (w\<lparr>pending := None\<rparr>)"
  using assms by (auto simp: handlers_failed io_handler_def readHandler_def io_only_def queued_def)

text \<open>A packet callback only adds to the outgoing messages.\<close>

lemma receive_one_Inr: "receive_one E pkt w = Inr w' \<Longrightarrow> \<exists>og. w' = w\<lparr>m_outgoing := og\<rparr>"
  by (auto simp: receive_one_def outcome_simps split: if_splits prod.splits)
    (rule exI [of _ "m_outgoing w"], simp)+

lemma ReceivePacket_Inr:
  assumes "ReceivePacket E s w = Inr w'"
  shows "\<exists>og. w' = w\<lparr>history := history w @ [SocketRecv s], m_outgoing := og\<rparr>"
proof -
  let ?w1 = "call (SocketRecv s) w"
  have "\<exists>og. w' = ?w1\<lparr>m_outgoing := og\<rparr>"
    using assms unfolding ReceivePacket_def Let_def
    by (rule fold_outcome_invariant) (rule exI [of _ "m_outgoing ?w1"], simp, auto dest!: receive_one_Inr)
  then show ?thesis by (auto simp: call_def)
qed

lemma packet_arrives_Inr:
  assumes "packet_arrives E s w = Inr w'"
  obtains h og where "w' = w\<lparr>history := history w @ h, m_outgoing := og\<rparr>" and "h \<in> {[], [SocketRecv s]}"
proof (cases "callbacks s (history w)")
  case Nil
  then have "w' = w\<lparr>history := history w @ [], m_outgoing := m_outgoing w\<rparr>" using assms by (simp add: packet_arrives_def)
  then show thesis by (rule that) simp
next
  case (Cons p ps)
  then have "ReceivePacket E s w = Inr w'" using assms by (auto simp: packet_arrives_def split: if_splits)
  then obtain og where "w' = w\<lparr>history := history w @ [SocketRecv s], m_outgoing := og\<rparr>" using ReceivePacket_Inr by blast
  then show thesis by (rule that) simp
qed

lemma accepted_ok: "c \<in> set (accepted E h s) \<Longrightarrow> conglom_ok (lib E) c"
  by (auto simp: accepted_def split: if_splits sum.splits prod.splits bool.splits dest: deserialize_ok deserialize_ok [OF sym])

text \<open>The steps of the I/O thread, in one case.\<close>

lemma io_step_cases [consumes 1, case_names io spin tick stop packet]:
  assumes "broker_step E w a w'"
  obtains cs woke where "io_only w w'" and "queued w cs woke w'" and "\<And>c. c \<in> set cs \<Longrightarrow> conglom_ok (lib E) c"
      and "a = (if woke then Delivered cs else a)" and "woke \<or> cs = [] \<and> (a = HeaderRead \<or> (\<exists>ec. a = ReadFailed ec))"
  | "a = Spun" and "pause_iteration E w = Inr (Spinning, w')"
  | "a = Ticked (messageList (m_incoming w))" and "pause_iteration E w = Inr (Rescheduled, w')"
  | "a = Stopped" and "pause_iteration E w = Inr (Exited, w')"
  | s where "a = PacketIn" and "packet_arrives E s w = Inr w'"
  using assms
proof cases
  case (header_read bs w1)
  show thesis by (rule that(1) [OF header_read_only [OF header_read(4,5)]]) (simp_all add: header_read)
next
  case (data_read n bs w1)
  show thesis by (rule that(1) [OF data_read_only [OF data_read(4,5)] accepted_ok]) (simp_all add: data_read)
next
  case (header_failed ec)
  have "w' = w\<lparr>pending := None\<rparr>" using header_failed(4) by (rule iffD1 [OF read_failed_only(1) [OF header_failed(3)]])
  with read_failed_only(3,4) [OF header_failed(3)] show thesis by (intro that(1) [of "[]" False]) (simp_all add: header_failed(1))
next
  case (data_failed n ec)
  have "w' = w\<lparr>pending := None\<rparr>" using data_failed(4) by (rule iffD1 [OF read_failed_only(2) [OF data_failed(3)]])
  with read_failed_only(3,4) [OF data_failed(3)] show thesis by (intro that(1) [of "[]" False]) (simp_all add: data_failed(1))
next
  case (eof_closed op)
  show thesis by (rule that(1) [of "[]" False]) (simp_all add: eof_closed eof_closed_only)
next
  case eof_delivered
  show thesis by (rule that(1) [OF eof_delivered_only [OF eof_delivered(3)] accepted_ok]) (simp_all add: eof_delivered)
qed (use that in blast)+

section \<open>What every step keeps\<close>

lemma pause_spin: "pause_iteration E w = Inr (Spinning, w') \<Longrightarrow> w' = w"
  by (auto simp: pause_iteration_def outcome_simps Let_def split: if_splits)

lemma pause_stop: "pause_iteration E w = Inr (Exited, w') \<Longrightarrow> \<not> m_pause w \<and> w' = w\<lparr>m_pause := True\<rparr>"
  by (auto simp: pause_iteration_def outcome_simps Let_def split: if_splits)

section \<open>The invariant of the broker\<close>

text \<open>
  \<open>broker_ok\<close>: the agents are well-formed, every bundle in the queue is a well-formed
  conglomerate, and, where ns-3 keeps its laws, every agent can act.
\<close>

definition broker_ok :: "env \<Rightarrow> 'z broker_world_scheme \<Rightarrow> bool" where
  "broker_ok E w \<longleftrightarrow> agents_ok w \<and> (ns3_laws E \<longrightarrow> all_ready E w) \<and>
     (\<forall>c \<in> set (messageList (m_incoming w)). conglom_ok (lib E) c)"

lemma ready_history:
  "ns3_laws E \<Longrightarrow> ready E w p \<Longrightarrow> heap w' = heap w \<Longrightarrow> history w' = history w @ h \<Longrightarrow> ready E w' p"
  by (auto simp: ready_def mobility_stays)

lemma all_ready_history:
  assumes "ns3_laws E" and "all_ready E w" and "AllAgents w' = AllAgents w" and "heap w' = heap w"
    and "\<exists>h. history w' = history w @ h"
  shows "all_ready E w'"
  using assms ready_history [OF assms(1) _ assms(4)] by (auto simp: all_ready_def)

lemma agents_ok_cong: "AllAgents w' = AllAgents w \<Longrightarrow> heap w' = heap w \<Longrightarrow> agents_ok w' = agents_ok w"
  by (simp add: agents_ok_def)

lemma broker_ok_io:
  assumes "broker_ok E w" and "io_only w w'" and "queued w cs woke w'" and "\<And>c. c \<in> set cs \<Longrightarrow> conglom_ok (lib E) c"
  shows "broker_ok E w'"
proof -
  have "agents_ok w'" using assms(1,2) agents_ok_cong [of w' w] by (simp add: broker_ok_def io_only_def)
  moreover have "ns3_laws E \<longrightarrow> all_ready E w'"
    using assms(1,2) all_ready_history [of E w w'] by (auto simp: broker_ok_def io_only_def)
  ultimately show ?thesis using assms(1,3,4) by (auto simp: broker_ok_def queued_def)
qed

lemma step_ok:
  assumes "broker_step E w a w'" and "broker_ok E w"
  shows "broker_ok E w'"
  using assms(1)
proof (cases rule: io_step_cases)
  case (io cs woke)
  from assms(2) io(1-3) show ?thesis by (rule broker_ok_io)
next
  case spin
  then show ?thesis using pause_spin assms(2) by metis
next
  case tick
  from tick(2) obtain w2 where w2: "processIncoming E (w\<lparr>m_pause := True\<rparr>) = Inr w2" "m_incoming w' = m_incoming w2"
      "AllAgents w' = AllAgents w2" "heap w' = heap w2" "\<exists>h. history w' = history w2 @ h"
    by (rule pause_tick) simp
  let ?P = "\<lambda>w. agents_ok w \<and> (ns3_laws E \<longrightarrow> all_ready E w)"
  have start: "?P (w\<lparr>m_pause := True\<rparr>)"
    using assms(2) by (simp add: broker_ok_def agents_ok_def all_ready_def ready_def)
  have "drain E (messageList (m_incoming w)) (w\<lparr>m_pause := True\<rparr>) = Inr w2"
    using w2(1) by (simp add: processIncoming_def process_loop_drain)
  from this start have "?P w2" by (rule drain_inv) (simp, rule handle_bundle_ready)
  then have "agents_ok w' \<and> (ns3_laws E \<longrightarrow> all_ready E w')"
    using agents_ok_cong [OF w2(3,4)] all_ready_history [OF _ _ w2(3-5)] by blast
  then show ?thesis using processIncoming_only(2) [OF w2(1)] w2(2) by (simp add: broker_ok_def)
next
  case stop
  then show ?thesis using pause_stop [OF stop(2)] assms(2) by (simp add: broker_ok_def agents_ok_def all_ready_def ready_def)
next
  case (packet s)
  from packet_arrives_Inr [OF packet(2)] obtain h og where w': "w' = w\<lparr>history := history w @ h, m_outgoing := og\<rparr>" .
  have "agents_ok w'" using assms(2) agents_ok_cong [of w' w] by (simp add: w' broker_ok_def)
  moreover have "ns3_laws E \<longrightarrow> all_ready E w'"
    using assms(2) all_ready_history [of E w w'] by (simp add: w' broker_ok_def)
  ultimately show ?thesis using assms(2) by (simp add: broker_ok_def w')
qed

lemma run_ok: "broker_run E w acts w' \<Longrightarrow> broker_ok E w \<Longrightarrow> broker_ok E w'"
  by (induction rule: broker_run.induct) (auto intro: step_ok)

end
