(* ===== verification/Mailbox.thy ===== *)
theory Mailbox
  imports Broker_Steps
begin

text \<open>
  What the two threads of the broker promise, without the agents, the network and the texts: a
  mailbox that one thread fills and the other one empties, with a flag that says whose turn it is.
  The broker's steps simulate those of the mailbox (\<open>broker_sim\<close>), so what is proved of the
  mailbox's runs holds for the broker's.
\<close>

section \<open>Forward simulation\<close>

locale simulation =
  fixes crun :: "'c \<Rightarrow> 'a list \<Rightarrow> 'c \<Rightarrow> bool"
    and cstep :: "'c \<Rightarrow> 'a \<Rightarrow> 'c \<Rightarrow> bool"
    and astep :: "'s \<Rightarrow> 'a \<Rightarrow> 's option"
    and view :: "'c \<Rightarrow> 's"
  assumes run_Nil: "crun w [] w' \<Longrightarrow> w' = w"
    and run_snocE: "crun w (as @ [a]) w' \<Longrightarrow> \<exists>v. crun w as v \<and> cstep v a w'"
    and step_sim: "cstep w a w' \<Longrightarrow> astep (view w) a = Some (view w')"
begin

lemma run_sim: "crun w as w' \<Longrightarrow> machine_run astep (view w) as = Some (view w')"
proof (induction "as" arbitrary: w' rule: rev_induct)
  case Nil
  show ?case using run_Nil [OF Nil] by simp
next
  case (snoc a "as")
  from run_snocE [OF snoc.prems] obtain v where "crun w as v" "cstep v a w'" by blast
  then show ?case using snoc.IH step_sim by (simp add: machine_run_snoc)
qed

text \<open>A relation between the start, the actions and the state that the abstract runs keep, the others keep.\<close>

lemma run_keeps:
  assumes "\<And>s as s'. machine_run astep s as = Some s' \<Longrightarrow> R s as s'" and "crun w as w'"
  shows "R (view w) as (view w')"
  using assms run_sim by blast

end

section \<open>The mailbox\<close>

record mailbox =
  inbox :: "MessageConglomerate list"
  awake :: bool
  tick_no :: uint
  posted :: nat

definition post :: "MessageConglomerate list \<Rightarrow> mailbox \<Rightarrow> mailbox" where
  "post cs m = m\<lparr>inbox := inbox m @ cs, awake := True\<rparr>"

text \<open>
  A delivery, also the one at an end of file, adds and wakes; a tick takes everything and sleeps,
  having written two bundles; a stop sleeps. The simulator thread acts only when awake.
\<close>

fun mailbox_step :: "mailbox \<Rightarrow> action \<Rightarrow> mailbox option" where
  "mailbox_step m HeaderRead = Some m"
| "mailbox_step m (Delivered cs) = Some (post cs m)"
| "mailbox_step m (ReadFailed ec) = Some m"
| "mailbox_step m Spun = (if awake m then None else Some m)"
| "mailbox_step m (Ticked cs) =
     (if awake m \<and> cs = inbox m then Some \<lparr>inbox = [], awake = False, tick_no = tick_no m + 1, posted = posted m + 2\<rparr>
      else None)"
| "mailbox_step m Stopped = (if awake m then Some (m\<lparr>awake := False\<rparr>) else None)"
| "mailbox_step m PacketIn = Some m"

text \<open>What holds of every run of the mailbox.\<close>

definition accounts :: "mailbox \<Rightarrow> action list \<Rightarrow> mailbox \<Rightarrow> bool" where
  "accounts m acts m' \<longleftrightarrow> inbox m @ arrived acts = processed acts @ inbox m' \<and>
     ticks acts + stops acts + (if awake m' then 1 else 0) \<le> (if awake m then 1 else 0) + wakes acts \<and>
     tick_no m' = tick_no m + of_nat (ticks acts) \<and> posted m' = posted m + 2 * ticks acts"

lemma mailbox_step_accounts: "mailbox_step m a = Some m' \<Longrightarrow> accounts m [a] m'"
  by (cases a) (auto simp: accounts_def post_def split: if_splits)

lemma accounts_snoc:
  assumes "accounts m acts m1" and "accounts m1 [a] m'"
  shows "accounts m (acts @ [a]) m'"
proof -
  have "inbox m @ arrived (acts @ [a]) = processed acts @ (inbox m1 @ arrived [a])"
    using assms(1) by (simp add: accounts_def label_append flip: append_assoc)
  also have "\<dots> = processed (acts @ [a]) @ inbox m'" using assms(2) by (simp add: accounts_def label_append)
  finally show ?thesis using assms by (simp add: accounts_def label_append algebra_simps)
qed

lemma mailbox_run_accounts: "machine_run mailbox_step m acts = Some m' \<Longrightarrow> accounts m acts m'"
proof (induction acts arbitrary: m' rule: rev_induct)
  case Nil
  then show ?case by (simp add: accounts_def)
next
  case (snoc a acts)
  then obtain m1 where "machine_run mailbox_step m acts = Some m1" "mailbox_step m1 a = Some m'"
    by (auto simp: machine_run_snoc split: option.splits)
  then show ?case using snoc.IH mailbox_step_accounts accounts_snoc by blast
qed

section \<open>The broker is a mailbox\<close>

definition mailbox_of :: "'z broker_world_scheme \<Rightarrow> mailbox" where
  "mailbox_of w = \<lparr>inbox = messageList (m_incoming w), awake = (\<not> m_pause w), tick_no = m_global_tick w,
     posted = length (written (history w))\<rparr>"

lemma mailbox_io: "io_only w w' \<Longrightarrow> queued w cs woke w' \<Longrightarrow> woke \<or> cs = [] \<Longrightarrow>
    mailbox_of w' = (if woke then post cs (mailbox_of w) else mailbox_of w)"
  by (auto simp: mailbox_of_def io_only_def queued_def post_def)

lemma broker_step_sim:
  assumes "broker_step E w a w'"
  shows "mailbox_step (mailbox_of w) a = Some (mailbox_of w')"
  using assms
proof (cases rule: io_step_cases)
  case (io cs woke)
  then have "mailbox_of w' = (if woke then post cs (mailbox_of w) else mailbox_of w)" using mailbox_io [OF io(1,2)] by blast
  then show ?thesis using io(4,5) by (cases woke) auto
next
  case spin
  then have "m_pause w" by (auto simp: pause_iteration_def outcome_simps Let_def split: if_splits)
  with spin(1) pause_spin [OF spin(2)] show ?thesis by (simp add: mailbox_of_def)
next
  case tick
  from tick(2) obtain w2 where w2: "\<not> m_pause w" "processIncoming E (w\<lparr>m_pause := True\<rparr>) = Inr w2" "m_incoming w' = m_incoming w2"
      "m_pause w'" "m_global_tick w' = m_global_tick w + 1" "length (written (history w')) = length (written (history w)) + 2"
    by (rule pause_tick) simp
  with processIncoming_only(2) [OF w2(2)] tick(1) show ?thesis by (simp add: mailbox_of_def)
next
  case stop
  with pause_stop [OF stop(2)] show ?thesis by (simp add: mailbox_of_def)
next
  case (packet s)
  then show ?thesis by (auto elim!: packet_arrives_Inr simp: mailbox_of_def written_append)
qed

inductive_cases broker_run_snocE: "broker_run E w (as @ [a]) w'"

interpretation broker_sim: simulation "broker_run E" "broker_step E" mailbox_step mailbox_of for E
  by unfold_locales (auto simp: run_nil_iff elim: broker_run_snocE intro: broker_step_sim)

lemma run_effect:
  assumes "broker_run E w acts w'"
  shows "messageList (m_incoming w) @ arrived acts = processed acts @ messageList (m_incoming w') \<and>
    ticks acts + stops acts + (if m_pause w' then 0 else 1) \<le> (if m_pause w then 0 else 1) + wakes acts \<and>
    m_global_tick w' = m_global_tick w + of_nat (ticks acts) \<and>
    length (written (history w')) = length (written (history w)) + 2 * ticks acts"
  using broker_sim.run_keeps [of accounts, OF mailbox_run_accounts assms]
  by (auto simp: accounts_def mailbox_of_def split: if_splits)

end
