(* ===== verification/Registration.thy ===== *)
theory Registration
  imports Agents
begin

text \<open>
  \<open>Registration\<close> and \<open>WFD_Registration\<close> of model/network/registration.h and .cc: the
  synchronous dialogue with Sim Mobility before the simulation starts. The \<open>broker\<close> pointer
  gives access to the connection only, so the state is the agents' one; the dynamic class of
  a registration is its \<open>wfd_reg\<close> part.

  The retry loop of \<open>doConnect\<close> counts in an \<open>unsigned int\<close> and is compared for equality, so
  it ends for every timeout: the distance to the timeout is the measure.
\<close>

section \<open>State\<close>

record WFD_maps =
  WFD_Groups :: "(string, WFD_Group) smap"
  WFD_Membership :: "(string, string) smap"

record Registration =
  m_application :: string
  m_simmobility_address :: string
  m_simmobility_port :: string
  wfd_reg :: "WFD_maps option"

definition new_Registration :: "string \<Rightarrow> Registration" where
  "new_Registration app =
     \<lparr>m_application = app, m_simmobility_address = [], m_simmobility_port = [], wfd_reg = None\<rparr>"

definition new_WFD_Registration :: "string \<Rightarrow> Registration" where
  "new_WFD_Registration app = (new_Registration app)\<lparr>wfd_reg := Some \<lparr>WFD_Groups = [], WFD_Membership = []\<rparr>\<rparr>"

section \<open>Connecting\<close>

lemma retries_left: "sec + 1 \<noteq> timeout \<Longrightarrow> unat (timeout - sec - 2) < unat (timeout - sec - 1)" for sec timeout :: uint
proof -
  assume "sec + 1 \<noteq> timeout"
  then have ne: "timeout - sec - 1 \<noteq> 0" by (metis add.commute diff_diff_eq right_minus_eq)
  have "timeout - sec - 2 = timeout - sec - 1 - 1" by simp
  moreover have "unat (timeout - sec - 1 - 1) < unat (timeout - sec - 1)"
    using ne by (metis diff_less_mono2 unat_minus_one unat_gt_0 diff_less zero_less_one)
  ultimately show ?thesis by simp
qed

function connect_loop :: "env \<Rightarrow> uint \<Rightarrow> uint \<Rightarrow> 'z net_world_scheme \<Rightarrow> (bool \<times> 'z net_world_scheme) outcome" where
  "connect_loop E timeout sec w =
     ebind (connection_connect E w) (\<lambda>(up, w1).
     if up then Inr (True, w1)
     else if sec + 1 = timeout then Inr (False, w1)
     else connect_loop E timeout (sec + 1) (call (Sleep 1) w1))"
  by pat_completeness auto

termination
  by (relation "measure (\<lambda>(E, timeout, sec, w). unat (timeout - sec - 1))") (auto simp: retries_left)

declare connect_loop.simps [simp del]

definition doConnect :: "env \<Rightarrow> uint \<Rightarrow> 'z net_world_scheme \<Rightarrow> (bool \<times> 'z net_world_scheme) outcome" where
  "doConnect E timeout w = connect_loop E timeout 0 w"

section \<open>The dialogue\<close>

text \<open>
  What \<open>doWhoAreYou\<close>, \<open>doAGENTS_INFO\<close> and \<open>doREADY\<close> begin with: a bundle that must consist
  of a single message of the expected type. None when the caller returns false.
\<close>

definition expect_message ::
  "env \<Rightarrow> string \<Rightarrow> 'z net_world_scheme \<Rightarrow> ((BundleHeader \<times> MessageConglomerate) option \<times> 'z net_world_scheme) outcome" where
  "expect_message E expectedType w =
     ebind (receive E new_BundleHeader [] w) (\<lambda>(got, head, str, w1).
     if \<not> got then Inr (None, w1) else
     ebind (deserialize_single (lib E) head str expectedType new_MessageBase new_MessageConglomerate) (\<lambda>(ok, msg, conglom).
     if \<not> ok then Inr (None, w1) else Inr (Some (head, conglom), w1)))"

definition doWhoAreYou :: "env \<Rightarrow> 'z net_world_scheme \<Rightarrow> (bool \<times> 'z net_world_scheme) outcome" where
  "doWhoAreYou E w =
     ebind (expect_message E ''id_request'' w) (\<lambda>(got, w1).
     case got of None \<Rightarrow> Inr (False, w1) | Some (head, conglom) \<Rightarrow>
     ebind (getJsonMessage conglom 0) (\<lambda>props.
     if isNull props then throw ''Can't deserialize binary id_request (in registration).'' else
     ebind (js_isMember (lib E) props ''token'') (\<lambda>has.
     if \<not> has then Inr (False, w1) else
     ebind (get_string (lib E) props ''token'') (\<lambda>token.
     ebind (makeIdResponse (lib E) (serialize_begin new_OngoingSerialization) token) (\<lambda>res.
     ebind (serialize_end (lib E) res head []) (\<lambda>(_, head', whoami).
     send E head' whoami w1))))))"

text \<open>One agent of \<open>doAGENTS_INFO\<close>; it is not initialised yet.\<close>

definition register_agent :: "string \<Rightarrow> string \<Rightarrow> 'z agent_world_scheme \<Rightarrow> 'z agent_world_scheme outcome" where
  "register_agent app agId w =
     (if app = ''Default'' then
        let (p, w1) = create_object (new_Agent agId None) w in Inr (AddAgent agId (Some p) w1)
      else if app = ''stk'' then
        let (p, w1) = create_object (new_WFD_Agent agId) w in Inr (AddAgent agId (Some p) w1)
      else throw ''Invalid m_application.'')"

definition doAGENTS_INFO :: "env \<Rightarrow> Registration \<Rightarrow> 'z agent_world_scheme \<Rightarrow> (bool \<times> 'z agent_world_scheme) outcome" where
  "doAGENTS_INFO E reg w =
     ebind (expect_message E ''new_agents'' w) (\<lambda>(got, w1).
     case got of None \<Rightarrow> Inr (False, w1) | Some (head, conglom) \<Rightarrow>
     ebind (getJsonMessage conglom 0) (\<lambda>props.
     if isNull props then throw ''Can't deserialize binary new_agents (in registration).'' else
     ebind (parseNewAgents (lib E) conglom 0) (\<lambda>aInfo.
     if addAgentIds aInfo = [] then Inr (False, w1) else
     ebind (fold_outcome (register_agent (m_application reg)) (addAgentIds aInfo) w1) (\<lambda>w2.
     Inr (True, w2)))))"

definition doREADY :: "env \<Rightarrow> 'z net_world_scheme \<Rightarrow> (bool \<times> 'z net_world_scheme) outcome" where
  "doREADY E w =
     ebind (expect_message E ''id_ack'' w) (\<lambda>(got, w1). Inr (got \<noteq> None, w1))"

section \<open>Initialisation\<close>

text \<open>\<open>Registration::doInitialization\<close>: \<open>init\<close> leaves the map that is iterated over alone.\<close>

definition base_doInitialization :: "env \<Rightarrow> 'z agent_world_scheme \<Rightarrow> (bool \<times> 'z agent_world_scheme) outcome" where
  "base_doInitialization E w =
     ebind (fold_outcome (\<lambda>(_, p). \<lambda>w. deref p (\<lambda>this. init E None this w)) (AllAgents w) w) (\<lambda>w1. Inr (True, w1))"

text \<open>One turn of the loop of \<open>doRoleAssignment\<close>: the group and the membership so far.\<close>

definition assign_one ::
  "'z agent_world_scheme \<Rightarrow> string \<times> ptr \<Rightarrow> WFD_Group \<times> (string, string) smap \<Rightarrow> (WFD_Group \<times> (string, string) smap) outcome" where
  "assign_one w it s = (case s of (g, membership) \<Rightarrow>
     deref (snd it) (\<lambda>this.
     ebind (GetAgentId this w) (\<lambda>agId.
     Inr (g\<lparr>wg_members := wg_members g @ [agId]\<rparr>, map_put agId (wg_groupId g) membership))))"

definition doRoleAssignment :: "'z agent_world_scheme \<Rightarrow> WFD_maps \<Rightarrow> (bool \<times> WFD_maps) outcome" where
  "doRoleAssignment w r =
     ebind (map_begin (AllAgents w)) (\<lambda>(_, p).
     deref p (\<lambda>this.
     ebind (GetAgentId this w) (\<lambda>first.
     ebind (fold_outcome (assign_one w) (AllAgents w)
              (new_WFD_Group\<lparr>wg_groupId := first, wg_GO := first\<rparr>, WFD_Membership r)) (\<lambda>(g, membership).
     Inr (True, \<lparr>WFD_Groups = map_put (wg_groupId g) g (WFD_Groups r), WFD_Membership = membership\<rparr>)))))"

definition wfd_doInitialization ::
  "env \<Rightarrow> WFD_maps \<Rightarrow> 'z agent_world_scheme \<Rightarrow> (bool \<times> WFD_maps \<times> 'z agent_world_scheme) outcome" where
  "wfd_doInitialization E r w =
     ebind (doRoleAssignment w r) (\<lambda>(ok1, r1).
     if \<not> ok1 then Inr (False, r1, w) else
     ebind (base_doInitialization E w) (\<lambda>(ok2, w1).
     if \<not> ok2 then Inr (False, r1, w1) else
     ebind (makeGoClient (lib E) (serialize_begin new_OngoingSerialization) (WFD_Groups r1)) (\<lambda>res.
     ebind (serialize_end (lib E) res new_BundleHeader []) (\<lambda>(_, head, msg).
     ebind (send E head msg w1) (\<lambda>(ok3, w2).
     if \<not> ok3 then Inr (False, r1, w2) else
     ebind (configAll E w2) (\<lambda>w3. Inr (True, r1, w3)))))))"

text \<open>The virtual \<open>doInitialization\<close>.\<close>

definition doInitialization ::
  "env \<Rightarrow> Registration \<Rightarrow> 'z agent_world_scheme \<Rightarrow> (bool \<times> Registration \<times> 'z agent_world_scheme) outcome" where
  "doInitialization E reg w = (case wfd_reg reg of
       None \<Rightarrow> ebind (base_doInitialization E w) (\<lambda>(ok, w1). Inr (ok, reg, w1))
     | Some r \<Rightarrow> ebind (wfd_doInitialization E r w) (\<lambda>(ok, r1, w1). Inr (ok, reg\<lparr>wfd_reg := Some r1\<rparr>, w1)))"

definition registration_start ::
  "env \<Rightarrow> Registration \<Rightarrow> 'z agent_world_scheme \<Rightarrow> (bool \<times> Registration \<times> 'z agent_world_scheme) outcome" where
  "registration_start E reg w =
     ebind (doConnect E 200 w) (\<lambda>(ok1, w1).
     if \<not> ok1 then Inr (False, reg, w1) else
     ebind (doWhoAreYou E w1) (\<lambda>(ok2, w2).
     if \<not> ok2 then Inr (False, reg, w2) else
     ebind (doAGENTS_INFO E reg (call (Sleep 1) w2)) (\<lambda>(ok3, w3).
     if \<not> ok3 then Inr (False, reg, w3) else
     ebind (doInitialization E reg w3) (\<lambda>(ok4, reg4, w4).
     if \<not> ok4 then Inr (False, reg4, w4) else
     ebind (doREADY E w4) (\<lambda>(ok5, w5). Inr (ok5, reg4, w5))))))"

section \<open>The retry loop\<close>

fun attempts :: "history \<Rightarrow> nat" where
  "attempts [] = 0"
| "attempts (NetConnect _ # h) = Suc (attempts h)"
| "attempts (_ # h) = attempts h"

fun naps :: "history \<Rightarrow> nat" where
  "naps [] = 0"
| "naps (Sleep _ # h) = Suc (naps h)"
| "naps (_ # h) = naps h"

lemma attempts_append [simp]: "attempts (h @ h') = attempts h + attempts h'"
  by (induction h rule: attempts.induct) simp_all

lemma naps_append [simp]: "naps (h @ h') = naps h + naps h'"
  by (induction h rule: naps.induct) simp_all

text \<open>The documented behaviour of a resolver that finds the server.\<close>

definition resolves :: "env \<Rightarrow> bool" where
  "resolves E \<longleftrightarrow> (\<forall>h host port. net_resolve E (h @ [NetResolve host port]) \<noteq> None)"

text \<open>What the operations on the network leave: everything but the connection, and what is written.\<close>

definition net_only :: "'z net_world_scheme \<Rightarrow> 'z net_world_scheme \<Rightarrow> bool" where
  "net_only w w' \<longleftrightarrow> net_world.more w' = net_world.more w \<and> pending w' = pending w \<and>
     (m_session (conn w) \<noteq> None \<longrightarrow> m_session (conn w') \<noteq> None) \<and> (\<exists>h. history w' = history w @ h) \<and>
     (NetClose \<in> set (history w') \<longleftrightarrow> NetClose \<in> set (history w))"

lemma net_only_refl [simp]: "net_only w w"
  by (simp add: net_only_def)

lemma net_only_trans [trans]: "net_only u v \<Longrightarrow> net_only v w \<Longrightarrow> net_only u w"
  by (auto simp: net_only_def)

lemma net_only_call [simp]: "e \<noteq> NetClose \<Longrightarrow> net_only w (call e w)"
  by (auto simp: net_only_def call_def)

lemma net_only_sleep: "net_only w (call (Sleep n) w)"
  by simp

lemma net_only_session [simp]: "net_only w (set_session s w)"
  by (simp add: net_only_def set_session_def)

lemma connection_connect_Inr:
  assumes "connection_connect E w = Inr (up, w')"
  obtains q ep s where "w' = call (NetConnect ep) (call (NetResolve (fst q) (snd q)) (call (NetResolve (fst q) (snd q)) (set_session s w)))"
    and "up \<longleftrightarrow> net_connect E (history w')"
proof -
  let ?w0 = "case m_session (conn w) of None \<Rightarrow> set_session new_Session w | Some _ \<Rightarrow> w"
  have "\<exists>s. ?w0 = set_session s w"
  proof (cases "m_session (conn w)")
    case (Some s)
    then show ?thesis by (intro exI [of _ s]) (simp add: set_session_def)
  qed auto
  then obtain s where s: "?w0 = set_session s w" by blast
  show thesis
    using assms that [where q = "(simmob_host (conn w), simmob_port (conn w))"] unfolding connection_connect_def s
    by (auto simp: Let_def session_connect_def split: if_splits option.splits)
qed

lemma connection_connect_resolves:
  assumes "resolves E"
  obtains up w' where "connection_connect E w = Inr (up, w')"
proof -
  define q where "q = NetResolve (simmob_host (conn w)) (simmob_port (conn w))"
  define w0 where "w0 = (case m_session (conn w) of None \<Rightarrow> set_session new_Session w | Some _ \<Rightarrow> w)"
  have some: "\<exists>ep. net_resolve E (h @ [q]) = Some ep" for h using assms by (auto simp: resolves_def q_def)
  obtain ep where ep: "net_resolve E (history w0 @ [q]) = Some ep" using some by blast
  have "net_resolve E (history w0 @ [q, q]) \<noteq> None" using some [of "history w0 @ [q]"] by auto
  with ep have "connection_connect E w = Inr (session_connect E ep (call q (call q w0)))"
    by (simp add: connection_connect_def Let_def flip: q_def w0_def)
  then show thesis by (cases "session_connect E ep (call q (call q w0))") (auto intro: that)
qed

lemma connect_loop_total:
  assumes "resolves E"
  shows "\<exists>ok w' n. connect_loop E timeout sec w = Inr (ok, w') \<and> net_only w w' \<and> m_session (conn w') \<noteq> None \<and>
    written (history w') = written (history w) \<and> consumed (history w') = consumed (history w) \<and>
    attempts (history w') = attempts (history w) + n \<and> naps (history w') = naps (history w) + (n - 1) \<and>
    1 \<le> n \<and> n \<le> Suc (unat (timeout - sec - 1)) \<and> (\<not> ok \<longrightarrow> n = Suc (unat (timeout - sec - 1))) \<and>
    (ok \<longleftrightarrow> net_connect E (history w'))"
  using assms
proof (induction E timeout sec w rule: connect_loop.induct)
  case (1 E timeout sec w)
  obtain up w1 where c: "connection_connect E w = Inr (up, w1)"
    using connection_connect_resolves [OF "1.prems"] by blast
  from c have w1: "net_only w w1 \<and> m_session (conn w1) \<noteq> None \<and> written (history w1) = written (history w) \<and>
      consumed (history w1) = consumed (history w) \<and>
      attempts (history w1) = Suc (attempts (history w)) \<and> naps (history w1) = naps (history w) \<and> (up \<longleftrightarrow> net_connect E (history w1))"
    by (rule connection_connect_Inr) (simp add: net_only_def written_append consumed_append set_session_def call_def)
  show ?case
  proof (cases "up \<or> sec + 1 = timeout")
    case True
    then have "connect_loop E timeout sec w = Inr (up, w1)"
      using c by (subst connect_loop.simps) auto
    moreover have "timeout - sec - 1 = 0" if "\<not> up" using True that by auto
    ultimately show ?thesis using w1 by (intro exI [of _ up] exI [of _ w1] exI [of _ 1]) auto
  next
    case False
    then obtain ok w2 n where w2: "connect_loop E timeout (sec + 1) (call (Sleep 1) w1) = Inr (ok, w2)"
      and rest: "net_only (call (Sleep 1) w1) w2" "m_session (conn w2) \<noteq> None"
        "written (history w2) = written (history (call (Sleep 1) w1))" "consumed (history w2) = consumed (history (call (Sleep 1) w1))"
        "attempts (history w2) = attempts (history (call (Sleep 1) w1)) + n"
        "naps (history w2) = naps (history (call (Sleep 1) w1)) + (n - 1)"
        "1 \<le> n" "n \<le> Suc (unat (timeout - (sec + 1) - 1))" "\<not> ok \<longrightarrow> n = Suc (unat (timeout - (sec + 1) - 1))"
        "ok \<longleftrightarrow> net_connect E (history w2)"
      using "1.IH" [OF c refl _ _ "1.prems"] by auto
    have loop: "connect_loop E timeout sec w = Inr (ok, w2)"
      using c w2 False by (subst connect_loop.simps) simp
    have "timeout - sec - 1 \<noteq> 0" using False by (metis add.commute diff_diff_eq right_minus_eq)
    then have "unat (timeout - sec - 1) = Suc (unat (timeout - (sec + 1) - 1))"
      using unat_minus_one [of "timeout - sec - 1"] by (simp add: unat_gt_0 algebra_simps)
    moreover have "net_only w w2"
      using w1 rest(1) net_only_sleep net_only_trans by metis
    ultimately show ?thesis
      using loop rest w1 by (intro exI [of _ ok] exI [of _ w2] exI [of _ "Suc n"]) (auto simp: written_append consumed_append)
  qed
qed

section \<open>What the dialogue leaves alone\<close>

lemma net_only_agents:
  assumes "net_only w w'"
  shows "heap w' = heap w" and "AllAgents w' = AllAgents w" and "agent_world.more w' = agent_world.more w"
    and "m_outgoing w' = m_outgoing w" and "wfd_go_nc w' = wfd_go_nc w" and "wfd_cln_nc w' = wfd_cln_nc w"
  using assms by (cases w; cases w'; simp add: net_only_def)+

text \<open>Reading: the session has its buffers filled, nothing is written.\<close>

lemma receive_only:
  assumes "receive E h t w = Inr (ok, h', t', w')"
  shows "net_only w w'" and "written (history w') = written (history w)"
    and "attempts (history w') = attempts (history w)"
  using assms
  by (auto simp: receive_def with_session_Inr session_read_def Let_def outcome_simps net_only_def set_session_def call_def
      written_append split: option.splits if_splits)

lemma expect_message_only:
  assumes "expect_message E ty w = Inr (r, w')"
  shows "net_only w w'" and "written (history w') = written (history w)"
    and "attempts (history w') = attempts (history w)"
  using assms receive_only by (auto simp: expect_message_def outcome_simps split: if_splits)

text \<open>What a message that was expected looks like.\<close>

lemma deserialize_single_Inr:
  assumes "deserialize_single J h s ty b c0 = Inr (True, b', c)"
  shows "deserialize J h s c0 = Inr (True, c)" and "getCount c = 1" and "getBaseMessage c 0 = Inr b'" and "msg_type b' = ty"
  using assms by (auto simp: deserialize_single_def outcome_simps split: if_splits)

lemma expect_message_Some:
  assumes "expect_message E ty w = Inr (Some (h, c), w')"
  obtains s b where "receive E new_BundleHeader [] w = Inr (True, h, s, w')"
    and "deserialize (lib E) h s new_MessageConglomerate = Inr (True, c)"
    and "getCount c = 1" and "getBaseMessage c 0 = Inr b" and "msg_type b = ty"
proof -
  from assms obtain s b where r: "receive E new_BundleHeader [] w = Inr (True, h, s, w')"
    and d: "deserialize_single (lib E) h s ty new_MessageBase new_MessageConglomerate = Inr (True, b, c)"
    by (auto simp: expect_message_def outcome_simps split: if_splits)
  show thesis by (rule that [OF r deserialize_single_Inr [OF d]])
qed

lemma send_only:
  assumes "send E h t w = Inr (ok, w')"
  shows "net_only w w'" and "written (history w') = written (history w) @ [make_bundle_header h @ t]"
    and "attempts (history w') = attempts (history w)"
proof -
  from assms show "net_only w w'"
    by (rule send_Inr) (simp add: net_only_def set_session_def call_def)
  from assms show "written (history w') = written (history w) @ [make_bundle_header h @ t]"
    by (rule send_Inr) (simp add: written_append)
  from assms show "attempts (history w') = attempts (history w)"
    by (rule send_Inr) simp
qed

text \<open>The answer to an id_request names its token.\<close>

lemma doWhoAreYou_Inr:
  assumes "doWhoAreYou E w = Inr (True, w')"
  obtains h c w1 token og ok h' msg where "expect_message E ''id_request'' w = Inr (Some (h, c), w1)"
    and "get_string (lib E) (messages_json c ! 0) ''token'' = Inr token"
    and "makeIdResponse (lib E) (serialize_begin new_OngoingSerialization) token = Inr og"
    and "serialize_end (lib E) og h [] = Inr (ok, h', msg)" and "send E h' msg w1 = Inr (True, w')"
proof -
  from assms obtain got w1 where e: "expect_message E ''id_request'' w = Inr (got, w1)"
    by (auto simp: doWhoAreYou_def outcome_simps)
  show thesis
  proof (cases got)
    case None
    with assms e show thesis by (simp add: doWhoAreYou_def)
  next
    case (Some hc)
    obtain h c where hc: "hc = (h, c)" by (cases hc)
    with assms e Some show thesis
      using that [of h c w1] by (auto simp: doWhoAreYou_def outcome_simps getJsonMessage_def vec_at_Inr split: if_splits)
  qed
qed

lemma doWhoAreYou_only:
  assumes "doWhoAreYou E w = Inr (ok, w')"
  shows "net_only w w'"
  using assms
  by (auto simp: doWhoAreYou_def outcome_simps split: option.splits if_splits
      dest: expect_message_only(1) send_only(1) intro: net_only_trans)

lemma doREADY_only:
  assumes "doREADY E w = Inr (ok, w')"
  shows "net_only w w'" and "written (history w') = written (history w)"
  using assms expect_message_only by (auto simp: doREADY_def outcome_simps)

end
