(* ===== verification/Registration_Init.thy ===== *)
theory Registration_Init
  imports Registration
begin

text \<open>
  What registering and initialising the agents does. \<open>fresh_agents app\<close> is what \<open>doAGENTS_INFO\<close>
  establishes: every entry of the map points to a new agent of the application's class.
  Initialising a \<open>Default\<close> application makes every agent ready; initialising an \<open>stk\<close> one gives
  every agent a role in group 0, the first agent of the map being the group owner, and
  leaves it without the node and the socket that the handlers use.
\<close>

section \<open>Registering\<close>

definition new_for :: "string \<Rightarrow> string \<Rightarrow> Agent" where
  "new_for app agId = (if app = ''Default'' then new_Agent agId None else new_WFD_Agent agId)"

definition fresh_agents :: "string \<Rightarrow> 'z agent_world_scheme \<Rightarrow> bool" where
  "fresh_agents app w \<longleftrightarrow> agents_ok w \<and>
     (\<forall>k p. map_of (AllAgents w) k = Some p \<longrightarrow> (\<exists>q. p = Some q \<and> heap w ! q = new_for app k))"

lemma new_for_simps [simp]: "m_AgentId (new_for app k) = k" "m_node (new_for app k) = None"
  "m_socket (new_for app k) = None" "iic (new_for app k) = []" "nc (new_for app k) = []"
  by (simp_all add: new_for_def new_WFD_Agent_def new_Agent_def)

lemma new_for_wfd: "wfd (new_for ''Default'' k) = None"
  "wfd (new_for ''stk'' k) = Some \<lparr>m_wfd_node = None, wfd_role = None, wfd_groupId = None\<rparr>"
  by (simp_all add: new_for_def new_WFD_Agent_def new_Agent_def)

lemma register_agent_eq:
  assumes "app = ''Default'' \<or> app = ''stk''"
  shows "register_agent app k w = Inr (AddAgent k (Some (length (heap w))) (w\<lparr>heap := heap w @ [new_for app k]\<rparr>))"
  using assms by (auto simp: register_agent_def create_object_def new_for_def)

lemma register_agent_fresh:
  assumes "fresh_agents app w" and "app = ''Default'' \<or> app = ''stk''"
  shows "\<exists>w'. register_agent app k w = Inr w' \<and> fresh_agents app w' \<and> agents_only w w' \<and> history w' = history w \<and>
    dom (map_of (AllAgents w')) = insert k (dom (map_of (AllAgents w))) \<and>
    wfd_go_nc w' = wfd_go_nc w \<and> wfd_cln_nc w' = wfd_cln_nc w"
proof -
  let ?w1 = "w\<lparr>heap := heap w @ [new_for app k]\<rparr>"
  let ?w' = "AddAgent k (Some (length (heap w))) ?w1"
  have ok: "agents_ok w" and M: "map_ok (AllAgents w)" using assms(1) by (simp_all add: fresh_agents_def agents_ok_def)
  have "agents_ok ?w'"
    by (rule AddAgent_ok) (simp_all add: create_object_ok ok nth_append)
  moreover have "\<exists>q. p = Some q \<and> heap ?w' ! q = new_for app j" if j: "map_of (AllAgents ?w') j = Some p" for j p
  proof (cases "map_of (AllAgents w) j = Some p")
    case True
    then obtain q where q: "p = Some q" "heap w ! q = new_for app j"
      using assms(1) by (auto simp: fresh_agents_def)
    then have "q < length (heap w)" using ok True by (simp add: agents_ok_def)
    with q show ?thesis by (simp add: AddAgent_def nth_append)
  next
    case False
    then have "j = k" "p = Some (length (heap w))"
      using j M by (auto simp: AddAgent_def map_of_insert split: if_splits)
    then show ?thesis by (simp add: AddAgent_def nth_append)
  qed
  ultimately have "fresh_agents app ?w'" by (simp add: fresh_agents_def)
  moreover have "dom (map_of (AllAgents ?w')) = insert k (dom (map_of (AllAgents w)))"
    using M by (auto simp: AddAgent_def map_of_insert)
  moreover have "agents_only w ?w'" by (simp add: agents_only_def AddAgent_def)
  ultimately show ?thesis
    using register_agent_eq [OF assms(2)] by (intro exI [of _ ?w']) (simp add: AddAgent_def)
qed

lemma register_all:
  assumes "fresh_agents app w" and "app = ''Default'' \<or> app = ''stk''"
  shows "\<exists>w'. fold_outcome (register_agent app) ids w = Inr w' \<and> fresh_agents app w' \<and> agents_only w w' \<and>
    history w' = history w \<and> dom (map_of (AllAgents w')) = set ids \<union> dom (map_of (AllAgents w)) \<and>
    wfd_go_nc w' = wfd_go_nc w \<and> wfd_cln_nc w' = wfd_cln_nc w"
  using assms(1)
proof (induction ids arbitrary: w)
  case (Cons k ids)
  obtain w1 where w1: "register_agent app k w = Inr w1" "fresh_agents app w1" "agents_only w w1" "history w1 = history w"
      "dom (map_of (AllAgents w1)) = insert k (dom (map_of (AllAgents w)))"
      "wfd_go_nc w1 = wfd_go_nc w" "wfd_cln_nc w1 = wfd_cln_nc w"
    using register_agent_fresh [OF Cons.prems assms(2)] by blast
  obtain w2 where "fold_outcome (register_agent app) ids w1 = Inr w2" "fresh_agents app w2" "agents_only w1 w2"
      "history w2 = history w1" "dom (map_of (AllAgents w2)) = set ids \<union> dom (map_of (AllAgents w1))"
      "wfd_go_nc w2 = wfd_go_nc w1" "wfd_cln_nc w2 = wfd_cln_nc w1"
    using Cons.IH [OF w1(2)] by blast
  with w1 show ?case by (auto intro: agents_only_trans)
qed simp

text \<open>The pointers of the map are pairwise different.\<close>

lemma fresh_pointers:
  assumes "fresh_agents app w"
  shows "\<forall>(k, p) \<in> set (AllAgents w). \<exists>q. p = Some q \<and> q < length (heap w) \<and> heap w ! q = new_for app k"
    and "distinct (map snd (AllAgents w))"
proof -
  have ok: "agents_ok w" using assms by (simp add: fresh_agents_def)
  then have dist: "distinct (map fst (AllAgents w))" by (simp add: agents_ok_def map_ok_distinct)
  show ptr: "\<forall>(k, p) \<in> set (AllAgents w). \<exists>q. p = Some q \<and> q < length (heap w) \<and> heap w ! q = new_for app k"
  proof (intro ballI, clarify)
    fix k p assume "(k, p) \<in> set (AllAgents w)"
    then have "map_of (AllAgents w) k = Some p" using dist by simp
    then show "\<exists>q. p = Some q \<and> q < length (heap w) \<and> heap w ! q = new_for app k"
      using assms ok by (fastforce simp: fresh_agents_def agents_ok_def)
  qed
  have target: "heap w ! the (snd z) = new_for app (fst z)" if "z \<in> set (AllAgents w)" for z
    using bspec [OF ptr that] by (cases z) auto
  have "inj_on snd (set (AllAgents w))"
  proof (rule inj_onI)
    fix x y assume xy: "x \<in> set (AllAgents w)" "y \<in> set (AllAgents w)" "snd x = snd y"
    then have "m_AgentId (new_for app (fst x)) = m_AgentId (new_for app (fst y))"
      using target [OF xy(1)] target [OF xy(2)] by simp
    with xy show "x = y" by (simp add: prod_eq_iff)
  qed
  moreover have "distinct (AllAgents w)" using dist by (simp add: distinct_map)
  ultimately show "distinct (map snd (AllAgents w))" by (simp add: distinct_map)
qed

section \<open>Initialising the agents of a Default application\<close>

lemma init_all_ready:
  assumes "ns3_laws E" and "distinct (map snd m)"
    and "\<forall>(k, p) \<in> set m. \<exists>q. p = Some q \<and> q < length (heap w) \<and> wfd (heap w ! q) = None"
  shows "\<exists>w'. fold_outcome (\<lambda>(_, p). \<lambda>w. deref p (\<lambda>this. init E None this w)) m w = Inr w' \<and>
    (\<forall>(k, p) \<in> set m. ready E w' (the p)) \<and> (\<forall>q. Some q \<notin> snd ` set m \<and> ready E w q \<longrightarrow> ready E w' q) \<and>
    agents_only w w' \<and> AllAgents w' = AllAgents w \<and> (agents_ok w \<longrightarrow> agents_ok w') \<and> (\<exists>h. history w' = history w @ h)"
  using assms(2,3)
proof (induction m arbitrary: w)
  case (Cons kp m)
  obtain k p where kp: "kp = (k, p)" by (cases kp)
  then obtain q where q: "p = Some q" "q < length (heap w)" "wfd (heap w ! q) = None"
    using Cons.prems(2) by auto
  obtain w1 where w1: "agent_init E None q w = Inr w1" "ready E w1 q"
    using agent_init_ready [OF assms(1) q(2)] by blast
  have same: "same_agents q w w1" using w1(1) by (rule agent_init_same)
  have i: "init E None q w = Inr w1" using w1(1) q by (simp add: init_def with_agent_def)
  have "\<forall>(k, p) \<in> set m. \<exists>a. p = Some a \<and> a < length (heap w1) \<and> wfd (heap w1 ! a) = None"
  proof (intro ballI, clarify)
    fix j r assume jr: "(j, r) \<in> set m"
    then obtain a where a: "r = Some a" "a < length (heap w)" "wfd (heap w ! a) = None" using Cons.prems(2) by auto
    have "a \<noteq> q" using jr Cons.prems(1) a(1) q(1) kp by (force simp: image_iff)
    with a same show "\<exists>a. r = Some a \<and> a < length (heap w1) \<and> wfd (heap w1 ! a) = None" by (simp add: same_agents_def)
  qed
  then obtain w2 where w2: "fold_outcome (\<lambda>(_, p). \<lambda>w. deref p (\<lambda>this. init E None this w)) m w1 = Inr w2"
      "\<forall>(k, p) \<in> set m. ready E w2 (the p)" "\<forall>q. Some q \<notin> snd ` set m \<and> ready E w1 q \<longrightarrow> ready E w2 q"
      "agents_only w1 w2" "AllAgents w2 = AllAgents w1" "agents_ok w1 \<longrightarrow> agents_ok w2" "\<exists>h. history w2 = history w1 @ h"
    using Cons.IH [of w1] Cons.prems(1) by auto
  have "Some q \<notin> snd ` set m" using Cons.prems(1) kp q(1) by simp
  then have "ready E w2 q" using w2(3) w1(2) by blast
  moreover have "ready E w2 a" if "Some a \<notin> snd ` set (kp # m)" "ready E w a" for a
  proof -
    have "a \<noteq> q" using that(1) kp q(1) by auto
    then have "ready E w1 a" using ready_same [OF assms(1) that(2) same] by simp
    with that(1) w2(3) show ?thesis by simp
  qed
  moreover have "agents_only w w2" using same_agents_only [OF same] w2(4) by (rule agents_only_trans)
  moreover have "AllAgents w2 = AllAgents w" "agents_ok w \<longrightarrow> agents_ok w2" "\<exists>h. history w2 = history w @ h"
    using same w2(5-7) agents_ok_same [OF _ same] by (auto simp: same_agents_def)
  ultimately show ?case using i w2(1,2) by (simp add: kp q(1) deref_def)
qed simp

lemma base_doInitialization_ready:
  assumes "ns3_laws E" and "fresh_agents ''Default'' w"
  shows "\<exists>w'. base_doInitialization E w = Inr (True, w') \<and> agents_ok w' \<and> all_ready E w' \<and> agents_only w w' \<and>
    AllAgents w' = AllAgents w \<and> (\<exists>h. history w' = history w @ h)"
proof -
  have ok: "agents_ok w" using assms(2) by (simp add: fresh_agents_def)
  note ptr = fresh_pointers [OF assms(2)]
  have "\<forall>(k, p) \<in> set (AllAgents w). \<exists>q. p = Some q \<and> q < length (heap w) \<and> wfd (heap w ! q) = None"
    using ptr(1) by (fastforce simp: new_for_wfd)
  then obtain w' where w': "fold_outcome (\<lambda>(_, p). \<lambda>w. deref p (\<lambda>this. init E None this w)) (AllAgents w) w = Inr w'"
      "\<forall>(k, p) \<in> set (AllAgents w). ready E w' (the p)" "agents_only w w'" "AllAgents w' = AllAgents w" "agents_ok w'"
      "\<exists>h. history w' = history w @ h"
    using init_all_ready [OF assms(1) ptr(2)] ok by blast
  have "all_ready E w'"
    unfolding all_ready_def w'(4)
  proof (intro allI impI)
    fix k p assume "map_of (AllAgents w) k = Some (Some p)"
    then have "(k, Some p) \<in> set (AllAgents w)" by (rule map_of_SomeD)
    with w'(2) show "ready E w' p" by fastforce
  qed
  with w' show ?thesis by (auto simp: base_doInitialization_def)
qed

section \<open>Initialising the agents of an stk application\<close>

text \<open>The role of an agent: the first agent of the map owns the group.\<close>

definition role_of :: "(string, ptr) smap \<Rightarrow> string \<Rightarrow> AgentRole" where
  "role_of m k = (if k = fst (hd m) then WFD_GO else WFD_CLIENT)"

text \<open>The agent of the id \<open>k\<close> after its initialisation.\<close>

definition wfd_ready :: "'z agent_world_scheme \<Rightarrow> string \<Rightarrow> ptr \<Rightarrow> bool" where
  "wfd_ready w k p \<longleftrightarrow> (\<exists>q n. p = Some q \<and> q < length (heap w) \<and> heap w ! q = (new_for ''stk'' k)
     \<lparr>wfd := Some \<lparr>m_wfd_node = Some n, wfd_role = Some (role_of (AllAgents w) k), wfd_groupId = Some 0\<rparr>\<rparr>)"

definition wfd_node :: "'z agent_world_scheme \<Rightarrow> ptr \<Rightarrow> node" where
  "wfd_node w p = the (m_wfd_node (the (wfd (heap w ! the p))))"

lemma figureOutGroup_eq:
  assumes "p < length (heap w)" and "wfd (heap w ! p) = Some d"
    and "AllAgents w = (k0, Some q0) # rest" and "q0 < length (heap w)" and "m_AgentId (heap w ! q0) = k0"
  shows "figureOutGroup p w = Inr (put_agent p ((heap w ! p)\<lparr>wfd := Some (d\<lparr>wfd_groupId := Some 0,
    wfd_role := Some (role_of (AllAgents w) (m_AgentId (heap w ! p)))\<rparr>)\<rparr>) w)"
proof -
  let ?w1 = "put_agent p ((heap w ! p)\<lparr>wfd := Some (d\<lparr>wfd_groupId := Some 0\<rparr>)\<rparr>) w"
  have first: "m_AgentId (heap ?w1 ! q0) = k0" using assms(1,4,5) by (simp add: put_agent_def nth_list_update)
  have "figureOutGroup p w = setRole p (role_of (AllAgents w) (m_AgentId (heap w ! p))) ?w1"
    using assms(1-4) first
    by (simp add: figureOutGroup_def with_wfd_def with_agent_def GetAgentId_def map_begin_def deref_def role_of_def
        put_agent_def)
  also have "\<dots> = Inr (put_agent p ((heap w ! p)\<lparr>wfd := Some (d\<lparr>wfd_groupId := Some 0,
    wfd_role := Some (role_of (AllAgents w) (m_AgentId (heap w ! p)))\<rparr>)\<rparr>) w)"
    using assms(1) by (simp add: setRole_def with_wfd_def with_agent_def put_agent_def)
  finally show ?thesis .
qed

lemma wfd_init_eq:
  assumes "p < length (heap w)" and "heap w ! p = new_for ''stk'' k"
    and "AllAgents w = (k0, Some q0) # rest" and "q0 < length (heap w)" and "m_AgentId (heap w ! q0) = k0"
  shows "\<exists>n w1. node_for E None w = (n, w1) \<and> heap w1 = heap w \<and> same_agents p w w1 \<and>
    history w1 = history w @ [CreateNode] \<and>
    init E None p w = Inr (join_group (role_of (AllAgents w) k) 0 n
      (put_agent p ((new_for ''stk'' k)\<lparr>wfd := Some \<lparr>m_wfd_node = Some n, wfd_role = Some (role_of (AllAgents w) k),
         wfd_groupId = Some 0\<rparr>\<rparr>) w1))"
proof -
  obtain n w1 where nw: "node_for E None w = (n, w1)" by (cases "node_for E None w")
  have w1: "heap w1 = heap w" "same_agents p w w1" "AllAgents w1 = AllAgents w"
    using node_for_same [OF nw] by (auto simp: same_agents_def)
  have h1: "history w1 = history w @ [CreateNode]" using nw by (auto simp: node_for_def Let_def)
  let ?d = "\<lparr>m_wfd_node = Some n, wfd_role = None, wfd_groupId = None\<rparr>"
  let ?w2 = "put_agent p ((new_for ''stk'' k)\<lparr>wfd := Some ?d\<rparr>) w1"
  let ?d' = "?d\<lparr>wfd_groupId := Some 0, wfd_role := Some (role_of (AllAgents w) k)\<rparr>"
  have h2: "heap ?w2 = (heap w)[p := (new_for ''stk'' k)\<lparr>wfd := Some ?d\<rparr>]" "AllAgents ?w2 = AllAgents w"
    using w1 by (simp_all add: put_agent_def)
  have "figureOutGroup p ?w2 = Inr (put_agent p ((heap ?w2 ! p)\<lparr>wfd := Some (?d\<lparr>wfd_groupId := Some 0,
      wfd_role := Some (role_of (AllAgents ?w2) (m_AgentId (heap ?w2 ! p)))\<rparr>)\<rparr>) ?w2)"
  proof (rule figureOutGroup_eq)
    show "m_AgentId (heap ?w2 ! q0) = k0"
      using assms w1(1) by (cases "q0 = p") (simp_all add: put_agent_def)
  qed (use assms h2 in auto)
  then have fog: "figureOutGroup p ?w2 = Inr (put_agent p ((new_for ''stk'' k)\<lparr>wfd := Some ?d'\<rparr>) w1)"
    using assms(1) by (simp add: h2) (simp add: put_agent_def)
  have "wfd_init E None p w = Inr (join_group (role_of (AllAgents w) k) 0 n (put_agent p ((new_for ''stk'' k)\<lparr>wfd := Some ?d'\<rparr>) w1))"
    using assms(1,2) nw fog w1(1) by (simp add: wfd_init_def with_wfd_def with_agent_def new_for_wfd getRole_def put_agent_def)
  then show ?thesis using nw w1 h1 assms(1,2) by (simp add: init_def with_agent_def new_for_wfd)
qed

text \<open>The containers of a group's nodes, when there is at most group 0.\<close>

definition only0 :: "(uint, node list) smap \<Rightarrow> bool" where
  "only0 m \<longleftrightarrow> fst ` set m \<subseteq> {0} \<and> length m \<le> 1"

definition nodes0 :: "(uint, node list) smap \<Rightarrow> node list" where
  "nodes0 m = concat (map snd m)"

lemma add_group0:
  assumes "only0 m"
  shows "add_to_group 0 n m = [(0, nodes0 m @ [n])]"
proof (cases m)
  case (Cons x xs)
  with assms have "x = (0, snd x)" "xs = []" by (auto simp: only0_def prod_eq_iff)
  with Cons show ?thesis
    by (cases x) (simp add: add_to_group_def map_index_def nodes0_def)
qed (simp add: add_to_group_def map_index_def nodes0_def default_list_def)

lemma join_group0:
  assumes "only0 (wfd_go_nc w)" and "only0 (wfd_cln_nc w)"
  shows "only0 (wfd_go_nc (join_group r 0 n w))" and "only0 (wfd_cln_nc (join_group r 0 n w))"
    and "nodes0 (wfd_go_nc (join_group r 0 n w)) = nodes0 (wfd_go_nc w) @ (if r = WFD_GO then [n] else [])"
    and "nodes0 (wfd_cln_nc (join_group r 0 n w)) = nodes0 (wfd_cln_nc w) @ (if r = WFD_CLIENT then [n] else [])"
    and "heap (join_group r 0 n w) = heap w" and "AllAgents (join_group r 0 n w) = AllAgents w"
    and "length (wfd_go_nc (join_group r 0 n w)) = (if r = WFD_GO then 1 else length (wfd_go_nc w))"
  using assms by (simp_all add: join_group_def Let_def add_group0 split: AgentRole.split)
    (simp_all add: only0_def nodes0_def)

lemma wfd_ready_other: "heap w' ! q = heap w ! q \<Longrightarrow> length (heap w') = length (heap w) \<Longrightarrow> AllAgents w' = AllAgents w \<Longrightarrow>
    wfd_ready w k (Some q) \<Longrightarrow> wfd_ready w' k (Some q)"
  by (simp add: wfd_ready_def)

lemma node_for_wfd: "node_for E nd w = (n, w1) \<Longrightarrow> wfd_go_nc w1 = wfd_go_nc w \<and> wfd_cln_nc w1 = wfd_cln_nc w"
  by (auto simp: node_for_def Let_def call_def split: option.splits)

lemma init_all_wfd:
  assumes "distinct (map snd m)"
    and "\<forall>(k, p) \<in> set m. \<exists>q. p = Some q \<and> q < length (heap w) \<and> heap w ! q = new_for ''stk'' k"
    and "AllAgents w = (k0, Some q0) # rest" and "q0 < length (heap w)" and "m_AgentId (heap w ! q0) = k0"
    and "only0 (wfd_go_nc w)" and "only0 (wfd_cln_nc w)"
  shows "\<exists>w'. fold_outcome (\<lambda>(_, p). \<lambda>w. deref p (\<lambda>this. init E None this w)) m w = Inr w' \<and>
    (\<forall>(k, p) \<in> set m. wfd_ready w' k p) \<and> (\<forall>q. Some q \<notin> snd ` set m \<longrightarrow> heap w' ! q = heap w ! q) \<and>
    length (heap w') = length (heap w) \<and> AllAgents w' = AllAgents w \<and> agents_only w w' \<and>
    (agents_ok w \<longrightarrow> agents_ok w') \<and> history w' = history w @ replicate (length m) CreateNode \<and>
    only0 (wfd_go_nc w') \<and> only0 (wfd_cln_nc w') \<and>
    nodes0 (wfd_go_nc w') = nodes0 (wfd_go_nc w) @ map (wfd_node w' \<circ> snd) (filter (\<lambda>x. role_of (AllAgents w) (fst x) = WFD_GO) m) \<and>
    nodes0 (wfd_cln_nc w') = nodes0 (wfd_cln_nc w) @ map (wfd_node w' \<circ> snd) (filter (\<lambda>x. role_of (AllAgents w) (fst x) = WFD_CLIENT) m) \<and>
    length (wfd_go_nc w') = (if \<exists>x \<in> set m. role_of (AllAgents w) (fst x) = WFD_GO then 1 else length (wfd_go_nc w))"
  using assms
proof (induction m arbitrary: w)
  case (Cons kp m)
  obtain k p where kp: "kp = (k, p)" by (cases kp)
  then obtain q where q: "p = Some q" "q < length (heap w)" "heap w ! q = new_for ''stk'' k"
    using Cons.prems(2) by auto
  let ?r = "role_of (AllAgents w) k"
  obtain n w1 where nw: "node_for E None w = (n, w1)" "heap w1 = heap w" "same_agents q w w1"
      "history w1 = history w @ [CreateNode]"
    and i: "init E None q w = Inr (join_group ?r 0 n
      (put_agent q ((new_for ''stk'' k)\<lparr>wfd := Some \<lparr>m_wfd_node = Some n, wfd_role = Some ?r, wfd_groupId = Some 0\<rparr>\<rparr>) w1))"
    using wfd_init_eq [OF q(2,3) Cons.prems(3-5)] by blast
  let ?ag = "(new_for ''stk'' k)\<lparr>wfd := Some \<lparr>m_wfd_node = Some n, wfd_role = Some ?r, wfd_groupId = Some 0\<rparr>\<rparr>"
  let ?w2 = "put_agent q ?ag w1"
  define w3 where "w3 = join_group ?r 0 n ?w2"
  have same: "same_agents q w w3" using i unfolding w3_def by (rule init_same)
  have w2: "only0 (wfd_go_nc ?w2)" "only0 (wfd_cln_nc ?w2)" "wfd_go_nc ?w2 = wfd_go_nc w" "wfd_cln_nc ?w2 = wfd_cln_nc w"
    using node_for_wfd [OF nw(1)] Cons.prems(6,7) by (simp_all add: put_agent_def)
  note join = join_group0 [OF w2(1,2), of ?r n, folded w3_def, unfolded w2(3,4)]
  have h3: "heap w3 = (heap w)[q := ?ag]" by (simp add: join put_agent_def nw(2))
  have A3: "AllAgents w3 = AllAgents w" using same by (simp add: same_agents_def)
  have notin: "p \<notin> snd ` set m" using Cons.prems(1) kp by simp
  have "\<forall>(k, p) \<in> set m. \<exists>q. p = Some q \<and> q < length (heap w3) \<and> heap w3 ! q = new_for ''stk'' k"
  proof (intro ballI, clarify)
    fix j r assume jr: "(j, r) \<in> set m"
    then obtain a where a: "r = Some a" "a < length (heap w)" "heap w ! a = new_for ''stk'' j" using Cons.prems(2) by auto
    have "a \<noteq> q" using jr notin a(1) q(1) by force
    with a show "\<exists>q. r = Some q \<and> q < length (heap w3) \<and> heap w3 ! q = new_for ''stk'' j" by (simp add: h3)
  qed
  moreover have "m_AgentId (heap w3 ! q0) = k0"
    using Cons.prems(4,5) q by (cases "q0 = q") (simp_all add: h3)
  ultimately obtain w' where w': "fold_outcome (\<lambda>(_, p). \<lambda>w. deref p (\<lambda>this. init E None this w)) m w3 = Inr w'"
      "\<forall>(k, p) \<in> set m. wfd_ready w' k p" "\<forall>q. Some q \<notin> snd ` set m \<longrightarrow> heap w' ! q = heap w3 ! q"
      "length (heap w') = length (heap w3)" "AllAgents w' = AllAgents w3" "agents_only w3 w'"
      "agents_ok w3 \<longrightarrow> agents_ok w'" "history w' = history w3 @ replicate (length m) CreateNode" "only0 (wfd_go_nc w')" "only0 (wfd_cln_nc w')"
      "nodes0 (wfd_go_nc w') = nodes0 (wfd_go_nc w3) @ map (wfd_node w' \<circ> snd) (filter (\<lambda>x. role_of (AllAgents w) (fst x) = WFD_GO) m)"
      "nodes0 (wfd_cln_nc w') = nodes0 (wfd_cln_nc w3) @ map (wfd_node w' \<circ> snd) (filter (\<lambda>x. role_of (AllAgents w) (fst x) = WFD_CLIENT) m)"
      "length (wfd_go_nc w') = (if \<exists>x \<in> set m. role_of (AllAgents w) (fst x) = WFD_GO then 1 else length (wfd_go_nc w3))"
    using Cons.IH [of w3] Cons.prems(1,3,4) join(1,2) by (auto simp: A3 h3)
  have hq: "heap w' ! q = ?ag" using w'(3) notin q(1,2) by (simp add: h3)
  have "wfd_ready w' k p"
    using hq q(1,2) w'(4,5) by (auto simp: wfd_ready_def h3 A3)
  moreover have n: "wfd_node w' p = n" using hq q(1) by (simp add: wfd_node_def)
  moreover have "agents_only w w'" using same_agents_only [OF same] w'(6) by (rule agents_only_trans)
  moreover have "heap w' ! a = heap w ! a" if "Some a \<notin> snd ` set (kp # m)" for a
    using that w'(3) kp q(1) by (auto simp: h3)
  moreover have "agents_ok w \<longrightarrow> agents_ok w'" using w'(7) agents_ok_same [OF _ same] by auto
  moreover have "history w' = history w @ replicate (length (kp # m)) CreateNode"
    using w'(8) nw(4) by (simp add: w3_def join_group_def put_agent_def Let_def split: AgentRole.split)
  moreover have "fold_outcome (\<lambda>(_, p). \<lambda>w. deref p (\<lambda>this. init E None this w)) (kp # m) w = Inr w'"
    using i w'(1) by (simp add: kp q(1) deref_def w3_def)
  moreover have "length (heap w') = length (heap w)" "AllAgents w' = AllAgents w" using w'(4,5) A3 by (simp_all add: h3)
  ultimately show ?case
    using w'(2,9-13) join(3,4,7) by (intro exI [of _ w']) (simp add: kp)
qed simp

lemma base_doInitialization_wfd:
  assumes "fresh_agents ''stk'' w" and "AllAgents w = (k0, p0) # rest" and "wfd_go_nc w = []" and "wfd_cln_nc w = []"
  shows "\<exists>w'. base_doInitialization E w = Inr (True, w') \<and> agents_ok w' \<and> agents_only w w' \<and>
    AllAgents w' = AllAgents w \<and> (\<forall>(k, p) \<in> set (AllAgents w). wfd_ready w' k p) \<and> history w' = history w @ replicate (length (AllAgents w)) CreateNode \<and>
    wfd_go_nc w' = [(0, [wfd_node w' p0])] \<and> only0 (wfd_cln_nc w') \<and> nodes0 (wfd_cln_nc w') = map (wfd_node w' \<circ> snd) rest"
proof -
  have ok: "agents_ok w" using assms(1) by (simp add: fresh_agents_def)
  note ptr = fresh_pointers [OF assms(1)]
  obtain q0 where q0: "p0 = Some q0" "q0 < length (heap w)" "heap w ! q0 = new_for ''stk'' k0"
    using ptr(1) assms(2) by auto
  have "map_ok (AllAgents w)" using ok by (simp add: agents_ok_def)
  then have rest: "\<forall>x \<in> set rest. fst x \<noteq> k0" unfolding assms(2) map_ok_Cons by fastforce
  have role: "role_of (AllAgents w) k0 = WFD_GO" "\<forall>x \<in> set rest. role_of (AllAgents w) (fst x) = WFD_CLIENT"
    using rest by (simp_all add: role_of_def assms(2))
  have "AllAgents w = (k0, Some q0) # rest" and "m_AgentId (heap w ! q0) = k0"
    and "only0 (wfd_go_nc w)" and "only0 (wfd_cln_nc w)"
    using assms(2-4) q0 by (simp_all add: only0_def)
  from init_all_wfd [OF ptr(2,1) this(1) q0(2) this(2-4), of E]
  obtain w' where w': "fold_outcome (\<lambda>(_, p). \<lambda>w. deref p (\<lambda>this. init E None this w)) (AllAgents w) w = Inr w'"
      "\<forall>(k, p) \<in> set (AllAgents w). wfd_ready w' k p" "AllAgents w' = AllAgents w" "agents_only w w'"
      "agents_ok w'" "history w' = history w @ replicate (length (AllAgents w)) CreateNode" "only0 (wfd_go_nc w')" "only0 (wfd_cln_nc w')"
      "nodes0 (wfd_go_nc w') = map (wfd_node w' \<circ> snd) (filter (\<lambda>x. role_of (AllAgents w) (fst x) = WFD_GO) (AllAgents w))"
      "nodes0 (wfd_cln_nc w') = map (wfd_node w' \<circ> snd) (filter (\<lambda>x. role_of (AllAgents w) (fst x) = WFD_CLIENT) (AllAgents w))"
      "length (wfd_go_nc w') = (if \<exists>x \<in> set (AllAgents w). role_of (AllAgents w) (fst x) = WFD_GO then 1 else length (wfd_go_nc w))"
    using ok assms(3,4) by (auto simp: nodes0_def)
  have go: "filter (\<lambda>x. role_of (AllAgents w) (fst x) = WFD_GO) (AllAgents w) = [(k0, p0)]"
    using role assms(2) by (simp add: filter_empty_conv)
  have cln: "filter (\<lambda>x. role_of (AllAgents w) (fst x) = WFD_CLIENT) (AllAgents w) = rest"
    using role assms(2) by simp
  have "length (wfd_go_nc w') = 1" using w'(11) role(1) assms(2) by auto
  then obtain g ns where "wfd_go_nc w' = [(g, ns)]" by (metis length_0_conv length_Suc_conv One_nat_def surj_pair)
  then have "wfd_go_nc w' = [(0, [wfd_node w' p0])]" using w'(7,9) go by (simp add: only0_def nodes0_def)
  then show ?thesis using w' cln by (auto simp: base_doInitialization_def)
qed

section \<open>The announced group\<close>

lemma assign_all:
  assumes "\<forall>(k, p) \<in> set m. \<exists>q. p = Some q \<and> q < length (heap w) \<and> heap w ! q = new_for app k"
    and "map_ok mem" and "wg_groupId g = gid"
  shows "\<exists>mem'. fold_outcome (assign_one w) m (g, mem) = Inr (g\<lparr>wg_members := wg_members g @ map fst m\<rparr>, mem') \<and> map_ok mem' \<and>
    (\<forall>k. map_of mem' k = (if k \<in> set (map fst m) then Some gid else map_of mem k))"
  using assms
proof (induction m arbitrary: g mem)
  case (Cons kp m)
  obtain k p where kp: "kp = (k, p)" by (cases kp)
  with Cons.prems(1,3) have step: "assign_one w kp (g, mem) = Inr (g\<lparr>wg_members := wg_members g @ [k]\<rparr>, map_put k gid mem)"
    by (auto simp: assign_one_def deref_def GetAgentId_def with_agent_def)
  obtain mem' where "fold_outcome (assign_one w) m (g\<lparr>wg_members := wg_members g @ [k]\<rparr>, map_put k gid mem) =
      Inr (g\<lparr>wg_members := wg_members g @ k # map fst m\<rparr>, mem')" "map_ok mem'"
      "\<forall>j. map_of mem' j = (if j \<in> set (map fst m) then Some gid else map_of (map_put k gid mem) j)"
    using Cons.IH [of "map_put k gid mem" "g\<lparr>wg_members := wg_members g @ [k]\<rparr>"] Cons.prems by auto
  then show ?case using step Cons.prems(2) by (auto simp: kp map_of_put)
qed simp

lemma doRoleAssignment_eq:
  assumes "fresh_agents app w" and "AllAgents w = (k0, p0) # rest" and "map_ok (WFD_Membership r)"
  shows "\<exists>mem'. doRoleAssignment w r = Inr (True, \<lparr>WFD_Groups = map_put k0
      \<lparr>wg_groupId = k0, wg_GO = k0, wg_members = map fst (AllAgents w)\<rparr> (WFD_Groups r), WFD_Membership = mem'\<rparr>) \<and>
    (\<forall>k. map_of mem' k = (if k \<in> set (map fst (AllAgents w)) then Some k0 else map_of (WFD_Membership r) k))"
proof -
  note ptr = fresh_pointers(1) [OF assms(1)]
  then obtain q0 where q0: "p0 = Some q0" "q0 < length (heap w)" "heap w ! q0 = new_for app k0"
    using assms(2) by auto
  let ?g = "new_WFD_Group\<lparr>wg_groupId := k0, wg_GO := k0\<rparr>"
  obtain mem' where "fold_outcome (assign_one w) (AllAgents w) (?g, WFD_Membership r) =
      Inr (?g\<lparr>wg_members := wg_members ?g @ map fst (AllAgents w)\<rparr>, mem')"
      "\<forall>k. map_of mem' k = (if k \<in> set (map fst (AllAgents w)) then Some k0 else map_of (WFD_Membership r) k)"
    using assign_all [OF ptr assms(3), of ?g k0] by auto
  then show ?thesis using q0 assms(2)
    by (simp add: doRoleAssignment_def map_begin_def deref_def GetAgentId_def with_agent_def new_WFD_Group_def)
qed

section \<open>The network of the group\<close>

fun access_points :: "history \<Rightarrow> (channel \<times> string \<times> node) list" where
  "access_points [] = []"
| "access_points (ApInstall c s n # h) = (c, s, n) # access_points h"
| "access_points (_ # h) = access_points h"

fun stations :: "history \<Rightarrow> (channel \<times> string \<times> node list) list" where
  "stations [] = []"
| "stations (StationInstall c s ns # h) = (c, s, ns) # stations h"
| "stations (_ # h) = stations h"

lemma access_points_append [simp]: "access_points (h @ h') = access_points h @ access_points h'"
  by (induction h rule: access_points.induct) simp_all

lemma stations_append [simp]: "stations (h @ h') = stations h @ stations h'"
  by (induction h rule: stations.induct) simp_all

lemma show_dec_0: "show_dec 0 = ''0''"
  by (subst show_base.simps) (simp add: digit.simps flip: of_char_eq_iff [where 'a = nat])

lemma configAll_one_group:
  assumes "wfd_go_nc w = [(0, [n0])]" and "only0 (wfd_cln_nc w)"
  shows "\<exists>w'. configAll E w = Inr w' \<and> agents_only w w' \<and> AllAgents w' = AllAgents w \<and> heap w' = heap w \<and>
    (\<exists>chan. access_points (history w') = access_points (history w) @ [(chan, ''WFD-GRP-0'', n0)] \<and>
      stations (history w') = stations (history w) @ [(chan, ''WFD-GRP-0'', nodes0 (wfd_cln_nc w))]) \<and>
    (\<exists>h. history w' = history w @ h @ [MobilityInstall (n0 # nodes0 (wfd_cln_nc w))])"
proof -
  let ?w0 = "call (AddressBase ''10.0.0.0'' ''255.255.255.0'') w"
  have cln: "fst (map_index 0 (wfd_cln_nc w)) = nodes0 (wfd_cln_nc w)"
  proof (cases "wfd_cln_nc w")
    case (Cons x xs)
    with assms(2) have "x = (0, snd x)" "xs = []" by (auto simp: only0_def prod_eq_iff)
    with Cons show ?thesis by (cases x) (simp add: map_index_def nodes0_def)
  qed (simp add: map_index_def nodes0_def default_list_def)
  obtain c m where cm: "map_index 0 (wfd_cln_nc w) = (c, m)" by (cases "map_index 0 (wfd_cln_nc w)")
  then have c: "c = nodes0 (wfd_cln_nc w)" using cln by simp
  have fields: "wfd_go_nc (call e v) = wfd_go_nc v" "wfd_cln_nc (call e v) = wfd_cln_nc v" for e and v :: "'a agent_world_scheme"
    by (simp_all add: call_def)
  have go: "map_index 0 [(0 :: uint, [n0])] = ([n0], [(0, [n0])])" by (simp add: map_index_def)
  obtain w1 chan where g: "config_group E 0 ?w0 = Inr w1"
      "access_points (history w1) = access_points (history w) @ [(chan, ''WFD-GRP-0'', n0)]"
      "stations (history w1) = stations (history w) @ [(chan, ''WFD-GRP-0'', c)]" "AllAgents w1 = AllAgents w" "heap w1 = heap w"
      "\<exists>h. history w1 = history w @ h @ [MobilityInstall (n0 # c)]"
    using assms(1) cm by (simp add: config_group_def fields go vec_index_def show_dec_0 Let_def)
  have len: "length (wfd_go_nc w1) = length (wfd_go_nc ?w0)" using g(1) by (rule config_group_size)
  have "agents_only ?w0 w1" using config_group_same [OF g(1)] by (rule same_agents_only)
  then have "agents_only w w1" by (simp add: agents_only_def written_append consumed_append)
  moreover have "configAll E w = Inr w1"
    unfolding configAll_def
    using g(1) assms(1) len by (subst config_groups.simps) (simp add: fields, subst config_groups.simps, simp add: fields)
  ultimately show ?thesis using g c by auto
qed

end
