(* ===== verification/Registration_Dialogue.thy ===== *)
theory Registration_Dialogue
  imports Registration_Init Broker
begin

text \<open>
  The registration as a whole: the dialogue with a peer that follows it, what a successful
  registration went through, and the state that each application is left in. Registration_Props
  states the properties.
\<close>

section \<open>A peer that follows the dialogue\<close>

text \<open>The peer's bundle: its header can carry it, and it reads as one message of the type.\<close>

definition offers :: "env \<Rightarrow> string \<Rightarrow> BundleHeader \<Rightarrow> string \<Rightarrow> MessageConglomerate \<Rightarrow> bool" where
  "offers E ty h body c \<longleftrightarrow> header_fits h \<and> length body = unat (remLen h) \<and> body \<noteq> [] \<and>
     deserialize (lib E) h body new_MessageConglomerate = Inr (True, c) \<and> getCount c = 1 \<and>
     getBaseMessage c 0 = Inr \<lparr>msg_type = ty\<rparr>"

lemma expect_frame:
  assumes "delivers E stream" and "m_session (conn w) \<noteq> None"
    and "unread stream w = frame make_bundle_header h body @ rest" and "offers E ty h body c"
  shows "\<exists>w'. expect_message E ty w = Inr (Some (h, c), w') \<and> unread stream w' = rest \<and> net_only w w' \<and>
    m_session (conn w') \<noteq> None \<and> written (history w') = written (history w) \<and> attempts (history w') = attempts (history w)"
proof -
  obtain s where s: "m_session (conn w) = Some s" using assms(2) by blast
  have o: "header_fits h" "length body = unat (remLen h)" "body \<noteq> []"
    "deserialize_single (lib E) h body ty new_MessageBase new_MessageConglomerate = Inr (True, \<lparr>msg_type = ty\<rparr>, c)"
    using assms(4) by (simp_all add: offers_def deserialize_single_def)
  obtain w' where w': "receive E new_BundleHeader [] w = Inr (True, h, body, w')" "unread stream w' = rest"
      "m_session (conn w') \<noteq> None"
    using receive_frame [OF assms(1) s assms(3) o(1-3), of new_BundleHeader "[]"] by (auto simp: Let_def)
  then have "expect_message E ty w = Inr (Some (h, c), w')" using o(4) by (simp add: expect_message_def)
  with w' expect_message_only [OF this] show ?thesis by blast
qed

lemma unread_same: "consumed (history w') = consumed (history w) \<Longrightarrow> unread stream w' = unread stream w"
  by (simp add: unread_def)

lemma send_consumes: "send E h t w = Inr (ok, w') \<Longrightarrow> consumed (history w') = consumed (history w)"
  by (erule send_Inr) (simp add: consumed_append)

text \<open>The answer to an id_request, given the token and a network that writes.\<close>

lemma answer_id_request:
  assumes "delivers E stream" and "\<forall>h. net_write E h" and "m_session (conn w) \<noteq> None"
    and "unread stream w = frame make_bundle_header h body @ rest" and "offers E ''id_request'' h body c"
    and "\<not> isNull (messages_json c ! 0)" and "messages_json c \<noteq> []"
    and "js_isMember (lib E) (messages_json c ! 0) ''token'' = Inr True"
    and "get_string (lib E) (messages_json c ! 0) ''token'' = Inr token"
    and og: "makeIdResponse (lib E) (serialize_begin new_OngoingSerialization) token = Inr og"
    and fits: "to_int (int (length (bundle_bytes og))) \<noteq> 0"
  shows "\<exists>w'. doWhoAreYou E w = Inr (True, w') \<and> unread stream w' = rest \<and> net_only w w' \<and> m_session (conn w') \<noteq> None \<and>
    written (history w') = written (history w) @ [bundle_bytes og] \<and> attempts (history w') = attempts (history w)"
proof -
  obtain w1 where w1: "expect_message E ''id_request'' w = Inr (Some (h, c), w1)" "unread stream w1 = rest" "net_only w w1"
      "m_session (conn w1) \<noteq> None" "written (history w1) = written (history w)" "attempts (history w1) = attempts (history w)"
    using expect_frame [OF assms(1,3-5)] by blast
  obtain s where s: "m_session (conn w1) = Some s" using w1(4) by blast
  let ?msg = "vary_header (vHead og) @ messages og" let ?h = "result_header (vHead og) ?msg"
  have len: "length (make_bundle_header ?h) = header_length" "make_bundle_header ?h \<noteq> []"
    by (simp_all add: make_bundle_header_in_use length_make_v1) (simp add: make_bundle_header_v1_def)
  obtain w2 where w2: "send E ?h ?msg w1 = Inr (True, w2)"
    using s assms(2) len fits
    by (simp add: send_def with_session_def session_write_def Let_def bundle_bytes_def)
  have "getJsonMessage c 0 = Inr (messages_json c ! 0)" using assms(7) by (simp add: getJsonMessage_def vec_at_def)
  then have "doWhoAreYou E w = Inr (True, w2)"
    using w1(1) assms(6,8,9) og w2 by (simp add: doWhoAreYou_def serialize_end_eq Let_def)
  moreover have "unread stream w2 = rest" using unread_same [OF send_consumes [OF w2]] w1(2) by simp
  moreover have "written (history w2) = written (history w) @ [bundle_bytes og]"
    using send_only(2) [OF w2] w1(5) by (simp add: bundle_bytes_def Let_def)
  moreover have "net_only w w2" using w1(3) send_only(1) [OF w2] by (rule net_only_trans)
  moreover have "m_session (conn w2) \<noteq> None" using send_only(1) [OF w2] w1(4) by (simp add: net_only_def)
  ultimately show ?thesis using send_only(3) [OF w2] w1(6) by (intro exI [of _ w2]) simp
qed

lemma known_dom: "fresh_agents app w \<Longrightarrow> known w k \<longleftrightarrow> k \<in> dom (map_of (AllAgents w))"
  by (auto simp: fresh_agents_def known_def)

lemma default_dialogue:
  assumes laws: "ns3_laws E" "resolves E" "\<forall>h. net_connect E h" "\<forall>h. net_write E h" "delivers E stream"
    and stream: "unread stream w = frame make_bundle_header h1 s1 @ frame make_bundle_header h2 s2 @ frame make_bundle_header h3 s3 @ rest"
    and offers: "offers E ''id_request'' h1 s1 c1" "offers E ''new_agents'' h2 s2 c2" "offers E ''id_ack'' h3 s3 c3"
    and req: "\<not> isNull (messages_json c1 ! 0)" "messages_json c1 \<noteq> []"
      "js_isMember (lib E) (messages_json c1 ! 0) ''token'' = Inr True"
      "get_string (lib E) (messages_json c1 ! 0) ''token'' = Inr token"
    and og: "makeIdResponse (lib E) (serialize_begin new_OngoingSerialization) token = Inr og"
      "to_int (int (length (bundle_bytes og))) \<noteq> 0"
    and info: "parseNewAgents (lib E) c2 0 = Inr info" "addAgentIds info \<noteq> []" and none: "AllAgents w = []"
  shows "\<exists>w'. registration_start E (new_Registration ''Default'') w = Inr (True, new_Registration ''Default'', w') \<and>
    agents_ok w' \<and> all_ready E w' \<and> (\<forall>k. known w' k \<longleftrightarrow> k \<in> set (addAgentIds info)) \<and>
    written (history w') = written (history w) @ [bundle_bytes og] \<and> unread stream w' = rest \<and> m_session (conn w') \<noteq> None \<and>
    (NetClose \<in> set (history w') \<longleftrightarrow> NetClose \<in> set (history w))"
proof -
  obtain ok1 w1 where w1: "doConnect E 200 w = Inr (ok1, w1)" "net_only w w1" "m_session (conn w1) \<noteq> None"
      "written (history w1) = written (history w)" "consumed (history w1) = consumed (history w)" "ok1"
    using connect_loop_total [OF laws(2), of 200 0 w] laws(3) unfolding doConnect_def by blast
  have u1: "unread stream w1 = frame make_bundle_header h1 s1 @ frame make_bundle_header h2 s2 @ frame make_bundle_header h3 s3 @ rest"
    using stream unread_same [OF w1(5)] by simp
  obtain w2 where w2: "doWhoAreYou E w1 = Inr (True, w2)" "net_only w1 w2" "m_session (conn w2) \<noteq> None"
      "written (history w2) = written (history w1) @ [bundle_bytes og]"
      "unread stream w2 = frame make_bundle_header h2 s2 @ frame make_bundle_header h3 s3 @ rest"
    using answer_id_request [OF laws(5,4) w1(3) u1 offers(1) req og] by blast
  let ?w2 = "call (Sleep 1) w2"
  have u2: "unread stream ?w2 = frame make_bundle_header h2 s2 @ frame make_bundle_header h3 s3 @ rest"
    using w2(5) unread_same [of ?w2 w2] by (simp add: consumed_append)
  obtain w3 where w3: "expect_message E ''new_agents'' ?w2 = Inr (Some (h2, c2), w3)" "net_only ?w2 w3" "m_session (conn w3) \<noteq> None"
      "written (history w3) = written (history ?w2)" "unread stream w3 = frame make_bundle_header h3 s3 @ rest"
    using expect_frame [OF laws(5) _ u2 offers(2)] w2(3) by auto
  have "net_only w w3" using w1(2) w2(2) w3(2) net_only_sleep net_only_trans by metis
  then have "AllAgents w3 = []" using none by (simp add: net_only_agents)
  then have "fresh_agents ''Default'' w3" by (simp add: fresh_agents_def agents_ok_def)
  then obtain w4 where w4: "fold_outcome (register_agent ''Default'') (addAgentIds info) w3 = Inr w4"
      "fresh_agents ''Default'' w4" "agents_only w3 w4" "dom (map_of (AllAgents w4)) = set (addAgentIds info)"
    using register_all [of "''Default''" w3 "addAgentIds info"] \<open>AllAgents w3 = []\<close> by auto
  have "\<not> isNull (messages_json c2 ! 0)" "messages_json c2 \<noteq> []"
    using info(1) by (auto simp: parseNewAgents_def parse_base_def outcome_simps getJsonMessage_def vec_at_Inr split: if_splits)
  then have d3: "doAGENTS_INFO E (new_Registration ''Default'') ?w2 = Inr (True, w4)"
    using w3(1) info w4(1) by (simp add: doAGENTS_INFO_def getJsonMessage_def vec_at_def new_Registration_def)
  obtain w5 where w5: "base_doInitialization E w4 = Inr (True, w5)" "agents_ok w5" "all_ready E w5" "agents_only w4 w5"
      "AllAgents w5 = AllAgents w4"
    using base_doInitialization_ready [OF laws(1) w4(2)] by blast
  have only: "agents_only w3 w5" using w4(3) w5(4) by (rule agents_only_trans)
  then have u5: "unread stream w5 = frame make_bundle_header h3 s3 @ rest" and s5: "m_session (conn w5) \<noteq> None"
    using w3(3,5) unread_same [of w5 w3] by (simp_all add: agents_only_def)
  obtain w6 where w6: "expect_message E ''id_ack'' w5 = Inr (Some (h3, c3), w6)" "net_only w5 w6"
      "written (history w6) = written (history w5)" "unread stream w6 = rest" "m_session (conn w6) \<noteq> None"
    using expect_frame [OF laws(5) s5 u5 offers(3)] by blast
  have "registration_start E (new_Registration ''Default'') w = Inr (True, new_Registration ''Default'', w6)"
    using w1(1,6) w2(1) d3 w5(1) w6(1)
    by (simp add: registration_start_def doInitialization_def doREADY_def new_Registration_def)
  moreover have "agents_ok w6" using w5(2) net_only_agents(1,2) [OF w6(2)] by (simp add: agents_ok_def)
  moreover have "all_ready E w6"
    using w5(3) net_only_agents(1,2) [OF w6(2)] w6(2) mobility_stays [OF laws(1)]
    by (fastforce simp: all_ready_def ready_def net_only_def)
  moreover have "known w6 k \<longleftrightarrow> k \<in> set (addAgentIds info)" for k
    using known_dom [OF w4(2), of k] w4(4) w5(5) net_only_agents(2) [OF w6(2)] by (simp add: known_def)
  moreover have "written (history w6) = written (history w) @ [bundle_bytes og]"
    using w6(3) only w3(4) w2(4) w1(4) by (simp add: agents_only_def written_append)
  moreover have "NetClose \<in> set (history w6) \<longleftrightarrow> NetClose \<in> set (history w)"
  proof -
    have "NetClose \<in> set (history w5) \<longleftrightarrow> NetClose \<in> set (history w3)"
      using only in_outer [of NetClose "history w5"] in_outer [of NetClose "history w3"] by (simp add: agents_only_def)
    then show ?thesis using w6(2) \<open>net_only w w3\<close> by (simp add: net_only_def)
  qed
  ultimately show ?thesis using w6(4,5) by (intro exI [of _ w6]) simp
qed

section \<open>What a successful registration went through\<close>

lemma doAGENTS_INFO_Inr:
  assumes "doAGENTS_INFO E reg w = Inr (True, w')"
  obtains h c w1 info where "expect_message E ''new_agents'' w = Inr (Some (h, c), w1)"
    and "parseNewAgents (lib E) c 0 = Inr info" and "addAgentIds info \<noteq> []"
    and "fold_outcome (register_agent (m_application reg)) (addAgentIds info) w1 = Inr w'"
proof -
  from assms obtain got w1 where e: "expect_message E ''new_agents'' w = Inr (got, w1)"
    by (auto simp: doAGENTS_INFO_def outcome_simps)
  show thesis
  proof (cases got)
    case None
    with assms e show thesis by (simp add: doAGENTS_INFO_def)
  next
    case (Some hc)
    obtain h c where hc: "hc = (h, c)" by (cases hc)
    with assms e Some show thesis
      using that [of h c w1] by (auto simp: doAGENTS_INFO_def outcome_simps split: if_splits)
  qed
qed

lemma registration_start_True:
  assumes "registration_start E reg w = Inr (True, reg', w')"
  obtains w1 w2 w3 w4 where "doConnect E 200 w = Inr (True, w1)" and "doWhoAreYou E w1 = Inr (True, w2)"
    and "doAGENTS_INFO E reg (call (Sleep 1) w2) = Inr (True, w3)" and "doInitialization E reg w3 = Inr (True, reg', w4)"
    and "doREADY E w4 = Inr (True, w')"
proof -
  from assms obtain ok1 w1 where 1: "doConnect E 200 w = Inr (ok1, w1)"
    by (auto simp: registration_start_def outcome_simps)
  with assms have ok1: "ok1" by (cases ok1) (simp_all add: registration_start_def)
  with assms 1 obtain ok2 w2 where 2: "doWhoAreYou E w1 = Inr (ok2, w2)"
    by (auto simp: registration_start_def outcome_simps)
  with assms 1 ok1 have ok2: "ok2" by (cases ok2) (simp_all add: registration_start_def)
  with assms 1 ok1 2 obtain ok3 w3 where 3: "doAGENTS_INFO E reg (call (Sleep 1) w2) = Inr (ok3, w3)"
    by (auto simp: registration_start_def outcome_simps)
  with assms 1 ok1 2 ok2 have ok3: "ok3" by (cases ok3) (simp_all add: registration_start_def)
  with assms 1 ok1 2 ok2 3 obtain ok4 reg4 w4 where 4: "doInitialization E reg w3 = Inr (ok4, reg4, w4)"
    by (auto simp: registration_start_def outcome_simps)
  with assms 1 ok1 2 ok2 3 ok3 have ok4: "ok4" by (cases ok4) (simp_all add: registration_start_def)
  have "doREADY E w4 = Inr (True, w')" "reg4 = reg'"
    using assms 1 ok1 2 ok2 3 ok3 4 ok4 by (auto simp: registration_start_def outcome_simps)
  with 1 2 3 4 ok1 ok2 ok3 ok4 show thesis using that by simp
qed

lemma connect_loop_only: "connect_loop E timeout sec w = Inr (ok, w') \<Longrightarrow> net_only w w' \<and> written (history w') = written (history w)"
proof (induction E timeout sec w rule: connect_loop.induct)
  case (1 E timeout sec w)
  from "1.prems" obtain up w1 where c: "connection_connect E w = Inr (up, w1)"
    by (subst (asm) connect_loop.simps) (auto simp: outcome_simps)
  from c have w1: "net_only w w1 \<and> written (history w1) = written (history w)"
    by (rule connection_connect_Inr) (simp add: net_only_def written_append set_session_def call_def)
  show ?case
  proof (cases "up \<or> sec + 1 = timeout")
    case True
    then show ?thesis using "1.prems" c w1 by (subst (asm) connect_loop.simps) (auto split: if_splits)
  next
    case False
    then have "connect_loop E timeout (sec + 1) (call (Sleep 1) w1) = Inr (ok, w')"
      using "1.prems" c by (subst (asm) connect_loop.simps) simp
    then have "net_only (call (Sleep 1) w1) w' \<and> written (history w') = written (history (call (Sleep 1) w1))"
      using "1.IH" [OF c refl] False by blast
    moreover have "net_only w (call (Sleep 1) w1)" using w1 net_only_sleep by (blast intro: net_only_trans)
    ultimately show ?thesis using w1 by (auto simp: written_append intro: net_only_trans)
  qed
qed

lemma all_ready_net_only:
  assumes "ns3_laws E" and "all_ready E w" and "net_only w w'"
  shows "all_ready E w'"
  using assms(2,3) net_only_agents(1,2) [OF assms(3)] mobility_stays [OF assms(1)]
  by (fastforce simp: all_ready_def ready_def net_only_def)

lemma agents_ok_net_only: "agents_ok w \<Longrightarrow> net_only w w' \<Longrightarrow> agents_ok w'"
  by (simp add: agents_ok_def net_only_agents)

text \<open>
  The agents that the peer has announced, from what the network delivered: on the way from \<open>w\<close> to
  \<open>w'\<close> one bundle \<open>b\<close> was written first, then the registration slept for a second, and the bundle
  that it received next is a single new_agents message with this content.
\<close>

definition announced :: "env \<Rightarrow> 'z net_world_scheme \<Rightarrow> string \<Rightarrow> AgentsInfoMessage \<Rightarrow> 'z net_world_scheme \<Rightarrow> bool" where
  "announced E w b info w' \<longleftrightarrow> (\<exists>(u :: 'z net_world_scheme) v before after head str c.
     history u = history w @ before @ [NetWrite b, Sleep 1] \<and> written before = [] \<and>
     receive E new_BundleHeader [] u = Inr (True, head, str, v) \<and> history w' = history v @ after \<and>
     deserialize (lib E) head str new_MessageConglomerate = Inr (True, c) \<and> getCount c = 1 \<and>
     getBaseMessage c 0 = Inr \<lparr>msg_type = ''new_agents''\<rparr> \<and> parseNewAgents (lib E) c 0 = Inr info)"

lemma expect_announced:
  fixes w w2 v w' :: "'z net_world_scheme"
  assumes "expect_message E ''new_agents'' (call (Sleep 1) w2) = Inr (Some (h, c), v)" and "parseNewAgents (lib E) c 0 = Inr info"
    and "history w2 = history w @ before @ [NetWrite b]" and "written before = []" and "history w' = history v @ after"
  shows "announced E w b info w'"
  using assms(1)
proof (rule expect_message_Some)
  fix s d
  assume r: "receive E new_BundleHeader [] (call (Sleep 1) w2) = Inr (True, h, s, v)"
    and d: "deserialize (lib E) h s new_MessageConglomerate = Inr (True, c)"
    and n: "getCount c = 1" and b: "getBaseMessage c 0 = Inr d" "msg_type d = ''new_agents''"
  have "d = \<lparr>msg_type = ''new_agents''\<rparr>" using b(2) by (cases d) simp
  moreover have "history (call (Sleep 1) w2) = history w @ before @ [NetWrite b, Sleep 1]" using assms(3) by simp
  ultimately show ?thesis unfolding announced_def
    using r d n b(1) assms(2,4,5)
    by (intro exI [of _ "call (Sleep 1) w2"] exI [of _ v] exI [of _ before] exI [of _ after] exI [of _ h] exI [of _ s] exI [of _ c])
      simp
qed

lemma net_only_history: "net_only w w' \<Longrightarrow> written (history w') = written (history w) \<Longrightarrow> \<exists>h. history w' = history w @ h \<and> written h = []"
  by (auto simp: net_only_def written_append)

lemma default_registration:
  assumes laws: "ns3_laws E" and none: "AllAgents w = []"
    and "registration_start E (new_Registration ''Default'') w = Inr (True, reg', w')"
  shows "agents_ok w' \<and> all_ready E w' \<and> agent_world.more w' = agent_world.more w \<and>
    (\<exists>b info. announced E w b info w' \<and> addAgentIds info \<noteq> [] \<and>
    (\<forall>k. known w' k \<longleftrightarrow> k \<in> set (addAgentIds info)) \<and> dom (map_of (AllAgents w')) = set (addAgentIds info) \<and>
    written (history w') = written (history w) @ [b])"
  using assms(3)
proof (rule registration_start_True)
  fix w1 w2 w3 w4
  assume 1: "doConnect E 200 w = Inr (True, w1)" and 2: "doWhoAreYou E w1 = Inr (True, w2)"
    and 3: "doAGENTS_INFO E (new_Registration ''Default'') (call (Sleep 1) w2) = Inr (True, w3)"
    and 4: "doInitialization E (new_Registration ''Default'') w3 = Inr (True, reg', w4)" and 5: "doREADY E w4 = Inr (True, w')"
  from 3 obtain h c v info where v: "expect_message E ''new_agents'' (call (Sleep 1) w2) = Inr (Some (h, c), v)"
    and info: "parseNewAgents (lib E) c 0 = Inr info" "addAgentIds info \<noteq> []"
    and fold: "fold_outcome (register_agent (m_application (new_Registration ''Default''))) (addAgentIds info) v = Inr w3"
    by (rule doAGENTS_INFO_Inr)
  note con = connect_loop_only [OF 1 [unfolded doConnect_def]]
  have wv: "net_only w v"
    using con doWhoAreYou_only [OF 2] expect_message_only(1) [OF v] net_only_sleep net_only_trans by metis
  then have nil: "AllAgents v = []" using none wv by (simp add: net_only_agents)
  then have fresh: "fresh_agents ''Default'' v" by (simp add: fresh_agents_def agents_ok_def)
  then have w3: "fresh_agents ''Default'' w3" "dom (map_of (AllAgents w3)) = set (addAgentIds info)" "agents_only v w3" "history w3 = history v"
    using register_all [of "''Default''" v "addAgentIds info"] fold nil by (auto simp: new_Registration_def)
  have "base_doInitialization E w3 = Inr (True, w4)"
    using 4 by (simp add: doInitialization_def new_Registration_def) (auto simp: outcome_simps)
  then have w4: "agents_ok w4" "all_ready E w4" "AllAgents w4 = AllAgents w3" "agents_only w3 w4" "\<exists>h. history w4 = history w3 @ h"
    using base_doInitialization_ready [OF laws w3(1)] by auto
  have only: "net_only w4 w'" using 5 by (rule doREADY_only)
  have A: "AllAgents w' = AllAgents w3" using net_only_agents(2) [OF only] w4(3) by simp
  then have known: "known w' k \<longleftrightarrow> k \<in> set (addAgentIds info)" for k
    using known_dom [OF w3(1), of k] w3(2) by (simp add: known_def)
  obtain before b where w2: "history w2 = history w @ before @ [NetWrite b]" "written before = []"
    using 2
  proof (rule doWhoAreYou_Inr)
    fix h' c' u token og ok head msg
    assume e: "expect_message E ''id_request'' w1 = Inr (Some (h', c'), u)" and s: "send E head msg u = Inr (True, w2)"
    have "net_only w u" using con expect_message_only(1) [OF e] net_only_trans by metis
    moreover have "written (history u) = written (history w)" using con expect_message_only(2) [OF e] by simp
    ultimately obtain g where "history u = history w @ g" "written g = []" using net_only_history by blast
    with s show thesis by (elim send_Inr) (rule that [of g]; simp)
  qed
  obtain g where "history w' = history v @ g" using w3(4) w4(5) only by (auto simp: net_only_def)
  then have "announced E w b info w'" by (rule expect_announced [OF v info(1) w2])
  moreover have "written (history w') = written (history w) @ [b]"
    using w2 expect_message_only(2) [OF v] doREADY_only(2) [OF 5] w3(3) w4(4) by (simp add: agents_only_def written_append)
  moreover have "agent_world.more w' = agent_world.more w"
    using w3(3) w4(4) net_only_agents(3) [OF only] net_only_agents(3) [OF wv] by (simp add: agents_only_def)
  ultimately show ?thesis
    using A w3(2) info(2) known agents_ok_net_only [OF w4(1) only] all_ready_net_only [OF laws w4(2) only] by auto
qed

section \<open>The group of an stk application\<close>

text \<open>\<open>stk_ready\<close>: every agent has its role in the group, and nothing that \<open>Agent::init\<close> gives.\<close>

definition stk_ready :: "'z agent_world_scheme \<Rightarrow> bool" where
  "stk_ready w \<longleftrightarrow> (\<forall>(k, p) \<in> set (AllAgents w). wfd_ready w k p)"

lemma access_points_nodes [simp]: "access_points (replicate n CreateNode) = []" "stations (replicate n CreateNode) = []"
  by (induction n) simp_all

lemma send_access [simp]: "send E h t w = Inr (ok, w') \<Longrightarrow> access_points (history w') = access_points (history w)"
  "send E h t w = Inr (ok, w') \<Longrightarrow> stations (history w') = stations (history w)"
  by (erule send_Inr, simp)+

lemma stk_ready_same:
  "stk_ready w \<Longrightarrow> heap w' = heap w \<Longrightarrow> AllAgents w' = AllAgents w \<Longrightarrow> stk_ready w'"
  by (simp add: stk_ready_def wfd_ready_def)

lemma wfd_doInitialization_True:
  assumes fresh: "fresh_agents ''stk'' w" and A: "AllAgents w = (k0, p0) # rest" and M: "map_ok (WFD_Membership r)"
    and empty: "wfd_go_nc w = []" "wfd_cln_nc w = []" and ok: "wfd_doInitialization E r w = Inr (True, r', w')"
  shows "WFD_Groups r' = map_put k0 \<lparr>wg_groupId = k0, wg_GO = k0, wg_members = map fst (AllAgents w)\<rparr> (WFD_Groups r)"
    and "map_of (WFD_Membership r') k = (if k \<in> set (map fst (AllAgents w)) then Some k0 else map_of (WFD_Membership r) k)"
    and "AllAgents w' = AllAgents w" and "agents_ok w'" and "stk_ready w'"
    and "\<exists>chan. access_points (history w') = access_points (history w) @ [(chan, ''WFD-GRP-0'', wfd_node w' p0)] \<and>
      stations (history w') = stations (history w) @ [(chan, ''WFD-GRP-0'', map (wfd_node w' \<circ> snd) rest)]"
    and "\<exists>og. makeGoClient (lib E) (serialize_begin new_OngoingSerialization) (WFD_Groups r') = Inr og \<and>
      written (history w') = written (history w) @ [bundle_bytes og]"
proof -
  obtain mem where r1: "doRoleAssignment w r = Inr (True, \<lparr>WFD_Groups = map_put k0
      \<lparr>wg_groupId = k0, wg_GO = k0, wg_members = map fst (AllAgents w)\<rparr> (WFD_Groups r), WFD_Membership = mem\<rparr>)"
    and mem: "\<forall>k. map_of mem k = (if k \<in> set (map fst (AllAgents w)) then Some k0 else map_of (WFD_Membership r) k)"
    using doRoleAssignment_eq [OF fresh A M] by blast
  obtain w1 where w1: "base_doInitialization E w = Inr (True, w1)" "agents_ok w1" "agents_only w w1"
      "AllAgents w1 = AllAgents w" "\<forall>(k, p) \<in> set (AllAgents w). wfd_ready w1 k p"
      "history w1 = history w @ replicate (length (AllAgents w)) CreateNode"
      "wfd_go_nc w1 = [(0, [wfd_node w1 p0])]" "only0 (wfd_cln_nc w1)" "nodes0 (wfd_cln_nc w1) = map (wfd_node w1 \<circ> snd) rest"
    using base_doInitialization_wfd [OF fresh A empty] by blast
  from ok r1 w1(1) obtain og ok2 h msg w2 ok3 where og: "makeGoClient (lib E) (serialize_begin new_OngoingSerialization) (WFD_Groups r') = Inr og"
    and e: "serialize_end (lib E) og new_BundleHeader [] = Inr (ok2, h, msg)" and send: "send E h msg w1 = Inr (ok3, w2)"
    and c: "configAll E w2 = Inr w'"
    and r': "r' = \<lparr>WFD_Groups = map_put k0 \<lparr>wg_groupId = k0, wg_GO = k0, wg_members = map fst (AllAgents w)\<rparr> (WFD_Groups r), WFD_Membership = mem\<rparr>"
    by (auto simp: wfd_doInitialization_def outcome_simps split: if_splits)
  note only = send_only [OF send]
  note w2 = net_only_agents [OF only(1)]
  obtain w3 chan where w3: "configAll E w2 = Inr w3" "agents_only w2 w3" "AllAgents w3 = AllAgents w2" "heap w3 = heap w2"
      "access_points (history w3) = access_points (history w2) @ [(chan, ''WFD-GRP-0'', wfd_node w1 p0)]"
      "stations (history w3) = stations (history w2) @ [(chan, ''WFD-GRP-0'', nodes0 (wfd_cln_nc w2))]"
    using configAll_one_group [of w2 "wfd_node w1 p0" E] w2(5,6) w1(7,8) by metis
  then have w': "w' = w3" using c by simp
  have node: "wfd_node w' p = wfd_node w1 p" for p using w3(4) w2(1) w' by (simp add: wfd_node_def)
  show "WFD_Groups r' = map_put k0 \<lparr>wg_groupId = k0, wg_GO = k0, wg_members = map fst (AllAgents w)\<rparr> (WFD_Groups r)"
    and "map_of (WFD_Membership r') k = (if k \<in> set (map fst (AllAgents w)) then Some k0 else map_of (WFD_Membership r) k)"
    using mem by (simp_all add: r')
  show A': "AllAgents w' = AllAgents w" using w3(3) w2(2) w1(4) w' by simp
  show "agents_ok w'" using w1(2) w3(3,4) w2(1,2) w' by (simp add: agents_ok_def)
  have "stk_ready w1" using w1(4,5) by (simp add: stk_ready_def)
  then show "stk_ready w'" by (rule stk_ready_same) (use w3(3,4) w2(1,2) w' in simp_all)
  have "access_points (history w') = access_points (history w) @ [(chan, ''WFD-GRP-0'', wfd_node w' p0)]"
    using w3(5) send_access(1) [OF send] w1(6) node w' by simp
  moreover have "stations (history w') = stations (history w) @ [(chan, ''WFD-GRP-0'', map (wfd_node w' \<circ> snd) rest)]"
    using w3(6) send_access(2) [OF send] w1(6,9) w2(6) node w' by (simp add: comp_def)
  ultimately show "\<exists>chan. access_points (history w') = access_points (history w) @ [(chan, ''WFD-GRP-0'', wfd_node w' p0)] \<and>
      stations (history w') = stations (history w) @ [(chan, ''WFD-GRP-0'', map (wfd_node w' \<circ> snd) rest)]" by blast
  have "make_bundle_header h @ msg = bundle_bytes og" using e by (auto simp: serialize_end_eq bundle_bytes_def Let_def)
  then show "\<exists>og. makeGoClient (lib E) (serialize_begin new_OngoingSerialization) (WFD_Groups r') = Inr og \<and>
      written (history w') = written (history w) @ [bundle_bytes og]"
    using og only(2) w3(2) w1(3) w' by (simp add: agents_only_def)
qed

text \<open>It succeeds when there is an agent, the go_client message can be built and the network writes.\<close>

lemma wfd_doInitialization_total:
  assumes fresh: "fresh_agents ''stk'' w" and A: "AllAgents w = (k0, p0) # rest" and M: "map_ok (WFD_Membership r)"
    and empty: "wfd_go_nc w = []" "wfd_cln_nc w = []" and "m_session (conn w) \<noteq> None" and "\<forall>h. net_write E h"
    and og: "makeGoClient (lib E) (serialize_begin new_OngoingSerialization)
      (map_put k0 \<lparr>wg_groupId = k0, wg_GO = k0, wg_members = map fst (AllAgents w)\<rparr> (WFD_Groups r)) = Inr og"
    and fits: "to_int (int (length (bundle_bytes og))) \<noteq> 0"
  shows "\<exists>r' w'. wfd_doInitialization E r w = Inr (True, r', w')"
proof -
  obtain mem where r1: "doRoleAssignment w r = Inr (True, \<lparr>WFD_Groups = map_put k0
      \<lparr>wg_groupId = k0, wg_GO = k0, wg_members = map fst (AllAgents w)\<rparr> (WFD_Groups r), WFD_Membership = mem\<rparr>)"
    using doRoleAssignment_eq [OF fresh A M] by blast
  obtain w1 where w1: "base_doInitialization E w = Inr (True, w1)" "agents_only w w1"
      "wfd_go_nc w1 = [(0, [wfd_node w1 p0])]" "only0 (wfd_cln_nc w1)"
    using base_doInitialization_wfd [OF fresh A empty] by blast
  then obtain s where s: "m_session (conn w1) = Some s" using assms(6) by (auto simp: agents_only_def)
  let ?msg = "vary_header (vHead og) @ messages og" let ?h = "result_header (vHead og) ?msg"
  have len: "make_bundle_header ?h \<noteq> []" by (simp add: make_bundle_header_in_use make_bundle_header_v1_def)
  obtain w2 where w2: "send E ?h ?msg w1 = Inr (True, w2)"
    using s assms(7) len fits by (simp add: send_def with_session_def session_write_def Let_def bundle_bytes_def)
  note eq = net_only_agents [OF send_only(1) [OF w2]]
  obtain w3 where "configAll E w2 = Inr w3"
    using configAll_one_group [of w2 "wfd_node w1 p0" E] eq(5,6) w1(3,4) by auto
  then show ?thesis using r1 w1(1) og w2 by (simp add: wfd_doInitialization_def serialize_end_eq Let_def)
qed

text \<open>Without a node and a socket, none of the handlers' operations is defined.\<close>

lemma stk_cannot_act:
  assumes "stk_ready w" and "map_of (AllAgents w) k = Some (Some p)"
  shows "SetPosition E p v w = Inl Undefined" and "SendTo E q (Some p) pkt w = Inl Undefined"
proof -
  have "(k, Some p) \<in> set (AllAgents w)" using assms(2) by (rule map_of_SomeD)
  then have r: "wfd_ready w k (Some p)" using assms(1) by (auto simp: stk_ready_def)
  then show "SetPosition E p v w = Inl Undefined" by (auto simp: wfd_ready_def SetPosition_def with_agent_def)
  from r have "GetAddress E p w = Inl Undefined" by (auto simp: wfd_ready_def GetAddress_def with_agent_def vec_index_def)
  then show "SendTo E q (Some p) pkt w = Inl Undefined" by (simp add: SendTo_def)
qed

lemma stk_locations_undefined:
  assumes "stk_ready w" and "\<exists>it \<in> set its. known w (fst it)"
  shows "fold_outcome (locate_one E) its w = Inl Undefined"
  using assms(2)
proof (induction its)
  case (Cons it its)
  show ?case
  proof (cases "known w (fst it)")
    case True
    then show ?thesis using stk_cannot_act(1) [OF assms(1)] by (auto simp: known_def locate_one_def)
  next
    case False
    then have "locate_one E it w = Inr w" by (auto simp: known_def locate_one_def split: option.splits)
    then show ?thesis using Cons False by auto
  qed
qed simp

end
