(* ===== verification/Broker_Start.thy ===== *)
theory Broker_Start
  imports Mailbox Registration_Dialogue
begin

text \<open>
  \<open>Broker::start\<close> of model/smb_broker.cc, which joins the parts: it registers with Sim Mobility,
  issues the first asynchronous read, starts the I/O thread, sets the defaults of ns-3 and
  schedules the first \<open>pause\<close>. What it leaves behind is the state in which the step system of
  Broker_Steps begins.
\<close>

definition registration_for :: "string \<Rightarrow> Registration outcome" where
  "registration_for application =
     (if application = ''Default'' then Inr (new_Registration ''Default'')
      else if application = ''stk'' then Inr (new_WFD_Registration ''stk'')
      else throw ''Unknown application.'')"

definition ns3_defaults :: "(string \<times> string) list" where
  "ns3_defaults =
     [(''ns3::WifiRemoteStationManager::FragmentationThreshold'', ''2200''),
      (''ns3::WifiRemoteStationManager::RtsCtsThreshold'', ''2200''),
      (''ns3::WifiRemoteStationManager::NonUnicastMode'', ''DsssRate1Mbps'')]"

definition start :: "env \<Rightarrow> string \<Rightarrow> 'z broker_world_scheme \<Rightarrow> (bool \<times> 'z broker_world_scheme) outcome" where
  "start E application w =
     (let w0 = w\<lparr>m_global_tick := 0\<rparr> in
      ebind (registration_for application) (\<lambda>registration.
      ebind (registration_start E registration w0) (\<lambda>(ok, _, w1).
      if \<not> ok then Inr (False, w1) else
      ebind (isOpen E w1) (\<lambda>up1.
      if \<not> up1 then Inr (False, w1) else
      ebind (async_receive E w1) (\<lambda>w2.
      ebind (isOpen E w2) (\<lambda>up2.
      if \<not> up2 then Inr (False, w2) else
      let w3 = call ThreadStart w2;
          w4 = fold (\<lambda>(name, value). call (ConfigDefault name value)) ns3_defaults w3 in
      Inr (True, call (Schedule 0) w4)))))))"

lemma start_Inr:
  assumes "start E app w = Inr (True, w')"
  obtains reg reg' w1 h where "registration_for app = Inr reg" and "registration_start E reg (w\<lparr>m_global_tick := 0\<rparr>) = Inr (True, reg', w1)"
    and "w' = w1\<lparr>conn := (conn w1)\<lparr>incomingMessage := []\<rparr>, pending := Some ReadHeader, history := history w1 @ NetAsyncRead header_length # h\<rparr>"
    and "written h = []"
proof -
  from assms obtain reg where reg: "registration_for app = Inr reg"
    by (auto simp: start_def Let_def outcome_simps)
  with assms obtain ok reg' w1 where r: "registration_start E reg (w\<lparr>m_global_tick := 0\<rparr>) = Inr (ok, reg', w1)"
    by (auto simp: start_def Let_def outcome_simps)
  with assms reg have ok: ok by (cases ok) (simp_all add: start_def Let_def)
  with assms reg r obtain w2 where w2: "async_receive E w1 = Inr w2"
    and w': "w' = call (Schedule 0) (fold (\<lambda>(name, value). call (ConfigDefault name value)) ns3_defaults (call ThreadStart w2))"
    by (auto simp: start_def Let_def outcome_simps split: if_splits)
  show thesis
    by (rule that [OF reg, where h = "ThreadStart # map (\<lambda>(n, v). ConfigDefault n v) ns3_defaults @ [Schedule 0]"])
      (use r ok async_receive_Inr [OF w2] in \<open>simp_all add: w' ns3_defaults_def call_def\<close>)
qed

lemma broker_more:
  assumes "agent_world.more w' = agent_world.more w"
  shows "m_incoming w' = m_incoming w" and "m_pause w' = m_pause w" and "m_global_tick w' = m_global_tick w"
    and "handleLookup w' = handleLookup w"
  using assms by (cases w; cases w'; simp)+

text \<open>What a \<open>Default\<close> broker is like once it has started.\<close>

lemma started:
  assumes laws: "ns3_laws E" and new: "new_Broker h0 host port = Inr w0" and start: "start E ''Default'' w0 = Inr (True, w')"
  shows "broker_ok E w' \<and> messageList (m_incoming w') = [] \<and> m_pause w' \<and> m_global_tick w' = 0 \<and>
    pending w' = Some ReadHeader \<and> length (written (history w')) = length (written h0) + 1 \<and> handleLookup w' = new_HandlerLookup \<and>
    (\<exists>k. known w' k) \<and> (\<forall>k. map_of (AllAgents w') k \<noteq> Some None)"
  using start
proof (rule start_Inr)
  fix reg reg' w1 h
  assume reg: "registration_for ''Default'' = Inr reg" and r: "registration_start E reg (w0\<lparr>m_global_tick := 0\<rparr>) = Inr (True, reg', w1)"
    and w': "w' = w1\<lparr>conn := (conn w1)\<lparr>incomingMessage := []\<rparr>, pending := Some ReadHeader, history := history w1 @ NetAsyncRead header_length # h\<rparr>"
    and h: "written h = []"
  have w0: "AllAgents w0 = []" "m_incoming w0 = new_ThreadSafeQueue" "m_pause w0" "handleLookup w0 = new_HandlerLookup" "history w0 = h0"
    using new by (auto simp: new_Broker_def outcome_simps)
  have reg1: "registration_start E (new_Registration ''Default'') (w0\<lparr>m_global_tick := 0\<rparr>) = Inr (True, reg', w1)"
    using reg r by (simp add: registration_for_def)
  have none: "AllAgents (w0\<lparr>m_global_tick := 0\<rparr>) = []" using w0(1) by simp
  note facts = default_registration [OF laws none reg1]
  then have more: "agent_world.more w1 = agent_world.more (w0\<lparr>m_global_tick := 0\<rparr>)" by blast
  obtain b info where b: "written (history w1) = written (history w0) @ [b]"
    and known: "\<forall>k. known w1 k \<longleftrightarrow> k \<in> set (addAgentIds info)" "addAgentIds (info :: AgentsInfoMessage) \<noteq> []"
      "dom (map_of (AllAgents w1)) = set (addAgentIds info)"
    using facts by auto
  have "broker_ok E w1" using facts broker_more(1) [OF more] w0(2) by (simp add: broker_ok_def new_ThreadSafeQueue_def)
  then have "agents_ok w'" "all_ready E w'"
    using laws agents_ok_cong [of w' w1] all_ready_history [OF laws, of w1 w'] by (auto simp: broker_ok_def w')
  moreover have "m_incoming w' = new_ThreadSafeQueue" using broker_more(1) [OF more] w0(2) by (simp add: w')
  moreover have "m_pause w'" "m_global_tick w' = 0" "handleLookup w' = new_HandlerLookup"
    using broker_more(2-4) [OF more] w0(3,4) by (simp_all add: w')
  moreover have "length (written (history w')) = length (written h0) + 1" using b w0(5) h by (simp add: w' written_append)
  moreover have "\<exists>k. known w' k"
    using known by (intro exI [of _ "hd (addAgentIds info)"]) (simp add: w' known_def)
  moreover have "map_of (AllAgents w') k \<noteq> Some None" for k
  proof
    assume "map_of (AllAgents w') k = Some None"
    moreover from this have "known w1 k" using known(1,3) by (auto simp: w')
    ultimately show False by (simp add: known_def w')
  qed
  ultimately show ?thesis by (simp add: broker_ok_def new_ThreadSafeQueue_def w')
qed

end
