(* ===== verification/Handler_Props.thy ===== *)
theory Handler_Props
  imports Handlers
begin

text \<open>
  The properties of the message handlers: which agents a message adds and removes, which
  nodes it moves, and which packets it sends. Each is a statement about the whole handler on a
  message that parses.
\<close>

section \<open>Concrete states for the witnesses\<close>

definition demo_message :: "json \<Rightarrow> string \<Rightarrow> MessageConglomerate" where
  "demo_message v ty = \<lparr>senderId = ''0'', messages_json = [v], messages_v1 = ''{}'', offsets_v1 = [(0, 2)],
     message_bases = [\<lparr>msg_type = ty\<rparr>]\<rparr>"

definition demo_agent :: "string \<Rightarrow> nat \<Rightarrow> Agent" where
  "demo_agent a n = (new_Agent a (Some n))\<lparr>iic := [n], m_socket := Some n\<rparr>"

definition demo_connection :: Connection where
  "demo_connection = \<lparr>m_session = Some new_Session, incomingHeader = new_BundleHeader, incomingMessage = [],
     simmob_host = ''127.0.0.1'', simmob_port = ''6745''\<rparr>"

text \<open>Two ready agents, ''a'' on node 1 and ''b'' on node 2.\<close>

definition demo_world :: agent_world where
  "demo_world = \<lparr>history = [MobilityInstall [1, 2]], conn = demo_connection, pending = None,
     m_outgoing = new_OngoingSerialization,
     heap = [demo_agent ''a'' 1, demo_agent ''b'' 2], AllAgents = [(''a'', Some 0), (''b'', Some 1)],
     global_pckt_cnt = 0, wfd_nc = [], wfd_go_nc = [], wfd_cln_nc = [], wfd_go_ndc = [], wfd_cln_ndc = []\<rparr>"

abbreviation demo_E :: env where
  "demo_E \<equiv> demo_env demo_lib (\<lambda>_. None) (\<lambda>_. True)"

lemma demo_world_ok: "agents_ok demo_world"
  by (auto simp: agents_ok_def demo_world_def demo_agent_def new_Agent_def map_ok_def split: if_splits)

lemma demo_world_ready: "all_ready demo_E demo_world"
  by (auto simp: all_ready_def ready_def demo_world_def demo_agent_def new_Agent_def demo_env_def split: if_splits)

lemma lib_demo_env [simp]: "lib (demo_env J rd up) = J"
  by (simp add: demo_env_def)

lemma demo_map: "map_of (AllAgents demo_world) k =
    (if k = ''a'' then Some (Some 0) else if k = ''b'' then Some (Some 1) else None)"
  by (simp add: demo_world_def)

lemmas parse_simps = parse_base_def id_array_def get_string_def getBaseMessage_def getJsonMessage_def vec_at_def
  isNull_def isArray_def demo_lib_def demo_json_def

definition demo_new_agents :: MessageConglomerate where
  "demo_new_agents = demo_message (objectValue [(''add'', arrayValue [stringValue ''b'', stringValue ''c'']),
     (''rem'', arrayValue [stringValue ''a''])]) ''new_agents''"

definition demo_info :: AgentsInfoMessage where
  "demo_info = \<lparr>msg_type = ''new_agents'', addAgentIds = [''b'', ''c''], remAgentIds = [''a'']\<rparr>"

lemma demo_new_agents_parse: "parseNewAgents (lib demo_E) demo_new_agents 0 = Inr demo_info"
  by (simp add: demo_info_def parseNewAgents_def demo_new_agents_def demo_message_def parse_simps
      MessageBase.extend_def AgentsInfoMessage.fields_def)

definition demo_locations :: MessageConglomerate where
  "demo_locations = demo_message (objectValue [(''locations'', arrayValue
     [objectValue [(''id'', stringValue ''b''), (''x'', realValue 3), (''y'', realValue 4)],
      objectValue [(''id'', stringValue ''z''), (''x'', realValue 5), (''y'', realValue 6)]])]) ''all_locations''"

definition demo_locs :: AllLocationsMessage where
  "demo_locs = \<lparr>msg_type = ''all_locations'',
     agentLocations = [(''b'', \<lparr>dp_x = 3, dp_y = 4\<rparr>), (''z'', \<lparr>dp_x = 5, dp_y = 6\<rparr>)]\<rparr>"

lemma demo_locations_parse: "parseAllLocations (lib demo_E) demo_locations 0 = Inr demo_locs"
  by (simp add: demo_locs_def parseAllLocations_def demo_locations_def demo_message_def parse_simps parse_location_def
      MessageBase.extend_def AllLocationsMessage.fields_def)

definition demo_opaque :: "string \<Rightarrow> MessageConglomerate" where
  "demo_opaque a = demo_message (objectValue [(''from_id'', stringValue a),
     (''to_ids'', arrayValue [stringValue ''b'', stringValue ''z'']), (''broadcast'', booleanValue False),
     (''data'', stringValue ''d''), (''format'', stringValue ''f''), (''tech'', stringValue ''t'')]) ''opaque_send''"

definition demo_os :: "string \<Rightarrow> OpaqueSendMessage" where
  "demo_os a = \<lparr>msg_type = ''opaque_send'', fromId = a, toIds = [''b'', ''z''], broadcast = False,
     os_data = ''d'', os_format = ''f'', os_tech = ''t''\<rparr>"

lemma demo_opaque_parse: "parseOpaqueSend (lib demo_E) (demo_opaque a) 0 = Inr (demo_os a)"
  by (simp add: demo_os_def parseOpaqueSend_def demo_opaque_def demo_message_def parse_simps
      MessageBase.extend_def OpaqueSendMessage.fields_def)

section \<open>Properties\<close>

text \<open>
  C13: on ready agents, a new_agents message succeeds exactly when none of the ids it removes
  has a null entry. Then every id it adds has an agent unless the id was known (a known
  id, a null entry included, keeps its entry), every id it removes is gone, the other
  entries are untouched, and all agents are ready again.
\<close>

theorem agents_info_effect:
  assumes laws: "ns3_laws E" and ok: "agents_ok w" and ready: "all_ready E w"
    and parse: "parseNewAgents (lib E) c i = Inr info"
  shows "((\<exists>w'. handle E AgentsInfoHandler c i w = Inr w') \<longleftrightarrow>
      (\<forall>k \<in> set (remAgentIds info). map_of (AllAgents w) k \<noteq> Some None)) \<and>
    (\<forall>w'. handle E AgentsInfoHandler c i w = Inr w' \<longrightarrow>
      agents_ok w' \<and> all_ready E w' \<and>
      (\<forall>k. known w' k \<longleftrightarrow> k \<notin> set (remAgentIds info) \<and>
         (known w k \<or> map_of (AllAgents w) k = None \<and> k \<in> set (addAgentIds info))) \<and>
      (\<forall>k. k \<notin> set (remAgentIds info) \<and> map_of (AllAgents w) k \<noteq> None \<longrightarrow>
         map_of (AllAgents w') k = map_of (AllAgents w) k))"
proof -
  obtain w1 where w1: "fold_outcome (add_one_agent E) (addAgentIds info) w = Inr w1" "agents_ok w1"
    using add_agents_ready [OF laws ok ready] by blast
  have handle: "handle E AgentsInfoHandler c i w = fold_outcome RemoveAgent (remAgentIds info) w1"
    using parse w1(1) by (simp add: handle_def AgentsInfo_handle_def)
  note add = add_agents_effect [OF w1(1) ok]
  have null: "map_of (AllAgents w1) k = Some None \<longleftrightarrow> map_of (AllAgents w) k = Some None" for k
    using add [of k] by (cases "map_of (AllAgents w) k"; cases "k \<in> set (addAgentIds info)") auto
  have known1: "known w1 k \<longleftrightarrow> known w k \<or> map_of (AllAgents w) k = None \<and> k \<in> set (addAgentIds info)" for k
    using add [of k] by (cases "map_of (AllAgents w) k"; cases "k \<in> set (addAgentIds info)") (auto simp: known_def)
  show ?thesis
  proof (intro conjI allI impI)
    show "(\<exists>w'. handle E AgentsInfoHandler c i w = Inr w') \<longleftrightarrow>
        (\<forall>k \<in> set (remAgentIds info). map_of (AllAgents w) k \<noteq> Some None)"
      using remove_agents_defined [OF w1(2)] handle null by simp
  next
    fix w' assume w': "handle E AgentsInfoHandler c i w = Inr w'"
    show "agents_ok w'" using ok w' by (rule handle_ok)
    show "all_ready E w'" using laws ok ready w' by (rule handle_ready)
    have rem: "map_of (AllAgents w') k = (if k \<in> set (remAgentIds info) then None else map_of (AllAgents w1) k)" for k
      using w' handle by (intro remove_agents_effect [OF _ w1(2)]) simp
    show "known w' k \<longleftrightarrow> k \<notin> set (remAgentIds info) \<and>
        (known w k \<or> map_of (AllAgents w) k = None \<and> k \<in> set (addAgentIds info))" for k
      using known1 [of k] by (simp add: known_def rem)
    show "map_of (AllAgents w') k = map_of (AllAgents w) k"
      if "k \<notin> set (remAgentIds info) \<and> map_of (AllAgents w) k \<noteq> None" for k
      using that add(1) [of k] by (simp add: rem)
  qed
qed

theorem agents_info_effect_witness:
  "\<exists>w'. handle demo_E AgentsInfoHandler demo_new_agents 0 demo_world = Inr w' \<and> agents_ok w' \<and> all_ready demo_E w' \<and>
     \<not> known w' ''a'' \<and> known w' ''b'' \<and> known w' ''c'' \<and> map_of (AllAgents w') ''b'' = Some (Some 1)"
proof -
  note eff = agents_info_effect [OF demo_env_laws demo_world_ok demo_world_ready demo_new_agents_parse]
  obtain w' where w': "handle demo_E AgentsInfoHandler demo_new_agents 0 demo_world = Inr w'"
    using eff by (auto simp: demo_info_def demo_map)
  have k: "known w' k \<longleftrightarrow> k \<noteq> ''a'' \<and> (known demo_world k \<or> map_of (AllAgents demo_world) k = None \<and> k \<in> {''b'', ''c''})" for k
    using eff w' by (simp add: demo_info_def)
  have m: "map_of (AllAgents w') ''b'' = map_of (AllAgents demo_world) ''b''"
    using eff w' by (simp add: demo_info_def demo_map)
  have "agents_ok w'" and "all_ready demo_E w'" using eff w' by blast+
  then show ?thesis using w' k [of "''a''"] k [of "''b''"] k [of "''c''"] m
    by (intro exI [of _ w']) (simp add: known_def demo_map)
qed

text \<open>
  C15: on ready agents, an all_locations message always succeeds, and does nothing but set the
  position of the node of every located agent that is known, in the order of the ids.
\<close>

theorem all_locations_effect:
  assumes "ns3_laws E" and ready: "all_ready E w" and "parseAllLocations (lib E) c i = Inr info"
  shows "handle E AllLocationHandler c i w =
    Inr (w\<lparr>history := history w @ concat (map (moves w) (agentLocations info))\<rparr>)"
proof -
  obtain w' where w': "fold_outcome (locate_one E) (agentLocations info) w = Inr w'"
    using locate_all_ready [OF assms(1) ready] by blast
  with locate_all_Inr [OF w'] assms(3) show ?thesis by (simp add: handle_def AllLocation_handle_def)
qed

theorem all_locations_effect_witness:
  "handle demo_E AllLocationHandler demo_locations 0 demo_world =
    Inr (demo_world\<lparr>history := history demo_world @ concat (map (moves demo_world) (agentLocations demo_locs))\<rparr>)"
  by (rule all_locations_effect [OF demo_env_laws demo_world_ready demo_locations_parse])

text \<open>
  C14: on ready agents, an opaque_send message from a known agent always succeeds. It sends
  one packet to every known recipient, in order, from the sender's socket to the
  recipient's address, with the message that names this recipient, and counts the packets;
  recipients that are not known get nothing.
\<close>

theorem opaque_send_effect:
  assumes J: "json_doc (lib E)" and laws: "ns3_laws E" and ok: "agents_ok w" and ready: "all_ready E w"
    and parse: "parseOpaqueSend (lib E) c i = Inr os" and "known w (fromId os)"
  shows "\<exists>w' ps. handle E OpaqueSendHandler c i w = Inr w' \<and>
    sends (history w') = sends (history w) @ map (Pair (the (m_socket (agent_of w (fromId os))))) ps \<and>
    list_all2 (message_for E (opaque_receive os)) (filter (known w) (toIds os)) ps \<and>
    connects (history w') = connects (history w) @
      map (\<lambda>t. (the (m_socket (agent_of w (fromId os))), ns_address E (hd (iic (agent_of w t))), 80))
        (filter (known w) (toIds os)) \<and>
    global_pckt_cnt w' = global_pckt_cnt w + of_nat (length (filter (known w) (toIds os)))"
proof -
  obtain p where p: "map_of (AllAgents w) (fromId os) = Some (Some p)" using assms(6) by (auto simp: known_def)
  have sender: "agent_of w (fromId os) = heap w ! p" by (simp add: agent_of_def p)
  obtain res where res: "is_object res (opaque_receive os)"
    and handle: "OpaqueSend_handle E c i w = ebind (fold_outcome (send_one E p) (toIds os) (res, w)) (\<lambda>(_, w2). Inr w2)"
    using OpaqueSend_eq [OF J parse, of w] p by (auto simp: getAgent_known)
  obtain res' w' where loop: "fold_outcome (send_one E p) (toIds os) (res, w) = Inr (res', w')"
    using send_all_total [OF J laws res ok ready assms(6) p] by fast
  note effect = send_all_Inr [OF J loop ok res]
  from effect(1) obtain ps where "sends (history w') = sends (history w) @ map (Pair (the (m_socket (heap w ! p)))) ps"
      "list_all2 (message_for E (opaque_receive os)) (filter (known w) (toIds os)) ps" by blast
  moreover have "handle E OpaqueSendHandler c i w = Inr w'" using handle loop by (simp add: handle_def)
  ultimately show ?thesis using effect(2,3) unfolding sender by blast
qed

theorem opaque_send_effect_witness:
  "\<exists>w' ps. handle demo_E OpaqueSendHandler (demo_opaque ''a'') 0 demo_world = Inr w' \<and>
    sends (history w') =
      sends (history demo_world) @ map (Pair (the (m_socket (agent_of demo_world (fromId (demo_os ''a'')))))) ps \<and>
    list_all2 (message_for demo_E (opaque_receive (demo_os ''a''))) (filter (known demo_world) (toIds (demo_os ''a''))) ps \<and>
    connects (history w') = connects (history demo_world) @
      map (\<lambda>t. (the (m_socket (agent_of demo_world (fromId (demo_os ''a'')))),
          ns_address demo_E (hd (iic (agent_of demo_world t))), 80))
        (filter (known demo_world) (toIds (demo_os ''a''))) \<and>
    global_pckt_cnt w' =
      global_pckt_cnt demo_world + of_nat (length (filter (known demo_world) (toIds (demo_os ''a''))))"
  by (rule opaque_send_effect [OF _ demo_env_laws demo_world_ok demo_world_ready demo_opaque_parse])
    (simp_all add: demo_lib_doc demo_os_def known_def demo_map)

end
