(* ===== verification/Registration_Props.thy ===== *)
theory Registration_Props
  imports Registration_Dialogue Serialize_Props Handler_Props
begin

text \<open>
  What the registration guarantees: the retries end, the dialogue completes with a peer that
  follows it, a \<open>Default\<close> application ends up with ready agents, and an \<open>stk\<close> one with one group
  whose announced owner is the one access point. The agents of an \<open>stk\<close> application cannot be
  moved and cannot be sent to.
\<close>

section \<open>A concrete dialogue for the witnesses\<close>

definition demo_request :: json where
  "demo_request = objectValue [(''msg_type'', stringValue ''id_request''), (''token'', stringValue ''k'')]"

definition demo_agents :: json where
  "demo_agents = objectValue [(''msg_type'', stringValue ''new_agents''), (''add'', arrayValue [stringValue ''b'', stringValue ''a''])]"

definition reg_lib :: jsonlib where
  "reg_lib = demo_json (map_of [(''{q}'', demo_request), (''{n}'', demo_agents), (''{k}'', demo_typed ''id_ack'')])"

definition reg_text :: "string \<Rightarrow> string" where
  "reg_text m = ''90'' @ length_field 3 @ m"

definition reg_stream :: string where
  "reg_stream = frame make_bundle_header demo_header (reg_text ''{q}'') @ frame make_bundle_header demo_header (reg_text ''{n}'') @
     frame make_bundle_header demo_header (reg_text ''{k}'')"

text \<open>A network that delivers a stream.\<close>

definition deliver :: "string \<Rightarrow> history \<Rightarrow> string option" where
  "deliver stream h = (case last h of
       NetRead n \<Rightarrow> if consumed (butlast h) + n \<le> length stream then Some (take n (drop (consumed (butlast h)) stream)) else None
     | _ \<Rightarrow> None)"

abbreviation reg_E :: env where
  "reg_E \<equiv> demo_env reg_lib (deliver reg_stream) (\<lambda>h. NetClose \<notin> set h)"

definition fresh_world :: agent_world where
  "fresh_world = \<lparr>history = [], conn = demo_connection\<lparr>m_session := None\<rparr>, pending = None,
     m_outgoing = new_OngoingSerialization, heap = [], AllAgents = [],
     global_pckt_cnt = 0, wfd_nc = [], wfd_go_nc = [], wfd_cln_nc = [], wfd_go_ndc = [], wfd_cln_ndc = []\<rparr>"

definition reg_conglomerate :: "string \<Rightarrow> json \<Rightarrow> string \<Rightarrow> MessageConglomerate" where
  "reg_conglomerate m v ty = received (reg_text m) ''9'' ''0'' [m] [(v, \<lparr>msg_type = ty\<rparr>)]"

lemma reg_offers:
  assumes "js_parse reg_lib m = Some v" and "ParseJsonMessageBase reg_lib v = Inr \<lparr>msg_type = ty\<rparr>"
    and "length m = 3" and "hd m = CHR ''{''"
  shows "offers reg_E ty demo_header (reg_text m) (reg_conglomerate m v ty)"
proof -
  obtain m' where m: "m = CHR ''{'' # m'" using assms(3,4) by (cases m) auto
  have "deserialize_v1 reg_lib demo_header (reg_text m) new_MessageConglomerate = Inr (True, reg_conglomerate m v ty)"
    unfolding reg_conglomerate_def
    by (rule deserialize_v1_carried) (use assms m in \<open>simp_all add: bundle_fits_def readable_def reg_text_def vary_header_def demo_header_def\<close>)
  then show ?thesis
    using assms(3)
    by (simp add: offers_def deserialize_def NEW_BUNDLES_def header_fits_def demo_header_def reg_text_def
        reg_conglomerate_def received_def getCount_offsets getBaseMessage_def vec_at_def)
qed

lemma reg_parse: "js_parse reg_lib ''{q}'' = Some demo_request" "js_parse reg_lib ''{n}'' = Some demo_agents"
    "js_parse reg_lib ''{k}'' = Some (demo_typed ''id_ack'')"
  by (simp_all add: reg_lib_def demo_json_def)

lemma reg_base: "ParseJsonMessageBase reg_lib demo_request = Inr \<lparr>msg_type = ''id_request''\<rparr>"
    "ParseJsonMessageBase reg_lib demo_agents = Inr \<lparr>msg_type = ''new_agents''\<rparr>"
    "ParseJsonMessageBase reg_lib (demo_typed ''id_ack'') = Inr \<lparr>msg_type = ''id_ack''\<rparr>"
  by (simp_all add: reg_lib_def demo_json_def ParseJsonMessageBase_def get_string_def demo_request_def demo_agents_def
      demo_typed_def new_MessageBase_def)

lemmas reg_all_offers = reg_offers [OF reg_parse(1) reg_base(1)] reg_offers [OF reg_parse(2) reg_base(2)]
  reg_offers [OF reg_parse(3) reg_base(3)]

lemma reg_delivers: "delivers (demo_env J (deliver stream) up) stream"
  by (simp add: delivers_def demo_env_def deliver_def)

definition demo_answer :: OngoingSerialization where
  "demo_answer = emit_json reg_lib (serialize_begin new_OngoingSerialization)
     (objectValue [(''msg_type'', stringValue ''id_response''), (''id'', stringValue ''987654321''), (''token'', stringValue ''k''),
        (''type'', stringValue ''ns-3''), (''services'', arrayValue [stringValue ''srv_all_locations''])])"

lemma reg_answer: "makeIdResponse reg_lib (serialize_begin new_OngoingSerialization) ''k'' = Inr demo_answer"
  by (simp add: makeIdResponse_def PREFER_BINARY_MESSAGES_def set_all_def append_at_def reg_lib_def demo_json_def demo_answer_def)

lemma reg_answer_length: "to_int (int (length (bundle_bytes demo_answer))) \<noteq> 0"
  by (simp add: bundle_bytes_def demo_answer_def emit_json_def Let_def length_vary_header addGeneric_simps serialize_begin_def
      serialize_begin_simps make_bundle_header_in_use length_make_v1 header_length_def NEW_BUNDLES_def
      write_line_def write_root_def reg_lib_def demo_json_def new_OngoingSerialization_def to_int_def new_JsonSingleLineWriter_def c_str_def)

definition reg_info :: AgentsInfoMessage where
  "reg_info = \<lparr>msg_type = ''new_agents'', addAgentIds = [''b'', ''a''], remAgentIds = []\<rparr>"

lemma reg_info: "parseNewAgents reg_lib (reg_conglomerate ''{n}'' demo_agents ''new_agents'') 0 = Inr reg_info"
  by (simp add: parseNewAgents_def reg_conglomerate_def received_def parse_simps demo_agents_def reg_lib_def reg_info_def
      MessageBase.extend_def AgentsInfoMessage.fields_def)

section \<open>Properties\<close>

text \<open>
  C28: connecting always ends. When the host name resolves, \<open>doConnect\<close> returns after at most as
  many attempts as its timeout says, with a pause of a second between two attempts and none
  after the last; it gives up only after all of them, and reports what its last attempt
  reported. A timeout of zero is not "no attempt": the counter wraps around, and the loop is
  allowed 2 to the power of 32 attempts.
\<close>

theorem connect_retries:
  assumes "resolves E"
  shows "\<exists>ok w' n. doConnect E timeout w = Inr (ok, w') \<and>
    attempts (history w') = attempts (history w) + n \<and> naps (history w') = naps (history w) + (n - 1) \<and>
    1 \<le> n \<and> n \<le> (if timeout = 0 then 2 ^ 32 else unat timeout) \<and>
    (\<not> ok \<longrightarrow> n = (if timeout = 0 then 2 ^ 32 else unat timeout)) \<and>
    (ok \<longleftrightarrow> net_connect E (history w')) \<and> m_session (conn w') \<noteq> None \<and> written (history w') = written (history w)"
proof -
  have tries: "Suc (unat (timeout - 0 - 1)) = (if timeout = 0 then 2 ^ 32 else unat timeout)"
  proof (cases "timeout = 0")
    case True
    have "unat (- 1 :: uint) = 2 ^ 32 - 1" by (simp add: unsigned_minus_1_eq_mask mask_eq_exp_minus_1)
    with True show ?thesis by simp
  next
    case False
    then show ?thesis using unat_minus_one [of timeout] by (simp add: unat_gt_0)
  qed
  show ?thesis using connect_loop_total [OF assms, of timeout 0 w] unfolding tries doConnect_def by blast
qed

theorem connect_retries_witness:
  "\<exists>w' n. doConnect (reg_E\<lparr>net_connect := \<lambda>_. False\<rparr>) 3 fresh_world = Inr (False, w') \<and>
     attempts (history w') = 3 \<and> naps (history w') = 2 \<and> m_session (conn w') \<noteq> None \<and> written (history w') = []"
proof -
  have "resolves (reg_E\<lparr>net_connect := \<lambda>_. False\<rparr>)" by (simp add: resolves_def demo_env_def)
  from connect_retries [OF this, of 3 fresh_world] show ?thesis by (auto simp: fresh_world_def)
qed

text \<open>
  C11: the dialogue completes. With a server that can be reached and a peer that sends an
  id_request with a token, a new_agents message with at least one id and an id_ack, the
  registration of a \<open>Default\<close> application returns true; it has written one bundle, the
  id_response with the token, has read the three bundles and nothing after them, and the
  agents that it knows, all of them ready to move and to send, are the ones announced.
\<close>

theorem default_registration_completes:
  assumes "ns3_laws E" and "resolves E" and "\<forall>h. net_connect E h" and "\<forall>h. net_write E h" and "delivers E stream"
    and "unread stream w = frame make_bundle_header h1 s1 @ frame make_bundle_header h2 s2 @ frame make_bundle_header h3 s3 @ rest"
    and "offers E ''id_request'' h1 s1 c1" and "offers E ''new_agents'' h2 s2 c2" and "offers E ''id_ack'' h3 s3 c3"
    and "\<not> isNull (messages_json c1 ! 0)" and "messages_json c1 \<noteq> []"
    and "js_isMember (lib E) (messages_json c1 ! 0) ''token'' = Inr True"
    and "get_string (lib E) (messages_json c1 ! 0) ''token'' = Inr token"
    and "makeIdResponse (lib E) (serialize_begin new_OngoingSerialization) token = Inr og"
    and "to_int (int (length (bundle_bytes og))) \<noteq> 0"
    and "parseNewAgents (lib E) c2 0 = Inr info" and "addAgentIds info \<noteq> []" and "AllAgents w = []"
  shows "\<exists>w'. registration_start E (new_Registration ''Default'') w = Inr (True, new_Registration ''Default'', w') \<and>
    agents_ok w' \<and> all_ready E w' \<and> (\<forall>k. known w' k \<longleftrightarrow> k \<in> set (addAgentIds info)) \<and>
    written (history w') = written (history w) @ [bundle_bytes og] \<and> unread stream w' = rest"
  using default_dialogue [OF assms] by blast

lemma demo_dialogue:
  "resolves reg_E" "unread reg_stream fresh_world = frame make_bundle_header demo_header (reg_text ''{q}'') @
     frame make_bundle_header demo_header (reg_text ''{n}'') @ frame make_bundle_header demo_header (reg_text ''{k}'') @ []"
  "\<not> isNull (messages_json (reg_conglomerate ''{q}'' demo_request ''id_request'') ! 0)"
  "messages_json (reg_conglomerate ''{q}'' demo_request ''id_request'') \<noteq> []"
  "js_isMember reg_lib (messages_json (reg_conglomerate ''{q}'' demo_request ''id_request'') ! 0) ''token'' = Inr True"
  "get_string reg_lib (messages_json (reg_conglomerate ''{q}'' demo_request ''id_request'') ! 0) ''token'' = Inr ''k''"
  "addAgentIds reg_info \<noteq> []" "AllAgents fresh_world = []"
  by (simp_all add: resolves_def demo_env_def unread_def fresh_world_def reg_stream_def reg_conglomerate_def received_def
      demo_request_def isNull_def reg_lib_def demo_json_def get_string_def reg_info_def)

theorem default_registration_completes_witness:
  "\<exists>w'. registration_start reg_E (new_Registration ''Default'') fresh_world = Inr (True, new_Registration ''Default'', w') \<and>
    agents_ok w' \<and> all_ready reg_E w' \<and> (\<forall>k. known w' k \<longleftrightarrow> k \<in> set (addAgentIds reg_info)) \<and>
    written (history w') = written (history fresh_world) @ [bundle_bytes demo_answer] \<and> unread reg_stream w' = []"
proof -
  have "\<forall>h. net_connect reg_E h" "\<forall>h. net_write reg_E h" by (simp_all add: demo_env_def)
  moreover have "parseNewAgents (lib reg_E) (reg_conglomerate ''{n}'' demo_agents ''new_agents'') 0 = Inr reg_info"
    by (simp add: reg_info)
  ultimately show ?thesis
    using default_registration_completes [OF demo_env_laws demo_dialogue(1) _ _ reg_delivers demo_dialogue(2)
        reg_all_offers demo_dialogue(3,4), of "''k''" demo_answer reg_info]
      demo_dialogue(5-8) reg_answer reg_answer_length by simp
qed

text \<open>
  C12: whatever the peer does, a registration of a \<open>Default\<close> application that returns true and
  started without agents has written one bundle, and its agents are exactly those of the
  new_agents message in the first bundle that it received after writing: the map is
  well-formed, has no null entries and no other ids, and every agent is ready.
\<close>

theorem default_registration_ready:
  assumes "ns3_laws E" and "AllAgents w = []"
    and "registration_start E (new_Registration ''Default'') w = Inr (True, reg', w')"
  shows "agents_ok w' \<and> all_ready E w' \<and> (\<exists>b info. announced E w b info w' \<and> addAgentIds info \<noteq> [] \<and>
    (\<forall>k. known w' k \<longleftrightarrow> k \<in> set (addAgentIds info)) \<and> dom (map_of (AllAgents w')) = set (addAgentIds info) \<and>
    written (history w') = written (history w) @ [b])"
  using default_registration [OF assms] by blast

theorem default_registration_ready_witness:
  "\<exists>w' b info. registration_start reg_E (new_Registration ''Default'') fresh_world = Inr (True, new_Registration ''Default'', w') \<and>
    agents_ok w' \<and> all_ready reg_E w' \<and> announced reg_E fresh_world b info w' \<and> dom (map_of (AllAgents w')) = set (addAgentIds info)"
proof -
  have "\<forall>h. net_connect reg_E h" "\<forall>h. net_write reg_E h" by (simp_all add: demo_env_def)
  then obtain w' where w': "registration_start reg_E (new_Registration ''Default'') fresh_world = Inr (True, new_Registration ''Default'', w')"
    using default_dialogue [OF demo_env_laws demo_dialogue(1) _ _ reg_delivers demo_dialogue(2)
        reg_all_offers demo_dialogue(3,4), of "''k''" demo_answer reg_info]
      demo_dialogue(5-8) reg_answer reg_answer_length reg_info by auto
  from default_registration_ready [OF demo_env_laws demo_dialogue(8) w'] w' show ?thesis by blast
qed

text \<open>Two agents of an stk application, registered but not initialised.\<close>

definition stk_world :: agent_world where
  "stk_world = fresh_world\<lparr>conn := demo_connection, heap := [new_WFD_Agent ''b'', new_WFD_Agent ''a''],
     AllAgents := [(''a'', Some 1), (''b'', Some 0)]\<rparr>"

definition stk_group :: WFD_Group where
  "stk_group = \<lparr>wg_groupId = ''a'', wg_GO = ''a'', wg_members = [''a'', ''b'']\<rparr>"

definition demo_announcement :: OngoingSerialization where
  "demo_announcement = emit_json demo_lib (serialize_begin new_OngoingSerialization)
     (objectValue [(''msg_type'', stringValue ''go_client''), (''groups'', arrayValue
       [objectValue [(''go'', stringValue ''a''), (''clients'', arrayValue [stringValue ''a'', stringValue ''b''])]])])"

abbreviation no_groups :: WFD_maps where
  "no_groups \<equiv> \<lparr>WFD_Groups = [], WFD_Membership = []\<rparr>"

lemma stk_world_simps: "AllAgents stk_world = [(''a'', Some 1), (''b'', Some 0)]" "wfd_go_nc stk_world = []"
    "wfd_cln_nc stk_world = []" "m_session (conn stk_world) \<noteq> None" "history stk_world = []"
  by (simp_all add: stk_world_def fresh_world_def demo_connection_def)

lemma stk_world_fresh: "fresh_agents ''stk'' stk_world"
  by (auto simp: fresh_agents_def agents_ok_def stk_world_def new_for_def new_WFD_Agent_def new_Agent_def map_ok_def
      split: if_splits)

lemma demo_announced: "makeGoClient demo_lib (serialize_begin new_OngoingSerialization) [(''a'', stk_group)] = Inr demo_announcement"
  by (simp add: makeGoClient_def PREFER_BINARY_MESSAGES_def set_all_def append_at_def append_all_def group_value_def
      demo_lib_def demo_json_def demo_announcement_def stk_group_def)

lemma demo_announcement_length: "to_int (int (length (bundle_bytes demo_announcement))) \<noteq> 0"
  by (simp add: bundle_bytes_def demo_announcement_def emit_json_def Let_def length_vary_header addGeneric_simps serialize_begin_def
      serialize_begin_simps make_bundle_header_in_use length_make_v1 header_length_def NEW_BUNDLES_def
      write_line_def write_root_def demo_lib_def demo_json_def new_OngoingSerialization_def to_int_def new_JsonSingleLineWriter_def c_str_def)

lemma stk_initialized: "\<exists>r' w'. wfd_doInitialization demo_E no_groups stk_world = Inr (True, r', w')"
  by (rule wfd_doInitialization_total [OF stk_world_fresh stk_world_simps(1), where og = demo_announcement])
    (use stk_world_simps demo_announced demo_announcement_length in \<open>simp_all add: stk_group_def\<close>, simp add: demo_env_def)

text \<open>
  C25: an \<open>stk\<close> application forms one group. The agent with the least id is the owner that the
  go_client message announces, every agent is a member, and the roles that the agents take
  themselves in \<open>figureOutGroup\<close> agree with it: the owner's node, and it alone, becomes the access
  point of the network WFD-GRP-0, the nodes of the others become its stations, in order, on
  the same channel.
\<close>

theorem stk_group_formed:
  assumes "fresh_agents ''stk'' w" and "AllAgents w = (k0, p0) # rest" and "map_ok (WFD_Membership r)"
    and "wfd_go_nc w = []" and "wfd_cln_nc w = []" and "wfd_doInitialization E r w = Inr (True, r', w')"
  shows "WFD_Groups r' = map_put k0 \<lparr>wg_groupId = k0, wg_GO = k0, wg_members = map fst (AllAgents w)\<rparr> (WFD_Groups r) \<and>
    (\<forall>k \<in> set (map fst (AllAgents w)). k0 \<le> k \<and> map_of (WFD_Membership r') k = Some k0) \<and>
    AllAgents w' = AllAgents w \<and> (\<forall>(k, p) \<in> set (AllAgents w). wfd_ready w' k p) \<and>
    (\<exists>chan. access_points (history w') = access_points (history w) @ [(chan, ''WFD-GRP-0'', wfd_node w' p0)] \<and>
      stations (history w') = stations (history w) @ [(chan, ''WFD-GRP-0'', map (wfd_node w' \<circ> snd) rest)]) \<and>
    (\<exists>og. makeGoClient (lib E) (serialize_begin new_OngoingSerialization) (WFD_Groups r') = Inr og \<and>
      written (history w') = written (history w) @ [bundle_bytes og])"
proof -
  note facts = wfd_doInitialization_True [OF assms]
  have "map_ok (AllAgents w)" using assms(1) by (simp add: fresh_agents_def agents_ok_def)
  then have "\<forall>k \<in> set (map fst (AllAgents w)). k0 \<le> k" by (fastforce simp: assms(2) map_ok_Cons intro: less_imp_le)
  with facts show ?thesis by (simp add: stk_ready_def)
qed

theorem stk_group_formed_witness:
  "\<exists>r' w'. wfd_doInitialization demo_E no_groups stk_world = Inr (True, r', w') \<and>
    WFD_Groups r' = [(''a'', stk_group)] \<and> map_of (WFD_Membership r') ''b'' = Some ''a'' \<and>
    (\<exists>chan. access_points (history w') = [(chan, ''WFD-GRP-0'', wfd_node w' (Some 1))] \<and>
      stations (history w') = [(chan, ''WFD-GRP-0'', [wfd_node w' (Some 0)])]) \<and>
    written (history w') = [bundle_bytes demo_announcement]"
proof -
  obtain r' w' where i: "wfd_doInitialization demo_E no_groups stk_world = Inr (True, r', w')" using stk_initialized by blast
  have M: "map_ok (WFD_Membership no_groups)" by simp
  note formed = stk_group_formed [OF stk_world_fresh stk_world_simps(1) M stk_world_simps(2,3) i]
  have "WFD_Groups r' = [(''a'', stk_group)]" using formed by (simp add: stk_world_simps stk_group_def)
  with formed demo_announced i show ?thesis by (auto simp: stk_world_simps)
qed

text \<open>
  C34: the agents of an \<open>stk\<close> application cannot act. \<open>WFD_Agent::init\<close> sets neither the node nor
  the socket nor the interfaces that the base class works with, so after the registration an
  all_locations message that names one of them, and every packet sent to one of them, is a
  null dereference or a read past the end.
\<close>

theorem stk_agents_cannot_act:
  assumes "fresh_agents ''stk'' w" and "AllAgents w = (k0, p0) # rest" and "map_ok (WFD_Membership r)"
    and "wfd_go_nc w = []" and "wfd_cln_nc w = []" and "wfd_doInitialization E r w = Inr (True, r', w')"
    and "parseAllLocations (lib E) c i = Inr info" and "known w' k" and "k \<in> set (map fst (agentLocations info))"
  shows "handle E AllLocationHandler c i w' = Inl Undefined \<and>
    (\<forall>q pkt. SendTo E q (the (map_of (AllAgents w') k)) pkt w' = Inl Undefined)"
proof -
  have ready: "stk_ready w'" using wfd_doInitialization_True(5) [OF assms(1-6)] .
  have "\<exists>it \<in> set (agentLocations info). known w' (fst it)" using assms(8,9) by auto
  then have "fold_outcome (locate_one E) (agentLocations info) w' = Inl Undefined" by (rule stk_locations_undefined [OF ready])
  then have "handle E AllLocationHandler c i w' = Inl Undefined" using assms(7) by (simp add: handle_def AllLocation_handle_def)
  moreover obtain p where "map_of (AllAgents w') k = Some (Some p)" using assms(8) by (auto simp: known_def)
  ultimately show ?thesis using stk_cannot_act(2) [OF ready] by simp
qed

theorem stk_agents_cannot_act_witness:
  "\<exists>r' w'. wfd_doInitialization demo_E no_groups stk_world = Inr (True, r', w') \<and>
    handle demo_E AllLocationHandler demo_locations 0 w' = Inl Undefined \<and>
    (\<forall>q pkt. SendTo demo_E q (the (map_of (AllAgents w') ''b'')) pkt w' = Inl Undefined)"
proof -
  obtain r' w' where i: "wfd_doInitialization demo_E no_groups stk_world = Inr (True, r', w')" using stk_initialized by blast
  have M: "map_ok (WFD_Membership no_groups)" by simp
  have "AllAgents w' = AllAgents stk_world"
    using wfd_doInitialization_True(3) [OF stk_world_fresh stk_world_simps(1) M stk_world_simps(2,3) i] .
  then have "known w' ''b''" by (simp add: known_def stk_world_simps)
  with i show ?thesis
    using stk_agents_cannot_act [OF stk_world_fresh stk_world_simps(1) M stk_world_simps(2,3) i demo_locations_parse]
    by (auto simp: demo_locs_def)
qed

end
