(* ===== verification/Broker_Start_Props.thy ===== *)
theory Broker_Start_Props
  imports Broker_Start Registration_Props
begin

text \<open>
  The program from its start: a broker that has been constructed and started as \<open>Default\<close> is in
  the state that the invariant of the step system needs, so every run from there keeps it.
\<close>

definition reg_broker :: broker_world where
  "reg_broker = (case new_Broker [] ''127.0.0.1'' ''6745'' of Inr w \<Rightarrow> w | Inl _ \<Rightarrow> undefined)"

lemma reg_broker: "new_Broker [] ''127.0.0.1'' ''6745'' = Inr reg_broker"
  by (simp add: reg_broker_def new_Broker_def new_Connection_def)

lemma reg_broker_simps: "AllAgents reg_broker = []" "history reg_broker = []"
  by (simp_all add: reg_broker_def new_Broker_def new_Connection_def)

lemma demo_start_from:
  assumes new: "new_Broker h host port = Inr w0" and h: "consumed h = 0" "NetClose \<notin> set h"
  shows "\<exists>w'. start reg_E ''Default'' w0 = Inr (True, w')"
proof -
  let ?w = "w0\<lparr>m_global_tick := 0\<rparr>"
  have w0: "AllAgents w0 = []" "history w0 = h" using new by (auto simp: new_Broker_def outcome_simps)
  have "unread reg_stream ?w = frame make_bundle_header demo_header (reg_text ''{q}'') @
     frame make_bundle_header demo_header (reg_text ''{n}'') @ frame make_bundle_header demo_header (reg_text ''{k}'') @ []"
    and "AllAgents ?w = []" and "\<forall>h. net_connect reg_E h" and "\<forall>h. net_write reg_E h"
    by (simp_all add: unread_def w0 h(1) reg_stream_def demo_env_def)
  then obtain w1 where w1: "registration_start reg_E (new_Registration ''Default'') ?w = Inr (True, new_Registration ''Default'', w1)"
      "m_session (conn w1) \<noteq> None" "NetClose \<in> set (history w1) \<longleftrightarrow> NetClose \<in> set (history ?w)"
    using default_dialogue [OF demo_env_laws demo_dialogue(1) _ _ reg_delivers _ reg_all_offers demo_dialogue(3,4), of ?w "[]" "''k''" demo_answer reg_info]
      demo_dialogue(5-7) reg_answer reg_answer_length reg_info by auto
  have up: "net_is_open reg_E = (\<lambda>h. NetClose \<notin> set h)" by (simp add: demo_env_def)
  have "NetClose \<notin> set (history w1)" using w1(3) w0(2) h(2) by simp
  then show ?thesis
    using w1(1,2) by (auto simp: start_def Let_def registration_for_def isOpen_def with_session_def session_isOpen_def up
        async_receive_def async_read_def)
qed

lemma demo_start: "\<exists>w'. start reg_E ''Default'' reg_broker = Inr (True, w')"
  by (rule demo_start_from [OF reg_broker]) simp_all

text \<open>
  C5: the program, from its construction. When a broker for a \<open>Default\<close> application has started,
  every run of its two threads keeps the invariant of \<open>broker_invariant\<close>; everything processed
  arrived before, in that order; every tick was woken by a delivery, the counter counts the
  ticks, and what has been written since is the id_response and two bundles for each tick.
\<close>

theorem started_broker_run:
  assumes "ns3_laws E" and "new_Broker h host port = Inr w0" and "start E ''Default'' w0 = Inr (True, w1)"
    and "broker_run E w1 acts w'"
  shows "broker_ok E w' \<and> processed acts @ messageList (m_incoming w') = arrived acts \<and>
    ticks acts + stops acts \<le> wakes acts \<and> m_global_tick w' = of_nat (ticks acts) \<and>
    length (written (history w')) = length (written h) + 1 + 2 * ticks acts"
proof -
  note s = started [OF assms(1-3)]
  have "broker_ok E w'" using assms(4) by (rule run_ok) (use s in simp)
  then show ?thesis using run_effect [OF assms(4)] s by simp
qed

theorem started_broker_run_witness:
  "\<exists>w1 w'. start reg_E ''Default'' reg_broker = Inr (True, w1) \<and> broker_run reg_E w1 [Spun] w' \<and> broker_ok reg_E w' \<and>
    processed [Spun] @ messageList (m_incoming w') = arrived [Spun] \<and> m_global_tick w' = 0 \<and> length (written (history w')) = 1"
proof -
  obtain w1 where w1: "start reg_E ''Default'' reg_broker = Inr (True, w1)" using demo_start by blast
  have "m_pause w1" using started [OF demo_env_laws reg_broker w1] by blast
  then have "broker_step reg_E w1 Spun w1" by (intro broker_step.spin) (simp add: pause_iteration_def)
  then have run: "broker_run reg_E w1 [Spun] w1" using run_snoc [OF run_nil, of reg_E w1 Spun w1] by simp
  from started_broker_run [OF demo_env_laws reg_broker w1 run] w1 run show ?thesis by auto
qed

end
