(* ===== verification/Profile_Builder.thy ===== *)
theory Profile_Builder
  imports Environment
begin

text \<open>
  \<open>ProfileBuilder\<close> of model/profile_builder.h and .cc, the log of timing lines that the
  baseline writes. An object has a buffer; the log file and the count of the objects are
  static, so the count is an argument and a result of the operations that change it, and
  the file is the environment's. Each critical section of the shared mutex is one atomic
  function. The member \<open>currTime\<close> is never used.

  \<open>profile_step\<close> runs any number of objects; \<open>spec_step\<close> is what they should do: buffers
  that are written out whole, each once, when their object dies.
\<close>

section \<open>Operations\<close>

record ProfileBuilder =
  currLog :: string

definition InitLogFile :: "env \<Rightarrow> string \<Rightarrow> 'z base_world_scheme \<Rightarrow> 'z base_world_scheme outcome" where
  "InitLogFile E path w =
     (let w1 = call (LogOpen path) w in
      if log_fail E (history w1) then throw ''Couldn't open Profile Builder log file.'' else Inr w1)"

text \<open>The count after the update, which is also returned.\<close>

definition RefCountUpdate :: "int \<Rightarrow> int \<Rightarrow> int outcome" where
  "RefCountUpdate amount ref_count = int_add ref_count amount"

definition new_ProfileBuilder :: "int \<Rightarrow> (ProfileBuilder \<times> int) outcome" where
  "new_ProfileBuilder ref_count = ebind (RefCountUpdate 1 ref_count) (\<lambda>n. Inr (\<lparr>currLog = []\<rparr>, n))"

definition flushLogFile ::
  "env \<Rightarrow> ProfileBuilder \<Rightarrow> 'z base_world_scheme \<Rightarrow> (ProfileBuilder \<times> 'z base_world_scheme) outcome" where
  "flushLogFile E pb w =
     (let currLogStr = currLog pb in
      if currLogStr = [] then Inr (pb, w)
      else if \<not> log_ready E (history w) then throw ''ProfileBuilder can't flush log file; log file is not open.''
      else Inr (pb\<lparr>currLog := []\<rparr>, call LogFlush (call (LogWrite currLogStr) w)))"

definition closing_line :: string where
  "closing_line = ''ProfileBuilder RefCount reached zero.'' @ [CHR 0x0A]"

text \<open>Behind the last object the stream may be closed already; what is written to it then is lost.\<close>

definition delete_ProfileBuilder ::
  "env \<Rightarrow> ProfileBuilder \<Rightarrow> int \<Rightarrow> 'z base_world_scheme \<Rightarrow> (int \<times> 'z base_world_scheme) outcome" where
  "delete_ProfileBuilder E pb ref_count w =
     ebind (flushLogFile E pb w) (\<lambda>(_, w1).
     ebind (RefCountUpdate (- 1) ref_count) (\<lambda>numLeft.
     Inr (numLeft, if numLeft = 0
        then call LogClose (call ((if log_ready E (history w1) then LogWrite else LogLost) closing_line) w1) else w1)))"

definition GetCurrentTime :: "env \<Rightarrow> 'z base_world_scheme \<Rightarrow> string \<times> 'z base_world_scheme" where
  "GetCurrentTime E w =
     (let w1 = call ClockGet w in
      case os_clock E (history w1) of
        None \<Rightarrow> (''<error>'', w1)
      | Some (tv_sec, tv_nsec) \<Rightarrow>
          (''(sec,'' @ show_int tv_sec @ ''),'' @ ''(nano,'' @ show_int tv_nsec @ '')'', w1))"

definition quoted :: "string \<Rightarrow> string" where
  "quoted s = [CHR 0x22] @ s @ [CHR 0x22]"

definition logGeneric ::
  "env \<Rightarrow> string \<Rightarrow> int \<Rightarrow> int \<Rightarrow> int \<Rightarrow> ProfileBuilder \<Rightarrow> 'z base_world_scheme \<Rightarrow> ProfileBuilder \<times> 'z base_world_scheme" where
  "logGeneric E itemName currFrame numAgents numCommunications pb w =
     (let (time, w1) = GetCurrentTime E w;
          log1 = currLog pb @ ''{'' @ quoted ''action'' @ '':'' @ quoted itemName @ '','' @
                 quoted ''real-time'' @ '':'' @ quoted time @ '','';
          log2 = (if 0 \<le> currFrame then
                    log1 @ quoted ''tick'' @ '':'' @ quoted (show_int currFrame) @ '','' @
                    quoted ''num-agents'' @ '':'' @ quoted (show_int numAgents) @ '','' @
                    quoted ''num-communications'' @ '':'' @ quoted (show_int numCommunications) @ '',''
                  else log1)
      in (pb\<lparr>currLog := log2 @ ''}'' @ [CHR 0x0A]\<rparr>, w1))"

definition logSiMobilityBegin :: "env \<Rightarrow> ProfileBuilder \<Rightarrow> 'z base_world_scheme \<Rightarrow> ProfileBuilder \<times> 'z base_world_scheme" where
  "logSiMobilityBegin E pb w = logGeneric E ''simmob-loop-begin-main-loop'' (- 1) (- 1) (- 1) pb w"

definition logSiMobilityEnd :: "env \<Rightarrow> ProfileBuilder \<Rightarrow> 'z base_world_scheme \<Rightarrow> ProfileBuilder \<times> 'z base_world_scheme" where
  "logSiMobilityEnd E pb w = logGeneric E ''simmob-loop-end-main-loop'' (- 1) (- 1) (- 1) pb w"

definition logTickBegin ::
  "env \<Rightarrow> int \<Rightarrow> int \<Rightarrow> int \<Rightarrow> ProfileBuilder \<Rightarrow> 'z base_world_scheme \<Rightarrow> ProfileBuilder \<times> 'z base_world_scheme" where
  "logTickBegin E currFrame numAgents numCommunications pb w =
     logGeneric E ''simmob-tick-begin'' currFrame numAgents numCommunications pb w"

definition logTickEnd ::
  "env \<Rightarrow> int \<Rightarrow> int \<Rightarrow> int \<Rightarrow> ProfileBuilder \<Rightarrow> 'z base_world_scheme \<Rightarrow> ProfileBuilder \<times> 'z base_world_scheme" where
  "logTickEnd E currFrame numAgents numCommunications pb w =
     logGeneric E ''simmob-tick-end'' currFrame numAgents numCommunications pb w"

section \<open>A line of the log\<close>

text \<open>The members that a line names; the last three only for a tick that is not negative.\<close>

definition log_fields :: "string \<Rightarrow> string \<Rightarrow> int \<Rightarrow> int \<Rightarrow> int \<Rightarrow> (string \<times> string) list" where
  "log_fields item time tick agents comms =
     [(''action'', item), (''real-time'', time)] @
     (if 0 \<le> tick then [(''tick'', show_int tick), (''num-agents'', show_int agents),
        (''num-communications'', show_int comms)] else [])"

definition log_line :: "(string \<times> string) list \<Rightarrow> string" where
  "log_line fs = ''{'' @ concat (map (\<lambda>(k, v). quoted k @ '':'' @ quoted v @ '','') fs) @ ''}'' @ [CHR 0x0A]"

lemma logGeneric_line:
  "logGeneric E item tick agents comms pb w =
     (pb\<lparr>currLog := currLog pb @ log_line (log_fields item (fst (GetCurrentTime E w)) tick agents comms)\<rparr>, call ClockGet w)"
  by (simp add: logGeneric_def log_fields_def log_line_def GetCurrentTime_def Let_def split: option.splits)

section \<open>The text of the log file\<close>

text \<open>
  What the C++ library documents of the stream: closing closes it, a failed write does not open it,
  and reading the clock, writing and flushing leave it as it is.
\<close>

definition log_laws :: "env \<Rightarrow> bool" where
  "log_laws E \<longleftrightarrow> (\<forall>h. \<not> log_ready E (h @ [LogClose])) \<and> (\<forall>h s. \<not> log_ready E h \<longrightarrow> \<not> log_ready E (h @ [LogLost s])) \<and>
     (\<forall>h. log_ready E (h @ [ClockGet]) = log_ready E h \<and> log_ready E (h @ [LogFlush]) = log_ready E h) \<and>
     (\<forall>h s. log_ready E (h @ [LogWrite s]) = log_ready E h)"

lemma flushLogFile_Inr:
  assumes "flushLogFile E pb w = Inr (pb', w')"
  shows "pb' = pb\<lparr>currLog := []\<rparr>" and "log_text (history w') = log_text (history w) @ currLog pb"
    and "currLog pb = [] \<or> log_ready E (history w)"
    and "log_laws E \<Longrightarrow> log_ready E (history w') = log_ready E (history w)"
proof -
  show "pb' = pb\<lparr>currLog := []\<rparr>" "log_text (history w') = log_text (history w) @ currLog pb"
      "currLog pb = [] \<or> log_ready E (history w)"
    using assms by (auto simp: flushLogFile_def Let_def split: if_splits)
  assume laws: "log_laws E"
  from assms have "w' = w \<or> (\<exists>s. history w' = (history w @ [LogWrite s]) @ [LogFlush])"
    by (auto simp: flushLogFile_def Let_def split: if_splits)
  then show "log_ready E (history w') = log_ready E (history w)"
    using laws unfolding log_laws_def by metis
qed

lemma delete_Inr:
  assumes "delete_ProfileBuilder E pb n w = Inr (n', w')" and "log_laws E"
  shows "n' = n - 1" and "currLog pb = [] \<or> log_ready E (history w)"
    and "log_text (history w') = log_text (history w) @ currLog pb @ (if n = 1 \<and> log_ready E (history w) then closing_line else [])"
    and "log_ready E (history w') \<longleftrightarrow> log_ready E (history w) \<and> n \<noteq> 1"
proof -
  from assms(1) obtain pb' w1 where f: "flushLogFile E pb w = Inr (pb', w1)" and n: "n' = n - 1"
    and w': "w' = (if n = 1 then call LogClose (call ((if log_ready E (history w1) then LogWrite else LogLost) closing_line) w1) else w1)"
    by (auto simp: delete_ProfileBuilder_def outcome_simps RefCountUpdate_def int_add_Inr)
  note facts = flushLogFile_Inr [OF f]
  show "n' = n - 1" "currLog pb = [] \<or> log_ready E (history w)" using n facts(3) by simp_all
  show "log_text (history w') = log_text (history w) @ currLog pb @ (if n = 1 \<and> log_ready E (history w) then closing_line else [])"
    using facts(2) facts(4) [OF assms(2)] by (simp add: w')
  have closed: "\<not> log_ready E (h @ [LogClose])" for h using assms(2) unfolding log_laws_def by blast
  have "\<not> log_ready E (history w')" if "n = 1"
    using closed [of "history w1 @ [(if log_ready E (history w1) then LogWrite else LogLost) closing_line]"] that by (simp add: w')
  then show "log_ready E (history w') \<longleftrightarrow> log_ready E (history w) \<and> n \<noteq> 1"
    using facts(4) [OF assms(2)] by (cases "n = 1") (simp_all add: w')
qed

section \<open>Several objects\<close>

datatype profile_op =
    Construct
  | LogLine nat string int int int
  | Destruct nat

record profile_sys = base_world +
  builders :: "ProfileBuilder option list"   \<comment> \<open>None: destroyed\<close>
  ref_count :: int

definition with_builder :: "nat \<Rightarrow> profile_sys \<Rightarrow> (ProfileBuilder \<Rightarrow> 'a outcome) \<Rightarrow> 'a outcome" where
  "with_builder i s f = (case drop i (builders s) of Some pb # _ \<Rightarrow> f pb | _ \<Rightarrow> Inl Undefined)"

fun profile_step :: "env \<Rightarrow> profile_op \<Rightarrow> profile_sys \<Rightarrow> profile_sys outcome" where
  "profile_step E Construct s =
     ebind (new_ProfileBuilder (ref_count s)) (\<lambda>(pb, n).
     Inr (s\<lparr>builders := builders s @ [Some pb], ref_count := n\<rparr>))"
| "profile_step E (LogLine i item tick agents comms) s =
     with_builder i s (\<lambda>pb.
     let (pb', s1) = logGeneric E item tick agents comms pb s in
     Inr (s1\<lparr>builders := (builders s1)[i := Some pb']\<rparr>))"
| "profile_step E (Destruct i) s =
     with_builder i s (\<lambda>pb.
     ebind (delete_ProfileBuilder E pb (ref_count s) s) (\<lambda>(n, s1).
     Inr (s1\<lparr>builders := (builders s1)[i := None], ref_count := n\<rparr>)))"

text \<open>
  The specification: buffers of text, the text of the file, and whether the file is open. A buffer
  with text can only be closed while the file is open, and the last one closes it.
\<close>

datatype log_act = Opened | Logged nat string | Closed nat

definition live :: "'a option list \<Rightarrow> nat" where
  "live bs = length (filter (\<lambda>b. b \<noteq> None) bs)"

fun spec_step :: "string option list \<times> string \<times> bool \<Rightarrow> log_act \<Rightarrow> (string option list \<times> string \<times> bool) option" where
  "spec_step (bs, out, up) Opened = Some (bs @ [Some []], out, up)"
| "spec_step (bs, out, up) (Logged i l) =
     (case drop i bs of Some b # _ \<Rightarrow> Some (bs[i := Some (b @ l)], out, up) | _ \<Rightarrow> None)"
| "spec_step (bs, out, up) (Closed i) =
     (case drop i bs of
        Some b # _ \<Rightarrow>
          (let rest = bs[i := None]; last_one = live rest = 0 in
           if b \<noteq> [] \<and> \<not> up then None
           else Some (rest, out @ b @ (if last_one \<and> up then closing_line else []), up \<and> \<not> last_one))
      | _ \<Rightarrow> None)"

text \<open>The action that an operation performs: which line it logs depends on the clock.\<close>

fun performs :: "profile_op \<Rightarrow> log_act \<Rightarrow> bool" where
  "performs Construct a \<longleftrightarrow> a = Opened"
| "performs (LogLine i item tick agents comms) a \<longleftrightarrow> (\<exists>time. a = Logged i (log_line (log_fields item time tick agents comms)))"
| "performs (Destruct i) a \<longleftrightarrow> a = Closed i"

text \<open>The abstraction of a state.\<close>

definition profile_abs :: "env \<Rightarrow> profile_sys \<Rightarrow> string option list \<times> string \<times> bool" where
  "profile_abs E s = (map (map_option currLog) (builders s), log_text (history s), log_ready E (history s))"

lemma drop_Some: "i < length xs \<Longrightarrow> drop i xs = xs ! i # drop (Suc i) xs"
  by (simp add: Cons_nth_drop_Suc)

lemma with_builder_Inr:
  "with_builder i s f = Inr r \<longleftrightarrow> (\<exists>pb. i < length (builders s) \<and> builders s ! i = Some pb \<and> f pb = Inr r)"
proof (cases "i < length (builders s)")
  case True
  then have "drop i (builders s) = builders s ! i # drop (Suc i) (builders s)" by (simp add: Cons_nth_drop_Suc)
  with True show ?thesis by (cases "builders s ! i") (auto simp: with_builder_def)
qed (simp add: with_builder_def)

lemma live_map [simp]: "live (map (map_option f) bs) = live bs"
  by (induction bs) (simp_all add: live_def)

lemma live_keep: "i < length bs \<Longrightarrow> bs ! i \<noteq> None \<Longrightarrow> live (bs[i := Some b]) = live bs"
  by (induction bs arbitrary: i) (auto simp: live_def nth_Cons split: nat.splits)

lemma live_drop: "i < length bs \<Longrightarrow> bs ! i \<noteq> None \<Longrightarrow> live bs = Suc (live (bs[i := None]))"
  by (induction bs arbitrary: i) (auto simp: live_def nth_Cons split: nat.splits)

lemma profile_step_refines:
  assumes "profile_step E op s = Inr s'" and "ref_count s = int (live (builders s))" and laws: "log_laws E"
  shows "\<exists>a. performs op a \<and> spec_step (profile_abs E s) a = Some (profile_abs E s') \<and> ref_count s' = int (live (builders s'))"
proof (cases op)
  case Construct
  with assms(1,2) show ?thesis
    by (auto simp: outcome_simps new_ProfileBuilder_def RefCountUpdate_def int_add_Inr profile_abs_def live_def)
next
  case (LogLine i item tick agents comms)
  with assms(1) obtain pb where pb: "i < length (builders s)" "builders s ! i = Some pb"
    and s': "s' = (call ClockGet s)\<lparr>builders := (builders s)[i := Some (pb\<lparr>currLog := currLog pb @
      log_line (log_fields item (fst (GetCurrentTime E s)) tick agents comms)\<rparr>)]\<rparr>"
    by (auto simp: with_builder_Inr logGeneric_line call_def)
  let ?l = "log_line (log_fields item (fst (GetCurrentTime E s)) tick agents comms)"
  have "drop i (map (map_option currLog) (builders s)) = Some (currLog pb) # drop (Suc i) (map (map_option currLog) (builders s))"
    using pb by (subst drop_Some) simp_all
  moreover have "log_ready E (history s @ [ClockGet]) = log_ready E (history s)" using laws unfolding log_laws_def by blast
  ultimately have "spec_step (profile_abs E s) (Logged i ?l) = Some (profile_abs E s')"
    by (simp add: profile_abs_def s' map_update)
  moreover have "ref_count s' = int (live (builders s'))"
    using assms(2) pb live_keep [of i "builders s"] by (simp add: s' call_def)
  ultimately show ?thesis using LogLine by auto
next
  case (Destruct i)
  with assms(1) obtain pb n s1 where pb: "i < length (builders s)" "builders s ! i = Some pb"
    and d: "delete_ProfileBuilder E pb (ref_count s) s = Inr (n, s1)"
    and s': "s' = s1\<lparr>builders := (builders s1)[i := None], ref_count := n\<rparr>"
    by (auto simp: with_builder_Inr outcome_simps)
  have b1: "builders s1 = builders s"
    using d by (auto simp: delete_ProfileBuilder_def flushLogFile_def Let_def outcome_simps call_def split: if_splits)
  have live: "live (builders s) = Suc (live ((builders s)[i := None]))" using pb by (intro live_drop) auto
  have drop: "drop i (map (map_option currLog) (builders s)) = Some (currLog pb) # drop (Suc i) (map (map_option currLog) (builders s))"
    using pb by (subst drop_Some) simp_all
  have rest: "(map (map_option currLog) (builders s))[i := None] = map (map_option currLog) ((builders s)[i := None])"
    by (simp add: map_update)
  have one: "ref_count s = 1 \<longleftrightarrow> live ((builders s)[i := None]) = 0" using assms(2) live by simp
  have "spec_step (profile_abs E s) (Closed i) = Some (profile_abs E s')"
    using delete_Inr(2-4) [OF d laws] by (auto simp: profile_abs_def drop rest s' b1 one Let_def)
  moreover have "ref_count s' = int (live (builders s'))"
    using delete_Inr(1) [OF d laws] assms(2) live by (simp add: s' b1)
  ultimately show ?thesis using Destruct by auto
qed

lemma profile_run_refines:
  assumes "fold_outcome (profile_step E) ops s = Inr s'" and "ref_count s = int (live (builders s))" and laws: "log_laws E"
  shows "\<exists>acts. list_all2 performs ops acts \<and> machine_run spec_step (profile_abs E s) acts = Some (profile_abs E s') \<and>
    ref_count s' = int (live (builders s'))"
  using assms(1,2)
proof (induction ops arbitrary: s)
  case (Cons op ops)
  then obtain t where t: "profile_step E op s = Inr t" "fold_outcome (profile_step E) ops t = Inr s'"
    by (auto simp: outcome_simps)
  obtain a where a: "performs op a" "spec_step (profile_abs E s) a = Some (profile_abs E t)" "ref_count t = int (live (builders t))"
    using profile_step_refines [OF t(1) Cons.prems(2) laws] by blast
  obtain acts where "list_all2 performs ops acts" "machine_run spec_step (profile_abs E t) acts = Some (profile_abs E s')"
      "ref_count s' = int (live (builders s'))"
    using Cons.IH [OF t(2) a(3)] by blast
  with a show ?case by (intro exI [of _ "a # acts"]) simp
qed simp

section \<open>Properties\<close>

text \<open>
  C27: whatever sequence of constructions, log lines and destructions runs on any number of
  objects without failing, the text of the log file grows by the buffers of the destroyed objects,
  each whole and once, in the order of their destruction, and by the closing line behind the buffer
  of the last live object, if the file is open; then the file is closed, so an object made after
  that can only be destroyed with an empty buffer, and no second closing line is written. The
  count is the number of live objects.
\<close>

theorem profile_log_refines:
  assumes "log_laws E" and "fold_outcome (profile_step E) ops s = Inr s'" and "ref_count s = int (live (builders s))"
  shows "\<exists>acts. list_all2 performs ops acts \<and> machine_run spec_step (profile_abs E s) acts = Some (profile_abs E s') \<and>
    ref_count s' = int (live (builders s'))"
  using assms(2,3,1) by (rule profile_run_refines)

definition demo_profile :: profile_sys where
  "demo_profile = \<lparr>history = [LogOpen ''log''], builders = [], ref_count = 0\<rparr>"

text \<open>Two objects, and one more after the last of them has closed the file.\<close>

definition demo_profile_ops :: "profile_op list" where
  "demo_profile_ops = [Construct, Construct, LogLine 1 ''x'' 7 2 0, Destruct 0, Destruct 1, Construct, Destruct 2]"

abbreviation profile_E :: env where
  "profile_E \<equiv> demo_env demo_lib (\<lambda>_. None) (\<lambda>_. True)"

theorem profile_log_refines_witness:
  "\<exists>s' acts l. fold_outcome (profile_step profile_E) demo_profile_ops demo_profile = Inr s' \<and> list_all2 performs demo_profile_ops acts \<and>
    machine_run spec_step ([], [], True) acts = Some ([None, None, None], l @ closing_line, False) \<and>
    log_text (history s') = l @ closing_line \<and> ref_count s' = 0"
proof -
  have laws: "log_laws profile_E" by (simp add: log_laws_def demo_env_def)
  have "\<exists>s' l. fold_outcome (profile_step profile_E) demo_profile_ops demo_profile = Inr s' \<and> builders s' = [None, None, None] \<and>
      log_text (history s') = l @ closing_line \<and> \<not> log_ready profile_E (history s')"
    by (simp add: demo_profile_ops_def demo_profile_def new_ProfileBuilder_def RefCountUpdate_def int_add_def in_int_def
        with_builder_def logGeneric_line delete_ProfileBuilder_def flushLogFile_def Let_def demo_env_def log_line_def call_def)
  then obtain s' l where s': "fold_outcome (profile_step profile_E) demo_profile_ops demo_profile = Inr s'"
      "builders s' = [None, None, None]" "log_text (history s') = l @ closing_line" "\<not> log_ready profile_E (history s')"
    by blast
  moreover have "ref_count demo_profile = int (live (builders demo_profile))" "profile_abs profile_E demo_profile = ([], [], True)"
    by (simp_all add: demo_profile_def live_def profile_abs_def demo_env_def)
  ultimately show ?thesis using profile_log_refines [OF laws s'(1)] by (auto simp: live_def profile_abs_def)
qed

text \<open>
  A call that logs appends one line to the buffer and reads the clock once. The line
  names the action, the time and, for a tick that is not negative, the tick and two
  counts; it always has a comma before the closing brace, so it is not a JSON object.
\<close>

theorem profile_line:
  "logGeneric E item tick agents comms pb w =
     (pb\<lparr>currLog := currLog pb @ log_line (log_fields item (fst (GetCurrentTime E w)) tick agents comms)\<rparr>, call ClockGet w) \<and>
   (\<exists>l. log_line (log_fields item (fst (GetCurrentTime E w)) tick agents comms) = l @ '',}'' @ [CHR 0x0A])"
  by (simp add: logGeneric_line log_line_def log_fields_def)

end
