(* ===== verification/RR_Trace.thy ===== *)
theory RR_Trace
  imports Broker Profile_Builder
begin

text \<open>
  \<open>RoadRunnerBaseLine\<close> of model/testing/rr_baseline.h and .cc, a broker that replays a trace
  file instead of talking to Sim Mobility: its state and the reading of the trace.
  \<open>boost::split\<close> and \<open>boost::lexical_cast\<close> are parameters; \<open>boost_doc\<close> is what their
  documentation promises of the lines that a well-formed trace has. A \<open>const_iterator\<close> into
  the table of ticks is a position in it (its size is the end), None before it is set; the
  table does not change after that.
\<close>

section \<open>State\<close>

record TickMulticast =
  sendAgId :: string
  receiveAgId :: "string list"
  mcData :: string

record TimeTick =
  add_agent :: "string list"
  update_agent :: "(string, DPoint) smap"
  multicast :: "TickMulticast list"

definition new_TimeTick :: TimeTick where
  "new_TimeTick = \<lparr>add_agent = [], update_agent = [], multicast = []\<rparr>"

datatype messageType = MULTICAST | ADD | UPDATE

text \<open>A new element of \<open>MessageMap\<close> is the first enumerator.\<close>

instantiation messageType :: default
begin
definition default_messageType :: messageType where
  "default_messageType = MULTICAST"
instance ..
end

record rr_world = broker_world +
  trace_time_ticks :: "(uint, TimeTick) smap"
  agent_limit :: "string list"
  prevTick :: "nat option"
  currTick :: "nat option"
  start_time :: "int option"
  end_time :: "int option"
  protocol :: string
  RRNC :: "node list"
  MessageMap :: "(string, messageType) smap"
  interval :: uint
  disable_communication :: bool
  disable_location_update :: bool
  maxNOFAgents :: uint
  agentsList :: "string list"
  profiler :: ProfileBuilder
  profilers :: int   \<comment> \<open>\<open>ProfileBuilder::ref_count\<close>\<close>

definition new_RoadRunnerBaseLine ::
  "env \<Rightarrow> history \<Rightarrow> string \<Rightarrow> uint \<Rightarrow> string \<Rightarrow> bool \<Rightarrow> bool \<Rightarrow> rr_world outcome" where
  "new_RoadRunnerBaseLine E h prot nof_agents outputFile no_comm no_loc =
     ebind (new_Broker h ''127.0.0.1'' ''6745'') (\<lambda>b.
     ebind (InitLogFile E outputFile b) (\<lambda>b1.
     ebind (new_ProfileBuilder 0) (\<lambda>(pb, n).
     Inr (broker_world.extend b1
       \<lparr>trace_time_ticks = [], agent_limit = [], prevTick = None, currTick = None, start_time = None, end_time = None,
        protocol = prot, RRNC = [],
        MessageMap = map_put ''update_agent'' UPDATE (map_put ''add_agent'' ADD (map_put ''multicast'' MULTICAST [])),
        interval = 0, disable_communication = no_comm, disable_location_update = no_loc,
        maxNOFAgents = nof_agents, agentsList = [], profiler = pb, profilers = n\<rparr>))))"

section \<open>Reading a line\<close>

record boostlib =
  bl_split :: "string \<Rightarrow> char \<Rightarrow> string list"
  bl_uint :: "string \<Rightarrow> uint option"      \<comment> \<open>None: \<open>bad_lexical_cast\<close> is thrown\<close>
  bl_double :: "string \<Rightarrow> double option"

definition lexical_cast :: "'a option \<Rightarrow> 'a outcome" where
  "lexical_cast r = (case r of None \<Rightarrow> Inl BadLexicalCast | Some x \<Rightarrow> Inr x)"

text \<open>\<open>trace_time_ticks[t]\<close> updated in place; it is created if it is not there.\<close>

definition change_tick :: "uint \<Rightarrow> (TimeTick \<Rightarrow> TimeTick) \<Rightarrow> rr_world \<Rightarrow> rr_world" where
  "change_tick t f w = w\<lparr>trace_time_ticks :=
     map_put t (f (case map_of (trace_time_ticks w) t of None \<Rightarrow> new_TimeTick | Some tt \<Rightarrow> tt)) (trace_time_ticks w)\<rparr>"

definition add_line :: "uint \<Rightarrow> string \<Rightarrow> rr_world \<Rightarrow> rr_world" where
  "add_line currTime agId w =
     (let w1 = (if length (agent_limit w) < unat (maxNOFAgents w)
                then w\<lparr>agent_limit := set_insert agId (agent_limit w)\<rparr> else w) in
      if agId \<notin> set (agent_limit w1) then w1 else
      let w2 = change_tick currTime (\<lambda>tt. tt\<lparr>add_agent := add_agent tt @ [agId]\<rparr>) w1 in
      w2\<lparr>agentsList := set_insert agId (agentsList w2)\<rparr>)"

text \<open>The part of a token behind its colon: \<open>s.substr(s.find(":")+1, s.size()-1)\<close>.\<close>

definition after_colon :: "string \<Rightarrow> string outcome" where
  "after_colon s = substr s (str_find s '':'' + 1) (str_size s - 1)"

definition update_line :: "boostlib \<Rightarrow> string list \<Rightarrow> uint \<Rightarrow> string \<Rightarrow> rr_world \<Rightarrow> rr_world outcome" where
  "update_line B tokens currTime agId w =
     (if disable_location_update w then Inr w
      else if agId \<notin> set (agent_limit w) then Inr w else
      ebind (ebind (vec_index tokens 3) after_colon) (\<lambda>xStr.
      ebind (ebind (vec_index tokens 4) after_colon) (\<lambda>yStr.
      ebind (lexical_cast (bl_double B xStr)) (\<lambda>xPos.
      ebind (lexical_cast (bl_double B yStr)) (\<lambda>yPos.
      Inr (change_tick currTime (\<lambda>tt. tt\<lparr>update_agent := map_put agId \<lparr>dp_x = xPos, dp_y = yPos\<rparr> (update_agent tt)\<rparr>) w))))))"

definition multicast_line :: "boostlib \<Rightarrow> string list \<Rightarrow> uint \<Rightarrow> string \<Rightarrow> rr_world \<Rightarrow> rr_world outcome" where
  "multicast_line B tokens currTime agId w =
     (if disable_communication w then Inr w
      else if agId \<notin> set (agent_limit w) then Inr w else
      ebind (ebind (vec_index tokens 3) after_colon) (\<lambda>recipientsStr.
      let tempVec = bl_split B recipientsStr (CHR '','') in
      ebind (vec_index tokens 4) (\<lambda>data.
      Inr (change_tick currTime (\<lambda>tt. tt\<lparr>multicast := multicast tt @
        [\<lparr>sendAgId = agId, receiveAgId = filter (\<lambda>r. r \<noteq> []) tempVec, mcData = data\<rparr>]\<rparr>) w))))"

text \<open>
  \<open>MessageMap[s]\<close> inserts an unknown type as \<open>MULTICAST\<close>, and the enumeration has no other
  value, so the default branch of the switch, which throws, is never taken.
\<close>

definition parseLine :: "boostlib \<Rightarrow> string \<Rightarrow> rr_world \<Rightarrow> rr_world outcome" where
  "parseLine B line w =
     (let tokens = bl_split B line (CHR '';'') in
      if length tokens = 1 then
        ebind (lexical_cast (bl_uint B (tokens ! 0))) (\<lambda>nextTime.
        Inr (w\<lparr>trace_time_ticks := map_put nextTime new_TimeTick (trace_time_ticks w)\<rparr>))
      else
        ebind (vec_index tokens 0) (\<lambda>messageTypeStr.
        ebind (vec_index tokens 1) (\<lambda>t1.
        ebind (substr t1 5 ((str_size t1 - 5) - (str_size t1 - str_find t1 ''ms''))) (\<lambda>timeStr.
        ebind (lexical_cast (bl_uint B timeStr)) (\<lambda>currTime.
        ebind (vec_index tokens 2) (\<lambda>t2.
        ebind (substr t2 (str_find t2 '':'' + 1) (str_size t2 - str_find t2 '':'')) (\<lambda>agId.
        let (ty, mm) = map_index messageTypeStr (MessageMap w); w1 = w\<lparr>MessageMap := mm\<rparr> in
        case ty of
          ADD \<Rightarrow> Inr (add_line currTime agId w1)
        | UPDATE \<Rightarrow> update_line B tokens currTime agId w1
        | MULTICAST \<Rightarrow> multicast_line B tokens currTime agId w1)))))))"

definition parse :: "env \<Rightarrow> boostlib \<Rightarrow> string \<Rightarrow> rr_world \<Rightarrow> rr_world outcome" where
  "parse E B fileName w =
     (let w1 = call (TraceOpen fileName) (call (Sleep 2) (w\<lparr>trace_time_ticks := []\<rparr>)) in
      case os_trace E (history w1) of
        None \<Rightarrow> throw ''Input file not found.''
      | Some lines \<Rightarrow> fold_outcome (parseLine B) lines w1)"

section \<open>What every trace leaves\<close>

definition tick_ok :: "rr_world \<Rightarrow> TimeTick \<Rightarrow> bool" where
  "tick_ok w tt \<longleftrightarrow> map_ok (update_agent tt) \<and> set (add_agent tt) \<subseteq> set (agent_limit w) \<and>
     fst ` set (update_agent tt) \<subseteq> set (agent_limit w) \<and>
     (\<forall>mc \<in> set (multicast tt). sendAgId mc \<in> set (agent_limit w) \<and> [] \<notin> set (receiveAgId mc)) \<and>
     (disable_location_update w \<longrightarrow> update_agent tt = []) \<and> (disable_communication w \<longrightarrow> multicast tt = [])"

definition trace_ok :: "rr_world \<Rightarrow> bool" where
  "trace_ok w \<longleftrightarrow> map_ok (trace_time_ticks w) \<and> sorted_wrt (<) (agent_limit w) \<and> agentsList w = agent_limit w \<and>
     length (agent_limit w) \<le> unat (maxNOFAgents w) \<and> (\<forall>tt \<in> snd ` set (trace_time_ticks w). tick_ok w tt)"

lemma map_put_values: "snd ` set (map_put k v m) \<subseteq> insert v (snd ` set m)"
  by (induction k v m rule: map_put.induct) auto

lemma change_tick_ok:
  assumes "trace_ok w" and "\<And>tt. tick_ok w tt \<Longrightarrow> tick_ok w (f tt)"
  shows "trace_ok (change_tick t f w)"
proof -
  let ?tt = "case map_of (trace_time_ticks w) t of None \<Rightarrow> new_TimeTick | Some tt \<Rightarrow> tt"
  have "tick_ok w new_TimeTick" by (simp add: tick_ok_def new_TimeTick_def)
  then have "tick_ok w ?tt"
    using assms(1) by (force simp: trace_ok_def dest: map_of_SomeD split: option.split)
  then have new: "tick_ok w (f ?tt)" by (rule assms(2))
  have same: "tick_ok (change_tick t f w) = tick_ok w" by (simp add: change_tick_def tick_ok_def fun_eq_iff)
  define old where "old = snd ` set (trace_time_ticks w)"
  define now where "now = snd ` set (trace_time_ticks (change_tick t f w))"
  have "now \<subseteq> insert (f ?tt) old"
    unfolding now_def old_def change_tick_def by (simp add: map_put_values)
  moreover have "\<forall>tt \<in> old. tick_ok w tt" using assms(1) unfolding trace_ok_def old_def by (elim conjE)
  ultimately have "\<forall>tt \<in> now. tick_ok (change_tick t f w) tt" unfolding same using new by blast
  moreover have "map_ok (trace_time_ticks (change_tick t f w))"
    using assms(1) by (simp add: trace_ok_def change_tick_def)
  ultimately show ?thesis using assms(1) unfolding trace_ok_def now_def by (simp add: change_tick_def)
qed

lemma set_insert_present:
  assumes "sorted_wrt (<) xs" and "x \<in> set xs"
  shows "set_insert x xs = xs"
  using assms set_insert_sorted [OF assms(1), of x] set_insert_set [of x xs]
  by (intro strict_sorted_equal) auto

lemma length_set_insert: "length (set_insert x xs) \<le> Suc (length xs)"
proof -
  have "length (map_put k v m) \<le> Suc (length m)" for k :: "'a::linorder" and v :: unit and m
    by (induction k v m rule: map_put.induct) auto
  from this [of x "()" "map (\<lambda>y. (y, ())) xs"] show ?thesis by simp
qed

text \<open>An announced agent is taken in while there is room, and not afterwards.\<close>

definition admitted :: "uint \<Rightarrow> string list \<Rightarrow> string \<Rightarrow> string list" where
  "admitted n ids a = (if length ids < unat n then set_insert a ids else ids)"

lemma add_line_eq:
  assumes "trace_ok w"
  shows "add_line t a w =
    (let w1 = w\<lparr>agent_limit := admitted (maxNOFAgents w) (agent_limit w) a,
                agentsList := admitted (maxNOFAgents w) (agent_limit w) a\<rparr> in
     if a \<in> set (admitted (maxNOFAgents w) (agent_limit w) a)
     then change_tick t (\<lambda>tt. tt\<lparr>add_agent := add_agent tt @ [a]\<rparr>) w1 else w1)"
proof -
  have "sorted_wrt (<) (agent_limit w)" "agentsList w = agent_limit w" using assms by (simp_all add: trace_ok_def)
  then show ?thesis
    using set_insert_present [of "agent_limit w" a] set_insert_set [of a "agent_limit w"]
    by (auto simp: add_line_def admitted_def change_tick_def Let_def)
qed

lemma admitted_ok:
  assumes "trace_ok w"
  shows "trace_ok (w\<lparr>agent_limit := admitted (maxNOFAgents w) (agent_limit w) a,
                agentsList := admitted (maxNOFAgents w) (agent_limit w) a\<rparr>)"
proof -
  let ?w = "w\<lparr>agent_limit := admitted (maxNOFAgents w) (agent_limit w) a,
                agentsList := admitted (maxNOFAgents w) (agent_limit w) a\<rparr>"
  have more: "set (agent_limit w) \<subseteq> set (admitted (maxNOFAgents w) (agent_limit w) a)"
    using set_insert_set [of a "agent_limit w"] by (auto simp: admitted_def)
  then have "tick_ok ?w tt" if "tick_ok w tt" for tt
    using that by (auto simp: tick_ok_def)
  moreover have "sorted_wrt (<) (admitted (maxNOFAgents w) (agent_limit w) a)"
    using assms set_insert_sorted [of "agent_limit w" a] by (simp add: trace_ok_def admitted_def)
  moreover have "length (admitted (maxNOFAgents w) (agent_limit w) a) \<le> unat (maxNOFAgents w)"
    using assms length_set_insert [of a "agent_limit w"] by (simp add: trace_ok_def admitted_def)
  ultimately show ?thesis using assms unfolding trace_ok_def by simp
qed

end
