(* ===== verification/RR_Trace_Props.thy ===== *)
theory RR_Trace_Props
  imports RR_Trace
begin

text \<open>
  What the reading of a trace guarantees: for any file, an invariant of the table it builds;
  for the lines that a recorder of traces writes, that each is read for what it says.
\<close>

section \<open>Any trace\<close>

text \<open>Reading changes only what the reader owns.\<close>

definition trace_only :: "rr_world \<Rightarrow> rr_world \<Rightarrow> bool" where
  "trace_only w w' \<longleftrightarrow> w' = w\<lparr>trace_time_ticks := trace_time_ticks w', agent_limit := agent_limit w',
     MessageMap := MessageMap w', agentsList := agentsList w'\<rparr>"

lemma trace_only_refl [simp]: "trace_only w w"
  by (simp add: trace_only_def)

lemma trace_only_trans [trans]: "trace_only u v \<Longrightarrow> trace_only v w \<Longrightarrow> trace_only u w"
  unfolding trace_only_def by (cases u; cases v; cases w; simp)

lemma trace_only_same:
  assumes "trace_only w w'"
  shows "maxNOFAgents w' = maxNOFAgents w" and "history w' = history w" and "heap w' = heap w"
    and "AllAgents w' = AllAgents w" and "m_incoming w' = m_incoming w" and "handleLookup w' = handleLookup w"
    and "protocol w' = protocol w" and "RRNC w' = RRNC w" and "profiler w' = profiler w" and "interval w' = interval w"
    and "disable_communication w' = disable_communication w"
  using assms by (cases w; cases w'; simp add: trace_only_def)+

lemma trace_only_updates [simp]:
  "trace_only w (w\<lparr>trace_time_ticks := a\<rparr>)" "trace_only w (w\<lparr>agent_limit := b\<rparr>)"
  "trace_only w (w\<lparr>MessageMap := c\<rparr>)" "trace_only w (w\<lparr>agentsList := b\<rparr>)" "trace_only w (change_tick t f w)"
  by (simp_all add: trace_only_def change_tick_def)

lemma trace_only_add: "trace_only w (add_line t a w)"
  by (simp add: trace_only_def add_line_def change_tick_def Let_def)

lemma trace_ok_message_map [simp]: "trace_ok (w\<lparr>MessageMap := m\<rparr>) = trace_ok w"
proof -
  have "tick_ok (w\<lparr>MessageMap := m\<rparr>) = tick_ok w" by (simp add: tick_ok_def fun_eq_iff)
  then show ?thesis by (simp add: trace_ok_def)
qed

lemma add_line_ok: "trace_ok w \<Longrightarrow> trace_ok (add_line t a w)"
  unfolding add_line_eq Let_def
  by (auto intro!: change_tick_ok admitted_ok simp: tick_ok_def)

lemma update_line_ok:
  assumes "trace_ok w" and "update_line B tokens t a w = Inr w'"
  shows "trace_ok w'" and "trace_only w w'"
proof -
  have "trace_ok (change_tick t (\<lambda>tt. tt\<lparr>update_agent := map_put a p (update_agent tt)\<rparr>) w)"
    if "\<not> disable_location_update w" "a \<in> set (agent_limit w)" for p
    using assms(1) that by (intro change_tick_ok) (auto simp: tick_ok_def fst_map_put)
  with assms show "trace_ok w'" by (auto simp: update_line_def outcome_simps split: if_splits)
  from assms show "trace_only w w'" by (auto simp: update_line_def outcome_simps split: if_splits)
qed

lemma multicast_line_ok:
  assumes "trace_ok w" and "multicast_line B tokens t a w = Inr w'"
  shows "trace_ok w'" and "trace_only w w'"
proof -
  have "trace_ok (change_tick t (\<lambda>tt. tt\<lparr>multicast := multicast tt @
      [\<lparr>sendAgId = a, receiveAgId = filter (\<lambda>r. r \<noteq> []) rs, mcData = d\<rparr>]\<rparr>) w)"
    if "\<not> disable_communication w" "a \<in> set (agent_limit w)" for rs d
    using assms(1) that by (intro change_tick_ok) (auto simp: tick_ok_def)
  with assms show "trace_ok w'" by (auto simp: multicast_line_def outcome_simps split: if_splits)
  from assms show "trace_only w w'" by (auto simp: multicast_line_def outcome_simps split: if_splits)
qed

lemma new_tick_ok: "trace_ok w \<Longrightarrow> trace_ok (w\<lparr>trace_time_ticks := map_put t new_TimeTick (trace_time_ticks w)\<rparr>)"
  using change_tick_ok [of w "\<lambda>_. new_TimeTick" t]
  by (simp add: change_tick_def tick_ok_def new_TimeTick_def)

lemma parseLine_cases:
  assumes "parseLine B line w = Inr w'"
  obtains (tick) t where "w' = w\<lparr>trace_time_ticks := map_put t new_TimeTick (trace_time_ticks w)\<rparr>"
    | (data) tokens ty t a ty' mm where "map_index ty (MessageMap w) = (ty', mm)"
      "(case ty' of ADD \<Rightarrow> Inr (add_line t a (w\<lparr>MessageMap := mm\<rparr>))
        | UPDATE \<Rightarrow> update_line B tokens t a (w\<lparr>MessageMap := mm\<rparr>)
        | MULTICAST \<Rightarrow> multicast_line B tokens t a (w\<lparr>MessageMap := mm\<rparr>)) = Inr w'"
proof (cases "length (bl_split B line (CHR '';'')) = 1")
  case True
  with assms tick show thesis by (auto simp: parseLine_def Let_def outcome_simps)
next
  case False
  with assms obtain ty t a where "(let (ty', mm) = map_index ty (MessageMap w); w1 = w\<lparr>MessageMap := mm\<rparr> in
      case ty' of ADD \<Rightarrow> Inr (add_line t a w1) | UPDATE \<Rightarrow> update_line B (bl_split B line (CHR '';'')) t a w1
        | MULTICAST \<Rightarrow> multicast_line B (bl_split B line (CHR '';'')) t a w1) = Inr w'"
    unfolding parseLine_def by (simp only: Let_def if_False outcome_simps) blast
  with data [of ty] show thesis by (cases "map_index ty (MessageMap w)") (simp add: Let_def)
qed

lemma parseLine_ok:
  assumes ok: "trace_ok w" and "parseLine B line w = Inr w'"
  shows "trace_ok w' \<and> trace_only w w'"
  using assms(2)
proof (cases rule: parseLine_cases)
  case (tick t)
  then show ?thesis using new_tick_ok [OF ok] by simp
next
  case (data tokens ty t a ty' mm)
  let ?w = "w\<lparr>MessageMap := mm\<rparr>"
  have "trace_only w ?w" and "trace_ok ?w" using ok by simp_all
  moreover have "trace_ok w' \<and> trace_only ?w w'"
    using data(2) add_line_ok [OF \<open>trace_ok ?w\<close>] trace_only_add [of ?w]
      update_line_ok [OF \<open>trace_ok ?w\<close>] multicast_line_ok [OF \<open>trace_ok ?w\<close>]
    by (cases ty') auto
  ultimately show ?thesis by (blast intro: trace_only_trans)
qed

lemma parse_lines_ok:
  assumes "fold_outcome (parseLine B) lines w = Inr w'" and "trace_ok w"
  shows "trace_ok w' \<and> trace_only w w'"
  using assms(1)
proof (rule fold_outcome_invariant [where P = "\<lambda>v. trace_ok v \<and> trace_only w v"])
  fix l u v
  assume "parseLine B l u = Inr v" and "trace_ok u \<and> trace_only w u"
  then show "trace_ok v \<and> trace_only w v" using parseLine_ok trace_only_trans by blast
qed (use assms(2) in simp)

lemma parse_Inr:
  assumes "parse E B f w = Inr w'" and "agent_limit w = []" and "agentsList w = []"
  obtains "trace_ok w'" and "trace_only (w\<lparr>history := history w @ [Sleep 2, TraceOpen f]\<rparr>) w'"
proof -
  let ?w1 = "w\<lparr>trace_time_ticks := [], history := history w @ [Sleep 2, TraceOpen f]\<rparr>"
  from assms(1) obtain lines where p: "fold_outcome (parseLine B) lines ?w1 = Inr w'"
    by (auto simp: parse_def call_def Let_def split: option.splits)
  have "trace_ok ?w1" using assms(2,3) by (simp add: trace_ok_def)
  from parse_lines_ok [OF p this] have ok: "trace_ok w'" and "trace_only ?w1 w'" by simp_all
  moreover have "trace_only (w\<lparr>history := history w @ [Sleep 2, TraceOpen f]\<rparr>) ?w1"
    by (simp add: trace_only_def)
  ultimately show thesis using that trace_only_trans by blast
qed

section \<open>Well-formed lines\<close>

text \<open>What a recorder of traces writes: a tick, an agent, a location, a message.\<close>

datatype trace_line =
    TickLine nat
  | AddLine nat string
  | UpdateLine nat string string string
  | MulticastLine nat string "string list" string

definition time_token :: "nat \<Rightarrow> string" where
  "time_token t = ''time:'' @ show_dec t @ ''ms''"

fun line_tokens :: "trace_line \<Rightarrow> string list" where
  "line_tokens (TickLine t) = [show_dec t]"
| "line_tokens (AddLine t a) = [''add_agent'', time_token t, ''agent_id:'' @ a]"
| "line_tokens (UpdateLine t a x y) = [''update_agent'', time_token t, ''agent_id:'' @ a, ''x:'' @ x, ''y:'' @ y]"
| "line_tokens (MulticastLine t a rs d) =
     [''multicast'', time_token t, ''sending_agent:'' @ a, ''recipients:'' @ sep_by '','' rs, d]"

definition trace_text :: "trace_line \<Rightarrow> string" where
  "trace_text l = sep_by '';'' (line_tokens l)"

fun line_time :: "trace_line \<Rightarrow> nat" where
  "line_time (TickLine t) = t"
| "line_time (AddLine t a) = t"
| "line_time (UpdateLine t a x y) = t"
| "line_time (MulticastLine t a rs d) = t"

text \<open>
  The fields have no separators in them, the times fit an \<open>unsigned int\<close>, the coordinates are
  numbers, and no token is longer than a \<open>std::string\<close> can be.
\<close>

fun fields_ok :: "boostlib \<Rightarrow> trace_line \<Rightarrow> bool" where
  "fields_ok B (TickLine t) = True"
| "fields_ok B (AddLine t a) = True"
| "fields_ok B (UpdateLine t a x y) \<longleftrightarrow> bl_double B x \<noteq> None \<and> bl_double B y \<noteq> None"
| "fields_ok B (MulticastLine t a rs d) \<longleftrightarrow> (\<forall>r \<in> set rs. r \<noteq> [] \<and> CHR '','' \<notin> set r)"

definition line_ok :: "boostlib \<Rightarrow> trace_line \<Rightarrow> bool" where
  "line_ok B l \<longleftrightarrow> line_time l < 2 ^ 32 \<and> fields_ok B l \<and>
     (\<forall>s \<in> set (line_tokens l). CHR '';'' \<notin> set s \<and> length s < 2 ^ 63)"

text \<open>The documented behaviour of boost on such lines: joined tokens are split again, a decimal is read.\<close>

definition boost_doc :: "boostlib \<Rightarrow> bool" where
  "boost_doc B \<longleftrightarrow>
     (\<forall>sep parts. parts \<noteq> [] \<and> (\<forall>p \<in> set parts. sep \<notin> set p) \<longrightarrow> bl_split B (sep_by [sep] parts) sep = parts) \<and>
     (\<forall>n < 2 ^ 32. bl_uint B (show_dec n) = Some (of_nat n))"

text \<open>What a line says.\<close>

fun line_effect :: "boostlib \<Rightarrow> trace_line \<Rightarrow> rr_world \<Rightarrow> rr_world" where
  "line_effect B (TickLine t) w = w\<lparr>trace_time_ticks := map_put (of_nat t) new_TimeTick (trace_time_ticks w)\<rparr>"
| "line_effect B (AddLine t a) w = add_line (of_nat t) a w"
| "line_effect B (UpdateLine t a x y) w =
     (if disable_location_update w \<or> a \<notin> set (agent_limit w) then w
      else change_tick (of_nat t) (\<lambda>tt. tt\<lparr>update_agent :=
        map_put a \<lparr>dp_x = the (bl_double B x), dp_y = the (bl_double B y)\<rparr> (update_agent tt)\<rparr>) w)"
| "line_effect B (MulticastLine t a rs d) w =
     (if disable_communication w \<or> a \<notin> set (agent_limit w) then w
      else change_tick (of_nat t) (\<lambda>tt. tt\<lparr>multicast := multicast tt @
        [\<lparr>sendAgId = a, receiveAgId = rs, mcData = d\<rparr>]\<rparr>) w)"

definition types_known :: "rr_world \<Rightarrow> bool" where
  "types_known w \<longleftrightarrow> map_of (MessageMap w) ''multicast'' = Some MULTICAST \<and>
     map_of (MessageMap w) ''add_agent'' = Some ADD \<and> map_of (MessageMap w) ''update_agent'' = Some UPDATE"

section \<open>Cutting strings\<close>

lemma find_char: "c \<notin> set pre \<Longrightarrow> find_from [c] (pre @ c # post) = Some (length pre)"
  by (induction pre) auto

lemma str_find_char: "c \<notin> set pre \<Longrightarrow> str_find (pre @ c # post) [c] = of_nat (length pre)"
  by (simp add: str_find_def find_char)

lemma unat_size: "n < 2 ^ 63 \<Longrightarrow> unat (of_nat n :: size_t) = n"
  by (simp add: unat_of_nat take_bit_nat_eq_self)

lemma substr_from:
  assumes "length (pre @ c # post) < 2 ^ 63" and "length post \<le> unat n"
  shows "substr (pre @ c # post) (of_nat (length pre) + 1) n = Inr post"
proof -
  have "of_nat (length pre) + 1 = (of_nat (Suc (length pre)) :: size_t)" by simp
  moreover have "unat (of_nat (Suc (length pre)) :: size_t) = Suc (length pre)"
    using assms(1) by (intro unat_size) simp
  ultimately have "unat (of_nat (length pre) + 1 :: size_t) = Suc (length pre)" by presburger
  then show ?thesis using assms(2) by (simp add: substr_def)
qed

lemma after_colon_eq:
  assumes "CHR '':'' \<notin> set pre" and "length (pre @ CHR '':'' # post) < 2 ^ 63"
  shows "after_colon (pre @ CHR '':'' # post) = Inr post"
proof -
  have "str_size (pre @ CHR '':'' # post) - 1 = of_nat (length pre + length post)" by (simp add: str_size_def)
  moreover have "unat (of_nat (length pre + length post) :: size_t) = length pre + length post"
    using assms(2) by (intro unat_size) simp
  ultimately show ?thesis
    unfolding after_colon_def str_find_char [OF assms(1)] by (intro substr_from assms(2)) simp
qed

lemma id_token:
  assumes "CHR '':'' \<notin> set pre" and "length (pre @ CHR '':'' # post) < 2 ^ 63"
  defines "s \<equiv> pre @ CHR '':'' # post"
  shows "substr s (str_find s '':'' + 1) (str_size s - str_find s '':'') = Inr post"
proof -
  have "str_size s - of_nat (length pre) = of_nat (Suc (length post))" by (simp add: str_size_def s_def)
  moreover have "unat (of_nat (Suc (length post)) :: size_t) = Suc (length post)"
    using assms(2) by (intro unat_size) simp
  moreover have "str_find s '':'' = of_nat (length pre)" unfolding s_def using assms(1) by (rule str_find_char)
  ultimately show ?thesis unfolding s_def by (simp only:) (intro substr_from assms(2), simp)
qed

text \<open>Decimal digits are none of the characters that matter.\<close>

lemma set_show_dec: "c \<in> set (show_dec n) \<Longrightarrow> \<exists>d < 10. c = digit d"
proof (induction "10 :: nat" n rule: show_base.induct)
  case (1 n)
  show ?case
  proof (cases "n < 10")
    case True
    with "1.prems" show ?thesis by (subst (asm) show_base.simps) auto
  next
    case False
    with "1.prems" have "c \<in> set (show_dec (n div 10)) \<or> c = digit (n mod 10)"
      by (subst (asm) show_base.simps) auto
    then show ?thesis
      using "1.hyps" False by (auto intro: exI [of _ "n mod 10"])
  qed
qed

lemma digit_plain: "d < 10 \<Longrightarrow> digit d \<noteq> CHR ''m'' \<and> digit d \<noteq> CHR '';''"
  by (auto simp: digit.simps simp flip: of_char_eq_iff [where 'a = nat])

lemma show_dec_plain: "CHR ''m'' \<notin> set (show_dec n)" "CHR '';'' \<notin> set (show_dec n)"
proof -
  have "c \<noteq> CHR ''m'' \<and> c \<noteq> CHR '';''" if c: "c \<in> set (show_dec n)" for c
  proof -
    obtain d where "d < 10" "c = digit d" using set_show_dec [OF c] by blast
    then show ?thesis using digit_plain by simp
  qed
  then show "CHR ''m'' \<notin> set (show_dec n)" "CHR '';'' \<notin> set (show_dec n)" by (metis, metis)
qed

lemma find_ms: "CHR ''m'' \<notin> set ds \<Longrightarrow> find_from ''ms'' (ds @ ''ms'') = Some (length ds)"
proof (induction ds)
  case (Cons d ds)
  then show ?case by auto
qed simp

lemma time_token_eq:
  assumes "length (time_token t) < 2 ^ 63"
  defines "s \<equiv> time_token t"
  shows "substr s 5 ((str_size s - 5) - (str_size s - str_find s ''ms'')) = Inr (show_dec t)"
proof -
  have "find_from ''ms'' s = Some (5 + length (show_dec t))"
    using find_ms [OF show_dec_plain(1), of t] by (simp add: s_def time_token_def)
  then have "(str_size s - 5) - (str_size s - str_find s ''ms'') = of_nat (length (show_dec t))"
    by (simp add: str_find_def)
  moreover have "unat (of_nat (length (show_dec t)) :: size_t) = length (show_dec t)"
    using assms(1) by (intro unat_size) (simp add: time_token_def)
  ultimately show ?thesis by (simp add: substr_def s_def time_token_def)
qed

section \<open>Reading well-formed lines\<close>

lemma parseLine_data:
  assumes B: "boost_doc B" and tokens: "bl_split B line (CHR '';'') = ty # time_token t # (pre @ CHR '':'' # a) # rest"
    and t: "t < 2 ^ 32" "length (time_token t) < 2 ^ 63"
    and pre: "CHR '':'' \<notin> set pre" "length (pre @ CHR '':'' # a) < 2 ^ 63"
    and ty: "map_of (MessageMap w) ty = Some ty'"
  shows "parseLine B line w = (case ty' of
      ADD \<Rightarrow> Inr (add_line (of_nat t) a w)
    | UPDATE \<Rightarrow> update_line B (bl_split B line (CHR '';'')) (of_nat t) a w
    | MULTICAST \<Rightarrow> multicast_line B (bl_split B line (CHR '';'')) (of_nat t) a w)"
proof -
  have "bl_uint B (show_dec t) = Some (of_nat t)" using B t(1) by (simp add: boost_doc_def)
  then show ?thesis
    using time_token_eq [OF t(2)] id_token [OF pre] map_index_present [OF ty]
    by (simp add: parseLine_def tokens vec_index_def Let_def lexical_cast_def split: messageType.split)
qed

lemma split_tokens: "boost_doc B \<Longrightarrow> line_ok B l \<Longrightarrow> bl_split B (trace_text l) (CHR '';'') = line_tokens l"
  by (cases l) (simp_all add: boost_doc_def line_ok_def trace_text_def del: sep_by.simps)

lemma split_recipients:
  assumes "boost_doc B" and "\<forall>r \<in> set rs. r \<noteq> [] \<and> CHR '','' \<notin> set r"
  shows "filter (\<lambda>r. r \<noteq> []) (bl_split B (sep_by '','' rs) (CHR '','')) = rs"
proof (cases "rs = []")
  case True
  have "bl_split B (sep_by '','' [[]]) (CHR '','') = [[]]"
    using assms(1) unfolding boost_doc_def by (metis empty_iff list.set(1) list.simps(3) set_ConsD)
  with True show ?thesis by simp
next
  case False
  then have "bl_split B (sep_by '','' rs) (CHR '','') = rs" using assms by (simp add: boost_doc_def)
  with assms(2) show ?thesis by (simp add: filter_id_conv)
qed

lemma parseLine_text:
  assumes B: "boost_doc B" and l: "line_ok B l" and w: "types_known w"
  shows "parseLine B (trace_text l) w = Inr (line_effect B l w)"
proof -
  note split = split_tokens [OF B l]
  have t: "line_time l < 2 ^ 32" and f: "fields_ok B l" and toks: "\<forall>s \<in> set (line_tokens l). length s < 2 ^ 63"
    using l by (auto simp: line_ok_def)
  show ?thesis
  proof (cases l)
    case (TickLine t)
    have "bl_uint B (show_dec t) = Some (of_nat t)" using B l TickLine by (simp add: boost_doc_def line_ok_def)
    with TickLine split show ?thesis by (simp add: parseLine_def lexical_cast_def)
  next
    case (AddLine t a)
    have id: "''agent_id:'' @ a = ''agent_id'' @ CHR '':'' # a" by simp
    show ?thesis
      using parseLine_data [OF B, of "trace_text l" "''add_agent''" t "''agent_id''" a "[]" w ADD] split t toks w
      by (simp add: AddLine types_known_def)
  next
    case (UpdateLine t a x y)
    have "parseLine B (trace_text l) w = update_line B (line_tokens l) (of_nat t) a w"
      using parseLine_data [OF B, of "trace_text l" "''update_agent''" t "''agent_id''" a "[''x:'' @ x, ''y:'' @ y]" w UPDATE]
        split t toks w
      by (simp add: UpdateLine types_known_def)
    moreover have "after_colon (''x:'' @ x) = Inr x" "after_colon (''y:'' @ y) = Inr y"
      using after_colon_eq [of "''x''" x] after_colon_eq [of "''y''" y] toks by (simp_all add: UpdateLine)
    ultimately show ?thesis
      using f by (auto simp: UpdateLine update_line_def vec_index_def lexical_cast_def)
  next
    case (MulticastLine t a rs d)
    have "parseLine B (trace_text l) w = multicast_line B (line_tokens l) (of_nat t) a w"
      using parseLine_data [OF B, of "trace_text l" "''multicast''" t "''sending_agent''" a
          "[''recipients:'' @ sep_by '','' rs, d]" w MULTICAST] split t toks w
      by (simp add: MulticastLine types_known_def)
    moreover have "after_colon (''recipients:'' @ sep_by '','' rs) = Inr (sep_by '','' rs)"
      using after_colon_eq [of "''recipients''" "sep_by '','' rs"] toks by (simp add: MulticastLine)
    moreover have "filter (\<lambda>r. r \<noteq> []) (bl_split B (sep_by '','' rs) (CHR '','')) = rs"
      using B f by (intro split_recipients) (simp_all add: MulticastLine)
    ultimately show ?thesis
      by (simp add: MulticastLine multicast_line_def vec_index_def Let_def)
  qed
qed

lemma line_effect_types [simp]: "MessageMap (line_effect B l w) = MessageMap w"
  by (cases l) (simp_all add: add_line_def change_tick_def Let_def)

lemma line_effect_max [simp]: "maxNOFAgents (line_effect B l w) = maxNOFAgents w"
  by (cases l) (simp_all add: add_line_def change_tick_def Let_def)

lemma parse_texts:
  assumes "boost_doc B" and "\<forall>l \<in> set ls. line_ok B l" and "types_known w"
  shows "fold_outcome (parseLine B) (map trace_text ls) w = Inr (fold (line_effect B) ls w)"
  using assms(2,3)
proof (induction ls arbitrary: w)
  case (Cons l ls)
  then show ?case using parseLine_text [OF assms(1)] by (simp add: types_known_def)
qed simp

section \<open>The agents of a trace\<close>

fun announced :: "trace_line list \<Rightarrow> string list" where
  "announced [] = []"
| "announced (AddLine t a # ls) = a # announced ls"
| "announced (_ # ls) = announced ls"

definition first_seen :: "'a list \<Rightarrow> 'a list" where
  "first_seen xs = rev (remdups (rev xs))"

lemma first_seen_snoc: "first_seen (xs @ [x]) = (if x \<in> set xs then first_seen xs else first_seen xs @ [x])"
  by (simp add: first_seen_def)

lemma agent_limit_effect:
  "agent_limit (line_effect B l w) = fold (\<lambda>a ids. admitted (maxNOFAgents w) ids a) (announced [l]) (agent_limit w)"
  by (cases l) (simp_all add: add_line_def change_tick_def admitted_def Let_def)

lemma announced_Cons: "announced (l # ls) = announced [l] @ announced ls"
  by (cases l) simp_all

lemma agent_limit_fold:
  "agent_limit (fold (line_effect B) ls w) = fold (\<lambda>a ids. admitted (maxNOFAgents w) ids a) (announced ls) (agent_limit w)"
proof (induction ls arbitrary: w)
  case (Cons l ls)
  then show ?case unfolding announced_Cons [of l ls] by (simp add: agent_limit_effect)
qed simp

lemma set_insert_length: "sorted_wrt (<) xs \<Longrightarrow> length (set_insert x xs) = card (insert x (set xs))"
  using set_insert_sorted [of xs x] set_insert_set [of x xs]
  by (metis distinct_card strict_sorted_iff)

lemma admit_all:
  "sorted_wrt (<) (fold (\<lambda>a ids. admitted n ids a) xs []) \<and>
   set (fold (\<lambda>a ids. admitted n ids a) xs []) = set (take (unat n) (first_seen xs))"
proof (induction xs rule: rev_induct)
  case Nil
  then show ?case by (simp add: first_seen_def)
next
  case (snoc x xs)
  let ?ids = "fold (\<lambda>a ids. admitted n ids a) xs []"
  have "distinct (first_seen xs)" by (simp add: first_seen_def)
  then have "card (set (take (unat n) (first_seen xs))) = min (length (first_seen xs)) (unat n)"
    using distinct_card [OF distinct_take] by fastforce
  then have len: "length ?ids = min (length (first_seen xs)) (unat n)"
    using snoc by (metis distinct_card strict_sorted_iff)
  have seen: "set (first_seen xs) = set xs" by (simp add: first_seen_def)
  show ?case
  proof (cases "length ?ids < unat n")
    case True
    then have "take (unat n) (first_seen xs) = first_seen xs" "Suc (length (first_seen xs)) \<le> unat n" using len by auto
    moreover have "fold (\<lambda>a ids. admitted n ids a) (xs @ [x]) [] = set_insert x ?ids" using True by (simp add: admitted_def)
    ultimately show ?thesis
      using snoc seen set_insert_sorted [of ?ids x] set_insert_set [of x ?ids] by (auto simp: first_seen_snoc)
  next
    case False
    then have "take (unat n) (first_seen (xs @ [x])) = take (unat n) (first_seen xs)"
      using len by (simp add: first_seen_snoc)
    with False snoc show ?thesis by (simp add: admitted_def)
  qed
qed

section \<open>An instance\<close>

fun split_on :: "string \<Rightarrow> char \<Rightarrow> string list" where
  "split_on [] sep = [[]]"
| "split_on (c # s) sep =
     (if c = sep then [] # split_on s sep
      else case split_on s sep of [] \<Rightarrow> [[c]] | t # ts \<Rightarrow> (c # t) # ts)"

lemma split_on_none: "sep \<notin> set s \<Longrightarrow> split_on s sep = [s]"
  by (induction s) auto

lemma split_on_sep: "sep \<notin> set s \<Longrightarrow> split_on (s @ sep # t) sep = s # split_on t sep"
  by (induction s) auto

lemma split_on_sep_by: "ps \<noteq> [] \<Longrightarrow> \<forall>p \<in> set ps. sep \<notin> set p \<Longrightarrow> split_on (sep_by [sep] ps) sep = ps"
proof (induction ps)
  case (Cons p ps)
  then show ?case by (cases ps) (simp_all add: split_on_none split_on_sep)
qed simp

definition dec_value :: "string \<Rightarrow> nat" where
  "dec_value s = horner 10 (map (\<lambda>c. byte c - 48) s)"

lemma dec_value_show: "dec_value (show_dec n) = n"
proof (induction "10 :: nat" n rule: show_base.induct)
  case (1 n)
  have digit: "byte (digit d) - 48 = d" if "d < 10" for d using that by (simp add: digit.simps)
  show ?case
  proof (cases "n < 10")
    case True
    then show ?thesis by (subst show_base.simps) (simp add: dec_value_def horner_def digit)
  next
    case False
    then have "dec_value (show_dec n) = 10 * dec_value (show_dec (n div 10)) + n mod 10"
      by (subst show_base.simps) (simp add: dec_value_def horner_snoc digit)
    with "1.hyps" False show ?thesis by simp
  qed
qed

definition demo_boost :: boostlib where
  "demo_boost = \<lparr>bl_split = split_on, bl_uint = (\<lambda>s. Some (of_nat (dec_value s))),
     bl_double = (\<lambda>s. Some (of_nat (dec_value s)))\<rparr>"

lemma demo_boost_doc: "boost_doc demo_boost"
  by (simp add: boost_doc_def demo_boost_def split_on_sep_by dec_value_show)

definition demo_trace :: "trace_line list" where
  "demo_trace =
     [TickLine 0, AddLine 0 ''a'', AddLine 0 ''b'', UpdateLine 0 ''a'' ''1'' ''2'', MulticastLine 0 ''a'' [''b''] ''d'',
      TickLine 100, UpdateLine 100 ''b'' ''3'' ''4'']"

definition trace_env :: "jsonlib \<Rightarrow> trace_line list \<Rightarrow> env" where
  "trace_env J ls = (demo_env J (\<lambda>_. None) (\<lambda>_. True))\<lparr>os_trace := (\<lambda>_. Some (map trace_text ls))\<rparr>"

definition demo_rr_at :: "history \<Rightarrow> rr_world" where
  "demo_rr_at h = (case new_RoadRunnerBaseLine (trace_env demo_lib demo_trace) h ''80211b'' 2 ''out'' False False of
     Inr w \<Rightarrow> w | Inl _ \<Rightarrow> undefined)"

abbreviation demo_rr :: rr_world where
  "demo_rr \<equiv> demo_rr_at []"

lemma demo_rr:
  "new_RoadRunnerBaseLine (trace_env J ls) h ''80211b'' 2 ''out'' False False = Inr (demo_rr_at h)"
  by (simp add: demo_rr_at_def new_RoadRunnerBaseLine_def new_Broker_def new_Connection_def InitLogFile_def
      new_ProfileBuilder_def RefCountUpdate_def int_add_def in_int_def trace_env_def demo_env_def Let_def)

lemma demo_rr_simps:
  "types_known (demo_rr_at h)" "agent_limit (demo_rr_at h) = []" "agentsList (demo_rr_at h) = []" "maxNOFAgents (demo_rr_at h) = 2"
  "history (demo_rr_at h) = h @ [LogOpen ''out'']" "AllAgents (demo_rr_at h) = []" "heap (demo_rr_at h) = []" "protocol (demo_rr_at h) = ''80211b''" "RRNC (demo_rr_at h) = []"
  "disable_communication (demo_rr_at h) = False" "disable_location_update (demo_rr_at h) = False"
  by (simp_all add: demo_rr_at_def new_RoadRunnerBaseLine_def new_Broker_def new_Connection_def InitLogFile_def
      new_ProfileBuilder_def RefCountUpdate_def int_add_def in_int_def trace_env_def demo_env_def Let_def
      types_known_def broker_world.defs call_def)

lemma demo_trace_ok: "\<forall>l \<in> set demo_trace. line_ok demo_boost l"
  by (simp add: demo_trace_def line_ok_def demo_boost_def time_token_def show_dec_plain show_base.simps
      digit_plain [THEN conjunct2, THEN not_sym])

section \<open>Properties\<close>

text \<open>
  C22: a trace file of well-formed lines is read for what it says. Reading it line by line,
  with the cutting of strings in \<open>size_t\<close> arithmetic, has exactly the effect of its ticks,
  agents, locations and messages in order; and the agents that take part are the first
  \<open>maxNOFAgents\<close> different ones that the file announces.
\<close>

theorem trace_read_back:
  assumes "boost_doc B" and "\<forall>l \<in> set ls. line_ok B l" and "types_known w" and "agent_limit w = []"
    and "os_trace E (history w @ [Sleep 2, TraceOpen f]) = Some (map trace_text ls)"
  shows "\<exists>w'. parse E B f w = Inr w' \<and>
    w' = fold (line_effect B) ls (w\<lparr>trace_time_ticks := [], history := history w @ [Sleep 2, TraceOpen f]\<rparr>) \<and>
    set (agent_limit w') = set (take (unat (maxNOFAgents w)) (first_seen (announced ls)))"
proof -
  let ?w1 = "w\<lparr>trace_time_ticks := [], history := history w @ [Sleep 2, TraceOpen f]\<rparr>"
  have "types_known ?w1" using assms(3) by (simp add: types_known_def)
  from parse_texts [OF assms(1,2) this] have "parse E B f w = Inr (fold (line_effect B) ls ?w1)"
    using assms(5) by (simp add: parse_def call_def Let_def)
  then show ?thesis
    using admit_all [of "maxNOFAgents w" "announced ls"] assms(4) by (simp add: agent_limit_fold)
qed

theorem trace_read_back_witness:
  "\<exists>w'. parse (trace_env demo_lib demo_trace) demo_boost ''trace'' demo_rr = Inr w' \<and> set (agent_limit w') = {''a'', ''b''} \<and>
    map fst (trace_time_ticks w') = [0, 100]"
proof -
  have "os_trace (trace_env demo_lib demo_trace) (history demo_rr @ [Sleep 2, TraceOpen ''trace'']) = Some (map trace_text demo_trace)"
    by (simp add: trace_env_def)
  from trace_read_back [OF demo_boost_doc demo_trace_ok demo_rr_simps(1,2) this]
  obtain w' where "parse (trace_env demo_lib demo_trace) demo_boost ''trace'' demo_rr = Inr w'"
    and "w' = fold (line_effect demo_boost) demo_trace (demo_rr\<lparr>trace_time_ticks := [], history := history demo_rr @ [Sleep 2, TraceOpen ''trace'']\<rparr>)"
    and "set (agent_limit w') = set (take (unat (maxNOFAgents demo_rr)) (first_seen (announced demo_trace)))"
    by blast
  then show ?thesis
    by (intro exI [of _ w'])
      (auto simp: demo_trace_def demo_rr_simps first_seen_def change_tick_def add_line_def Let_def)
qed

text \<open>
  C29: whatever the trace file contains, when it is read without failing the table is ordered
  by time, the agents are ordered, at most \<open>maxNOFAgents\<close> and the ones for which nodes are made, every
  location and every sender in the table is one of them, no recipient is empty, a disabled
  kind of line leaves nothing, and reading changes nothing else.
\<close>

theorem trace_invariant:
  assumes "parse E B f w = Inr w'" and "agent_limit w = []" and "agentsList w = []"
  shows "trace_ok w' \<and> trace_only (w\<lparr>history := history w @ [Sleep 2, TraceOpen f]\<rparr>) w'"
  using assms by (rule parse_Inr) blast

theorem trace_invariant_witness:
  "\<exists>w'. parse (trace_env demo_lib demo_trace) demo_boost ''trace'' demo_rr = Inr w' \<and> trace_ok w' \<and> maxNOFAgents w' = 2"
proof -
  let ?w1 = "demo_rr\<lparr>trace_time_ticks := [], history := history demo_rr @ [Sleep 2, TraceOpen ''trace'']\<rparr>"
  have "types_known ?w1" using demo_rr_simps(1) by (simp add: types_known_def)
  from parse_texts [OF demo_boost_doc demo_trace_ok this]
  have p: "parse (trace_env demo_lib demo_trace) demo_boost ''trace'' demo_rr = Inr (fold (line_effect demo_boost) demo_trace ?w1)"
    by (simp add: parse_def trace_env_def call_def Let_def)
  show ?thesis
    using trace_invariant [OF p demo_rr_simps(2,3)] p by (auto simp: demo_rr_simps dest: trace_only_same)
qed

end
