(* ===== verification/RR_Baseline.thy ===== *)
theory RR_Baseline
  imports RR_Trace_Props Serialize_Props
begin

text \<open>
  The replay of \<open>RoadRunnerBaseLine\<close> (model/testing/rr_baseline.cc): making the nodes and
  agents, starting, and the \<open>pause\<close> that replays one tick of the trace. It builds the bundle
  of the tick, reads it back at once, and processes it with the broker's own loop.
\<close>

section \<open>Nodes\<close>

text \<open>The wifi devices of all nodes, in the protocol that was asked for.\<close>

definition install_protocol :: "env \<Rightarrow> rr_world \<Rightarrow> (device list \<times> rr_world) outcome" where
  "install_protocol E w =
     (if protocol w = ''80211b'' then
        let wifiChannel = new_channel_helper\<lparr>ch_delay := Some ''ns3::ConstantSpeedPropagationDelayModel'',
              ch_losses := [(''ns3::FixedRssLossModel'', [(''Rss'', DoubleValue minus_80)])]\<rparr>;
            w1 = call (ChannelCreate wifiChannel) w;
            wifiPhy = default_phy_helper\<lparr>ph_attributes := [(''RxGain'', DoubleValue 0)],
              ph_pcap := Some ''DLT_IEEE802_11_RADIO'', ph_channel := Some (ns_new_channel E (history w1))\<rparr>;
            mac = default_mac_helper\<lparr>mh_type := Some ''ns3::AdhocWifiMac''\<rparr>;
            wifi = default_wifi_helper\<lparr>wh_standard := Some ''WIFI_PHY_STANDARD_80211b'',
              wh_manager := Some (''ns3::ConstantRateWifiManager'',
                [(''DataMode'', StringValue ''DsssRate1Mbps''), (''ControlMode'', StringValue ''DsssRate1Mbps'')])\<rparr>;
            w2 = call (WifiInstall wifi wifiPhy mac (RRNC w1)) w1 in
        Inr (ns_devices E (history w2), w2)
      else if protocol w = ''80211p'' then
        let wifiChannel = default_channel_helper\<lparr>
              ch_losses := [(''ns3::FixedRssLossModel'', [(''Rss'', DoubleValue minus_80)])]\<rparr>;
            w1 = call (ChannelCreate wifiChannel) w;
            wifiPhy = default_phy_helper\<lparr>ph_attributes := [(''RxGain'', DoubleValue 0)],
              ph_pcap := Some ''DLT_IEEE802_11_RADIO'', ph_channel := Some (ns_new_channel E (history w1))\<rparr>;
            phyMode = ''OfdmRate6MbpsBW10MHz'';
            wifi80211p = default_wifi_helper\<lparr>wh_manager := Some (''ns3::ConstantRateWifiManager'',
                [(''DataMode'', StringValue phyMode), (''ControlMode'', StringValue phyMode)])\<rparr>;
            w2 = call (WaveInstall wifi80211p wifiPhy default_mac_helper (RRNC w1)) w1 in
        Inr (ns_devices E (history w2), w2)
      else throw ''Unknown Wifi Protocol Specified'')"

text \<open>One turn of the loop: the three iterators advance together.\<close>

definition attach_agent :: "env \<Rightarrow> iface list \<Rightarrow> nat \<Rightarrow> rr_world \<Rightarrow> rr_world outcome" where
  "attach_agent E ifaces i w =
     ebind (vec_index (RRNC w) i) (\<lambda>node.
     ebind (vec_index (agentsList w) i) (\<lambda>agId.
     let (agent, w1) = create_object (new_Agent agId (Some node)) w; w2 = AddAgent agId (Some agent) w1 in
     ebind (vec_index ifaces i) (\<lambda>it_ii.
     with_agent agent w2 (\<lambda>ag.
     initSocket E agent (put_agent agent (ag\<lparr>iic := iic ag @ [it_ii]\<rparr>) w2)))))"

definition createNodes :: "env \<Rightarrow> rr_world \<Rightarrow> rr_world outcome" where
  "createNodes E w =
     (let w1 = call (CreateNodes (unat (maxNOFAgents w))) w;
          w2 = w1\<lparr>RRNC := RRNC w1 @ ns_new_nodes E (history w1)\<rparr> in
      ebind (install_protocol E w2) (\<lambda>(rrDevices, w3).
      let w4 = call (InternetInstall (RRNC w3)) w3;
          w5 = call (AddressBase ''10.0.0.0'' ''255.255.0.0'') w4;
          w6 = call (AddressAssign rrDevices) w5;
          iic = ns_interfaces E (history w6);
          w7 = call (MobilityInstall (RRNC w6)) w6 in
      fold_outcome (attach_agent E iic) [0..<length (RRNC w7)] w7))"

section \<open>Starting\<close>

definition log_with ::
  "(ProfileBuilder \<Rightarrow> rr_world \<Rightarrow> ProfileBuilder \<times> rr_world) \<Rightarrow> rr_world \<Rightarrow> rr_world" where
  "log_with f w = (let (pb, w1) = f (profiler w) w in w1\<lparr>profiler := pb\<rparr>)"

definition rr_start :: "env \<Rightarrow> boostlib \<Rightarrow> string \<Rightarrow> rr_world \<Rightarrow> (bool \<times> rr_world) outcome" where
  "rr_start E B fileName w =
     ebind (parse E B fileName w) (\<lambda>w1.
     ebind (createNodes E w1) (\<lambda>w2.
     let w3 = w2\<lparr>prevTick := Some (length (trace_time_ticks w2)), currTick := Some 0\<rparr>;
         w4 = call CpuClock (log_with (logSiMobilityBegin E) w3);
         w5 = w4\<lparr>start_time := Some (os_cpu E (history w4))\<rparr> in
     Inr (True, call (Schedule 0) w5)))"

section \<open>One tick\<close>

text \<open>The override of the virtual function, which sends nothing.\<close>

definition rr_sendOutgoing :: "rr_world \<Rightarrow> rr_world" where
  "rr_sendOutgoing w = w\<lparr>m_outgoing := serialize_begin (m_outgoing w)\<rparr>"

text \<open>What an iterator points to.\<close>

definition tick_at :: "nat option \<Rightarrow> rr_world \<Rightarrow> (uint \<times> TimeTick) outcome" where
  "tick_at it w = (case it of None \<Rightarrow> Inl Undefined | Some i \<Rightarrow> vec_index (trace_time_ticks w) i)"

definition make_multicast :: "jsonlib \<Rightarrow> TickMulticast \<Rightarrow> OngoingSerialization \<Rightarrow> OngoingSerialization outcome" where
  "make_multicast J mc ongoing =
     makeOpaqueSend J ongoing (sendAgId mc) (receiveAgId mc) (mcData mc) ''base64escape'' ''dsrc''"

definition pushToQueue :: "env \<Rightarrow> rr_world \<Rightarrow> rr_world outcome" where
  "pushToQueue E w =
     ebind (tick_at (currTick w) w) (\<lambda>(_, tt).
     let ongoing = serialize_begin_ids new_OngoingSerialization ''0'' ''987654321'' in
     ebind (if update_agent tt = [] then Inr ongoing else makeAllLocations (lib E) ongoing (update_agent tt)) (\<lambda>og1.
     ebind (fold_outcome (make_multicast (lib E)) (multicast tt) og1) (\<lambda>og2.
     ebind (serialize_end (lib E) og2 new_BundleHeader []) (\<lambda>(_, mHead, mStr).
     ebind (deserialize (lib E) mHead mStr new_MessageConglomerate) (\<lambda>(_, messages).
     Inr (w\<lparr>m_incoming := push messages (m_incoming w)\<rparr>))))))"

text \<open>
  The three parts of \<open>pause\<close>: the progress message, whose test divides by a tenth of the
  number of ticks; the step of the iterators, with the interval to the next tick; and what
  is left to do at the end.
\<close>

definition feedback :: "rr_world \<Rightarrow> unit outcome" where
  "feedback w =
     ebind (tick_at (currTick w) w) (\<lambda>(absTick, _).
     if 0 < absTick \<and> length (trace_time_ticks w) div 10 = 0 then Inl Undefined else Inr ())"

definition at_end :: "rr_world \<Rightarrow> bool" where
  "at_end w \<longleftrightarrow> currTick w = Some (length (trace_time_ticks w))"

definition advance :: "rr_world \<Rightarrow> rr_world outcome" where
  "advance w =
     (let w1 = w\<lparr>prevTick := currTick w, currTick := map_option Suc (currTick w)\<rparr> in
      if at_end w1 then Inr w1 else
      ebind (tick_at (currTick w1) w1) (\<lambda>(t, _).
      ebind (tick_at (prevTick w1) w1) (\<lambda>(p, _).
      Inr (w1\<lparr>interval := t - p\<rparr>))))"

definition plan_next :: "env \<Rightarrow> rr_world \<Rightarrow> rr_world" where
  "plan_next E w =
     (if \<not> at_end w then call (Schedule (unat (interval w))) w
      else
        let w1 = call CpuClock w;
            w2 = log_with (logSiMobilityEnd E) (w1\<lparr>end_time := Some (os_cpu E (history w1))\<rparr>) in
        call SimulatorStop w2)"

definition rr_pause :: "env \<Rightarrow> rr_world \<Rightarrow> rr_world outcome" where
  "rr_pause E w =
     ebind (feedback w) (\<lambda>_.
     ebind (pushToQueue E w) (\<lambda>w1.
     ebind (advance w1) (\<lambda>w2.
     ebind (tick_at (prevTick w2) w2) (\<lambda>(p, tt).
     if interval w2 = 0 then Inl Undefined else
     let tickId = to_int (uint (p div interval w2));
         agents = to_int (int (length (update_agent tt))) in
     ebind (processIncoming E (log_with (logTickBegin E tickId agents 0) w2)) (\<lambda>w3.
     Inr (plan_next E (log_with (logTickEnd E tickId agents 0) w3)))))))"

text \<open>The destructor: the profiler is deleted, then the destructor of the base class runs.\<close>

definition delete_RoadRunnerBaseLine :: "env \<Rightarrow> rr_world \<Rightarrow> rr_world outcome" where
  "delete_RoadRunnerBaseLine E w =
     ebind (delete_ProfileBuilder E (profiler w) (profilers w) w) (\<lambda>(n, w1).
     Inr (delete_Broker (w1\<lparr>profilers := n\<rparr>)))"

text \<open>The simulator: it calls \<open>pause\<close> as often as it has been scheduled.\<close>

fun rr_run :: "env \<Rightarrow> nat \<Rightarrow> rr_world \<Rightarrow> rr_world outcome" where
  "rr_run E 0 w = Inr w"
| "rr_run E (Suc n) w = ebind (rr_pause E w) (rr_run E n)"

section \<open>Making the nodes\<close>

lemma initSocket_same: "initSocket E p w = Inr w' \<Longrightarrow> same_agents p w w'"
proof -
  assume "initSocket E p w = Inr w'"
  then obtain w1 r where w1: "create_socket E p w = Inr w1" and b: "Bind E p 80 (put_agent p ((heap w1 ! p)\<lparr>m_isa := None\<rparr>) w1) = Inr (r, w')"
    by (auto simp: initSocket_def access_simps)
  have "same_agents p w1 (put_agent p ((heap w1 ! p)\<lparr>m_isa := None\<rparr>) w1)" by (rule same_agents_put) simp_all
  with create_socket_same [OF w1] Bind_same [OF b] show ?thesis by (blast intro: same_agents_trans)
qed

lemma initSocket_ready:
  assumes laws: "ns3_laws E" and "p < length (heap w)" and "m_node (heap w ! p) = Some n"
    and "iic (heap w ! p) \<noteq> []" and "ns_has_mobility E (history w) n"
  shows "\<exists>w'. initSocket E p w = Inr w' \<and> ready E w' p"
proof -
  obtain w1 where w1: "create_socket E p w = Inr w1" "iic (heap w1 ! p) = iic (heap w ! p)"
      "m_node (heap w1 ! p) = Some n" "m_socket (heap w1 ! p) \<noteq> None"
    using create_socket_ready [OF assms(1-3)] by blast
  have same: "same_agents p w w1" using w1(1) by (rule create_socket_same)
  then have p1: "p < length (heap w1)" using assms(2) by (simp add: same_agents_def)
  let ?w1 = "put_agent p ((heap w1 ! p)\<lparr>m_isa := None\<rparr>) w1"
  have put: "same_agents p w1 ?w1" by (rule same_agents_put) simp_all
  have "p < length (heap ?w1)" "heap ?w1 ! p = (heap w1 ! p)\<lparr>m_isa := None\<rparr>"
    using p1 by (simp_all add: put_agent_def)
  then obtain r w2 where w2: "Bind E p 80 ?w1 = Inr (r, w2)" "iic (heap w2 ! p) = iic (heap w ! p)"
      "m_node (heap w2 ! p) = Some n" "m_socket (heap w2 ! p) \<noteq> None"
    using Bind_ready [of p ?w1 E 80] w1 assms(4) by auto
  have "same_agents p w w2" using same_agents_trans [OF same same_agents_trans [OF put Bind_same [OF w2(1)]]] .
  then have "p < length (heap w2)" "ns_has_mobility E (history w2) n"
    using assms(1,2,5) by (auto simp: same_agents_def mobility_stays)
  moreover have "initSocket E p w = Inr w2"
    using w1(1) w2(1) p1 by (simp add: initSocket_def with_agent_def)
  ultimately show ?thesis using w2 assms(4) by (auto simp: ready_def)
qed

text \<open>What stays the same of the baseline's own state when agents are worked on.\<close>

lemma rr_same:
  assumes "agent_world.more w' = agent_world.more w"
  shows "RRNC w' = RRNC w" and "agentsList w' = agentsList w" and "agent_limit w' = agent_limit w"
    and "trace_time_ticks w' = trace_time_ticks w" and "currTick w' = currTick w" and "prevTick w' = prevTick w"
    and "interval w' = interval w" and "profiler w' = profiler w" and "profilers w' = profilers w"
    and "m_incoming w' = m_incoming w" and "handleLookup w' = handleLookup w" and "maxNOFAgents w' = maxNOFAgents w"
  using assms by (cases w; cases w'; simp)+

lemma attach_agent_ready:
  fixes w :: rr_world
  assumes laws: "ns3_laws E" and i: "i < length (RRNC w)" "i < length (agentsList w)" "i < length ifaces"
    and mob: "ns_has_mobility E (history w) (RRNC w ! i)" and ok: "agents_ok w" "all_ready E w"
    and new: "map_of (AllAgents w) (agentsList w ! i) = None"
  shows "\<exists>w'. attach_agent E ifaces i w = Inr w' \<and> agents_ok w' \<and> all_ready E w' \<and>
    AllAgents w' = map_put (agentsList w ! i) (Some (length (heap w))) (AllAgents w) \<and>
    agent_world.more w' = agent_world.more w \<and> (\<exists>h. history w' = history w @ h \<and> log_text h = [] \<and> outer h = [])"
proof -
  let ?p = "length (heap w)" and ?a = "agentsList w ! i" and ?n = "RRNC w ! i"
  let ?ag = "(new_Agent ?a (Some ?n))\<lparr>iic := [ifaces ! i]\<rparr>"
  let ?w2 = "AddAgent ?a (Some ?p) (w\<lparr>heap := heap w @ [new_Agent ?a (Some ?n)]\<rparr>)"
  define w3 where "w3 = put_agent ?p ?ag ?w2"
  have heap3: "heap w3 = heap w @ [?ag]" by (simp add: w3_def put_agent_def AddAgent_def new_Agent_def)
  have map3: "AllAgents w3 = map_put ?a (Some ?p) (AllAgents w)"
    using new by (simp add: w3_def put_agent_def AddAgent_def map_insert_def)
  have hist3: "history w3 = history w" "agent_world.more w3 = agent_world.more w"
    by (simp_all add: w3_def put_agent_def AddAgent_def)
  have M: "map_ok (AllAgents w)" using ok(1) by (simp add: agents_ok_def)
  obtain w' where w': "initSocket E ?p w3 = Inr w'" "ready E w' ?p"
  proof -
    have "?p < length (heap w3)" "m_node (heap w3 ! ?p) = Some ?n" "iic (heap w3 ! ?p) \<noteq> []"
      by (simp_all add: heap3 new_Agent_def)
    then show thesis using initSocket_ready [OF laws, of ?p w3 ?n] mob that by (auto simp: hist3)
  qed
  have same: "same_agents ?p w3 w'" using w'(1) by (rule initSocket_same)
  have ok3: "agents_ok w3"
    using ok(1) by (auto simp: agents_ok_def map3 heap3 map_of_put [OF M] nth_append new_Agent_def
        split: if_splits intro: less_SucI)
  have "agents_ok w'" using ok3 same by (rule agents_ok_same)
  moreover have "all_ready E w'"
    unfolding all_ready_def
  proof (intro allI impI)
    fix k q assume "map_of (AllAgents w') k = Some (Some q)"
    then have k: "((map_of (AllAgents w))(?a \<mapsto> Some ?p)) k = Some (Some q)"
      using same by (simp add: same_agents_def map3 map_of_put [OF M])
    show "ready E w' q"
    proof (cases "q = ?p")
      case False
      with k have old: "map_of (AllAgents w) k = Some (Some q)" by (simp split: if_splits)
      then have "q < ?p" "ready E w q" using ok by (auto simp: agents_ok_def all_ready_def)
      then have "ready E w3 q" by (simp add: ready_def heap3 hist3 nth_append)
      from laws this same False show ?thesis by (rule ready_same)
    qed (use w'(2) in simp)
  qed
  moreover have "attach_agent E ifaces i w = initSocket E ?p w3"
    using i by (simp add: attach_agent_def vec_index_def create_object_def with_agent_def AddAgent_def new_Agent_def w3_def)
  moreover have "AllAgents w' = map_put ?a (Some ?p) (AllAgents w)" "agent_world.more w' = agent_world.more w"
      "\<exists>h. history w' = history w @ h \<and> log_text h = [] \<and> outer h = []"
    using same hist3 map3 by (auto simp: same_agents_def agents_only_def)
  ultimately show ?thesis using w'(1) by auto
qed

text \<open>
  The loop over the nodes: with an agent and an interface for every node, all agents are
  ready; with fewer agents than nodes, the iterator runs past the last agent.
\<close>

lemma attach_loop:
  fixes w :: rr_world
  assumes laws: "ns3_laws E" and n: "n \<le> length (RRNC w)" "n \<le> length (agentsList w)" "n \<le> length ifaces"
    and mob: "\<forall>nd \<in> set (RRNC w). ns_has_mobility E (history w) nd" and ok: "agents_ok w" "all_ready E w"
    and ids: "distinct (agentsList w)" and none: "AllAgents w = []"
  shows "\<exists>w'. fold_outcome (attach_agent E ifaces) [0..<n] w = Inr w' \<and> agents_ok w' \<and> all_ready E w' \<and>
    agent_world.more w' = agent_world.more w \<and> (\<exists>h. history w' = history w @ h \<and> log_text h = [] \<and> outer h = []) \<and>
    (\<forall>k. known w' k \<longleftrightarrow> k \<in> set (take n (agentsList w))) \<and> (\<forall>k. map_of (AllAgents w') k \<noteq> None \<longleftrightarrow> known w' k)"
  using n
proof (induction n)
  case 0
  then show ?case using ok none by (simp add: known_def)
next
  case (Suc n)
  then obtain v where v: "fold_outcome (attach_agent E ifaces) [0..<n] w = Inr v" "agents_ok v" "all_ready E v"
      "agent_world.more v = agent_world.more w" "\<exists>h. history v = history w @ h \<and> log_text h = [] \<and> outer h = []"
      "\<forall>k. known v k \<longleftrightarrow> k \<in> set (take n (agentsList w))" "\<forall>k. map_of (AllAgents v) k \<noteq> None \<longleftrightarrow> known v k"
    by auto
  let ?a = "agentsList w ! n"
  have take: "take (Suc n) (agentsList w) = take n (agentsList w) @ [?a]"
    using Suc.prems by (simp add: take_Suc_conv_app_nth)
  have "?a \<notin> set (take n (agentsList w))"
    using distinct_take [OF ids, of "Suc n"] unfolding take by simp
  then have new: "map_of (AllAgents v) ?a = None" using v(6,7) by auto
  have "ns_has_mobility E (history v) (RRNC w ! n)" using mob v(5) Suc.prems laws by (auto simp: mobility_stays)
  then obtain w' where w': "attach_agent E ifaces n v = Inr w'" "agents_ok w'" "all_ready E w'"
      "AllAgents w' = map_put ?a (Some (length (heap v))) (AllAgents v)" "agent_world.more w' = agent_world.more v"
      "\<exists>h. history w' = history v @ h \<and> log_text h = [] \<and> outer h = []"
    using attach_agent_ready [OF laws, of n v ifaces] Suc.prems v(2,3) new rr_same(1,2) [OF v(4)] by auto
  have "map_of (AllAgents w') = (map_of (AllAgents v))(?a \<mapsto> Some (length (heap v)))"
    using v(2) w'(4) by (simp add: agents_ok_def map_of_put)
  then have "known w' k \<longleftrightarrow> k = ?a \<or> known v k" "map_of (AllAgents w') k \<noteq> None \<longleftrightarrow> known w' k" for k
    using v(7) by (auto simp: known_def)
  then show ?case
    using v w' take by (intro exI [of _ w']) (auto simp: fold_outcome_append)
qed

lemma attach_past_end:
  fixes w :: rr_world
  assumes laws: "ns3_laws E" and n: "length (agentsList w) < length (RRNC w)" "length (agentsList w) \<le> length ifaces"
    and mob: "\<forall>nd \<in> set (RRNC w). ns_has_mobility E (history w) nd" and ok: "agents_ok w" "all_ready E w"
    and ids: "distinct (agentsList w)" and none: "AllAgents w = []"
  shows "fold_outcome (attach_agent E ifaces) [0..<length (RRNC w)] w = Inl Undefined"
proof -
  let ?m = "length (agentsList w)"
  obtain v where v: "fold_outcome (attach_agent E ifaces) [0..<?m] w = Inr v" "agent_world.more v = agent_world.more w"
    using attach_loop [OF laws, of ?m w ifaces] n mob ok ids none by auto
  have "[0..<length (RRNC w)] = [0..<?m] @ ?m # [Suc ?m..<length (RRNC w)]"
    using n(1) upt_add_eq_append [of 0 ?m "length (RRNC w) - ?m"] by (simp add: upt_conv_Cons)
  moreover have "attach_agent E ifaces ?m v = Inl Undefined"
    using n(1) rr_same(1,2) [OF v(2)] by (simp add: attach_agent_def vec_index_def)
  ultimately show ?thesis using v(1) by (simp add: fold_outcome_append)
qed

text \<open>What \<open>createNodes\<close> does before its loop.\<close>

lemma createNodes_prepared:
  fixes w :: rr_world
  assumes laws: "ns3_laws E" "ns3_one_each E" and "protocol w = ''80211b'' \<or> protocol w = ''80211p''"
    and "RRNC w = []" and "AllAgents w = []"
  obtains w7 ifaces where "createNodes E w = fold_outcome (attach_agent E ifaces) [0..<length (RRNC w7)] w7"
    and "length (RRNC w7) = unat (maxNOFAgents w)" and "length ifaces = unat (maxNOFAgents w)"
    and "\<forall>nd \<in> set (RRNC w7). ns_has_mobility E (history w7) nd" and "agents_ok w7" and "all_ready E w7" and "AllAgents w7 = []"
    and "w7 = w\<lparr>RRNC := RRNC w7, history := history w7\<rparr>" and "\<exists>h. history w7 = history w @ h \<and> log_text h = [] \<and> outer h = []"
proof -
  define ns where "ns = ns_new_nodes E (history w @ [CreateNodes (unat (maxNOFAgents w))])"
  let ?w2 = "w\<lparr>history := history w @ [CreateNodes (unat (maxNOFAgents w))], RRNC := ns\<rparr>"
  obtain ch ev where ev: "install_protocol E ?w2 = Inr (ns_devices E (history ?w2 @ [ch, ev]), ?w2\<lparr>history := history ?w2 @ [ch, ev]\<rparr>)"
    "(\<exists>a b c. ev = WifiInstall a b c ns) \<or> (\<exists>a b c. ev = WaveInstall a b c ns)" "log_text [ch, ev] = []" "outer [ch, ev] = []"
    using assms(3) by (auto simp: install_protocol_def Let_def call_def)
  define h3 where "h3 = history w @ [CreateNodes (unat (maxNOFAgents w)), ch, ev]"
  define ds where "ds = ns_devices E h3"
  define h6 where "h6 = h3 @ [InternetInstall ns, AddressBase ''10.0.0.0'' ''255.255.0.0'', AddressAssign ds]"
  define w7 where "w7 = w\<lparr>RRNC := ns, history := h6 @ [MobilityInstall ns]\<rparr>"
  have "length ns = unat (maxNOFAgents w)" using laws(2) by (simp add: ns3_one_each_def ns_def)
  moreover have len: "length ds = length ns"
  proof -
    have "h3 = (history w @ [CreateNodes (unat (maxNOFAgents w)), ch]) @ [ev]" by (simp add: h3_def)
    then show ?thesis using laws(2) ev(2) unfolding ns3_one_each_def ds_def by (auto simp del: append_assoc)
  qed
  moreover have "length (ns_interfaces E h6) = length ds"
  proof -
    have "h6 = (h3 @ [InternetInstall ns, AddressBase ''10.0.0.0'' ''255.255.0.0'']) @ [AddressAssign ds]" by (simp add: h6_def)
    then show ?thesis using laws(2) unfolding ns3_one_each_def by (simp del: append_assoc)
  qed
  moreover have "\<forall>nd \<in> set ns. ns_has_mobility E (history w7) nd"
    using laws(1) by (auto simp: ns3_laws_def w7_def)
  moreover have "createNodes E w = fold_outcome (attach_agent E (ns_interfaces E h6)) [0..<length (RRNC w7)] w7"
    using assms(4) ev(1)
    by (simp add: createNodes_def Let_def call_def w7_def h6_def ds_def h3_def ns_def)
  moreover have "agents_ok w7" "all_ready E w7" using assms(5) by (simp_all add: w7_def agents_ok_def all_ready_def)
  moreover have "log_text (ch # ev # rest) = log_text rest" "outer (ch # ev # rest) = outer rest" for rest
    using ev(3,4) log_text_append [of "[ch, ev]" rest] outer_simps(3) [of "[ch, ev]" rest] by simp_all
  ultimately show thesis
    using assms(5) by (intro that [of "ns_interfaces E h6" w7]) (simp_all add: w7_def h6_def h3_def)
qed

end
