(* ===== verification/RR_Replay.thy ===== *)
theory RR_Replay
  imports RR_Baseline Broker_Steps
begin

text \<open>
  What the replay of a tick does. \<open>writable\<close> says that the messages of the tick survive being
  written and read back at once: the library reads back their texts, and they fit the sizes of
  a bundle; \<open>replayable\<close>, that each of its multicasts has a recipient as well. \<open>handle_tick\<close>
  is the effect of the bundle on the agents, \<open>rr_pause_tick\<close> that of the whole \<open>pause\<close>,
  \<open>rr_run_from\<close> that of the run over the ticks from a given one on.
\<close>

section \<open>The bundle of a tick\<close>

definition tick_values :: "jsonlib \<Rightarrow> TimeTick \<Rightarrow> json list outcome" where
  "tick_values J tt =
     ebind (if update_agent tt = [] then Inr [] else ebind (all_locations_value J (update_agent tt)) (\<lambda>v. Inr [v])) (\<lambda>ls.
     ebind (map_outcome (\<lambda>mc. opaque_send_value J (sendAgId mc) (receiveAgId mc) (mcData mc) ''base64escape'' ''dsrc'')
              (multicast tt)) (\<lambda>ms.
     Inr (ls @ ms)))"

abbreviation value_text :: "jsonlib \<Rightarrow> json \<Rightarrow> string" where
  "value_text J v \<equiv> write_line J (\<not> NEW_BUNDLES) v"

definition writable :: "jsonlib \<Rightarrow> TimeTick \<Rightarrow> bool" where
  "writable J tt \<longleftrightarrow> map_ok (update_agent tt) \<and>
     (\<exists>vs. tick_values J tt = Inr vs \<and> (\<forall>v \<in> set vs. js_parse J (value_text J v) = Some v) \<and>
           bundle_fits ''0'' ''987654321'' (map (value_text J) vs))"

definition replayable :: "jsonlib \<Rightarrow> TimeTick \<Rightarrow> bool" where
  "replayable J tt \<longleftrightarrow> writable J tt \<and> (\<forall>mc \<in> set (multicast tt). receiveAgId mc \<noteq> [])"

lemma readable_value:
  assumes "is_object v m" and "js_parse J (value_text J v) = Some v" and "ParseJsonMessageBase J v = Inr b"
  shows "readable J (value_text J v) v b"
proof -
  obtain kvs where "v = objectValue kvs" using assms(1) by (auto simp: is_object_def)
  then show ?thesis
    using assms(2,3) render_object_braces [of J False kvs] by (auto simp: readable_def write_line_render NEW_BUNDLES_def)
qed

text \<open>The multicasts of a tick, one message each, and what each is read as.\<close>

definition reads_as_send :: "jsonlib \<Rightarrow> TickMulticast \<Rightarrow> json \<Rightarrow> bool" where
  "reads_as_send J mc v \<longleftrightarrow> (\<exists>m. is_object v m) \<and> ParseJsonMessageBase J v = Inr \<lparr>msg_type = ''opaque_send''\<rparr> \<and>
     (\<forall>c i. has_message c i v \<lparr>msg_type = ''opaque_send''\<rparr> \<longrightarrow> parseOpaqueSend J c i =
      (if receiveAgId mc = [] then throw ''Badly formatted OPAQUE_SEND message.''
       else Inr \<lparr>msg_type = ''opaque_send'', fromId = ''987654321'', toIds = receiveAgId mc, broadcast = False, os_data = mcData mc,
                 os_format = ''base64escape'', os_tech = ''dsrc''\<rparr>))"

lemma multicasts_written:
  assumes J: "json_doc J"
  shows "\<exists>ms. map_outcome (\<lambda>mc. opaque_send_value J (sendAgId mc) (receiveAgId mc) (mcData mc) ''base64escape'' ''dsrc'') mcs = Inr ms \<and>
    list_all2 (reads_as_send J) mcs ms \<and>
    fold_outcome (make_multicast J) mcs og = Inr (fold (\<lambda>m og. addGeneric og m) (map (value_text J) ms) og)"
proof (induction mcs arbitrary: og)
  case (Cons mc mcs)
  obtain v m where v: "opaque_send_value J (sendAgId mc) (receiveAgId mc) (mcData mc) ''base64escape'' ''dsrc'' = Inr v"
      "is_object v m" "make_multicast J mc og = Inr (emit_json J og v)"
      "ParseJsonMessageBase J v = Inr \<lparr>msg_type = ''opaque_send''\<rparr>"
    and parse: "\<And>c i. has_message c i v \<lparr>msg_type = ''opaque_send''\<rparr> \<Longrightarrow> parseOpaqueSend J c i =
      (if receiveAgId mc = [] then throw ''Badly formatted OPAQUE_SEND message.''
       else Inr \<lparr>msg_type = ''opaque_send'', fromId = ''987654321'', toIds = receiveAgId mc, broadcast = False, os_data = mcData mc,
                 os_format = ''base64escape'', os_tech = ''dsrc''\<rparr>)"
    unfolding make_multicast_def using opaque_send_written [OF J] by metis
  then have "reads_as_send J mc v" by (auto simp: reads_as_send_def)
  moreover obtain ms where "map_outcome (\<lambda>mc. opaque_send_value J (sendAgId mc) (receiveAgId mc) (mcData mc) ''base64escape'' ''dsrc'') mcs = Inr ms"
      "list_all2 (reads_as_send J) mcs ms"
      "fold_outcome (make_multicast J) mcs (emit_json J og v) = Inr (fold (\<lambda>m og. addGeneric og m) (map (value_text J) ms) (emit_json J og v))"
    using Cons.IH by blast
  ultimately show ?case using v(1,3) by (intro exI [of _ "v # ms"]) (simp add: emit_json_def)
qed simp

text \<open>The bundle that is queued: the locations first, if there are any, then the multicasts.\<close>

definition replay_bundle :: "jsonlib \<Rightarrow> TimeTick \<Rightarrow> MessageConglomerate \<Rightarrow> bool" where
  "replay_bundle J tt c \<longleftrightarrow> (\<exists>n ms. getCount c = n + length ms \<and> n = (if update_agent tt = [] then 0 else 1) \<and>
     list_all2 (reads_as_send J) (multicast tt) ms \<and>
     (\<forall>i < length ms. has_message c (int (n + i)) (ms ! i) \<lparr>msg_type = ''opaque_send''\<rparr>) \<and>
     (update_agent tt \<noteq> [] \<longrightarrow> getBaseMessage c 0 = Inr \<lparr>msg_type = ''all_locations''\<rparr> \<and>
        parseAllLocations J c 0 = Inr \<lparr>msg_type = ''all_locations'', agentLocations = update_agent tt\<rparr>))"

lemma has_message_nth:
  assumes "i < length (messages_json c)" and "length (message_bases c) = length (messages_json c)"
  shows "has_message c (int i) (messages_json c ! i) (message_bases c ! i)"
  using assms by (simp add: has_message_def getJsonMessage_def getBaseMessage_def vec_at_nth)

lemma pushToQueue_tick:
  assumes J: "json_doc (lib E)" and at: "tick_at (currTick w) w = Inr (t, tt)" and tt: "writable (lib E) tt"
  shows "\<exists>c. pushToQueue E w = Inr (w\<lparr>m_incoming := push c (m_incoming w)\<rparr>) \<and> replay_bundle (lib E) tt c"
proof -
  let ?J = "lib E" and ?og = "serialize_begin_ids new_OngoingSerialization ''0'' ''987654321''"
  let ?fold = "\<lambda>vs og. fold (\<lambda>m og. addGeneric og m) (map (value_text ?J) vs) og"
  obtain vs where vs: "tick_values ?J tt = Inr vs" "\<forall>v \<in> set vs. js_parse ?J (value_text ?J v) = Some v"
      "bundle_fits ''0'' ''987654321'' (map (value_text ?J) vs)" and locs: "map_ok (update_agent tt)"
    using tt by (auto simp: writable_def)
  obtain ls where ls: "length ls = (if update_agent tt = [] then 0 else 1)"
      "(if update_agent tt = [] then Inr [] else ebind (all_locations_value ?J (update_agent tt)) (\<lambda>v. Inr [v])) = Inr ls"
      "(if update_agent tt = [] then Inr ?og else makeAllLocations ?J ?og (update_agent tt)) = Inr (?fold ls ?og)"
      "\<forall>v \<in> set ls. (\<exists>m. is_object v m) \<and> ParseJsonMessageBase ?J v = Inr \<lparr>msg_type = ''all_locations''\<rparr> \<and>
         (\<forall>c i. has_message c i v \<lparr>msg_type = ''all_locations''\<rparr> \<longrightarrow>
            parseAllLocations ?J c i = Inr \<lparr>msg_type = ''all_locations'', agentLocations = update_agent tt\<rparr>)"
  proof (cases "update_agent tt = []")
    case True
    then show thesis by (intro that [of "[]"]) simp_all
  next
    case False
    obtain v m where v: "all_locations_value ?J (update_agent tt) = Inr v" "is_object v m"
        "makeAllLocations ?J ?og (update_agent tt) = Inr (emit_json ?J ?og v)"
        "ParseJsonMessageBase ?J v = Inr \<lparr>msg_type = ''all_locations''\<rparr>"
      and "\<And>c i. has_message c i v \<lparr>msg_type = ''all_locations''\<rparr> \<Longrightarrow>
        parseAllLocations ?J c i = Inr \<lparr>msg_type = ''all_locations'', agentLocations = update_agent tt\<rparr>"
      using all_locations_written [OF J locs False] by metis
    with False show thesis by (intro that [of "[v]"]) (auto simp: emit_json_def)
  qed
  obtain ms where ms: "map_outcome (\<lambda>mc. opaque_send_value ?J (sendAgId mc) (receiveAgId mc) (mcData mc) ''base64escape'' ''dsrc'')
        (multicast tt) = Inr ms" "list_all2 (reads_as_send ?J) (multicast tt) ms"
      "fold_outcome (make_multicast ?J) (multicast tt) (?fold ls ?og) = Inr (?fold ms (?fold ls ?og))"
    using multicasts_written [OF J] by blast
  have "vs = ls @ ms" using vs(1) ls(2) ms(1) by (simp add: tick_values_def)
  note vs' = vs(2,3) [unfolded this]
  let ?bs = "map (\<lambda>v. \<lparr>msg_type = ''all_locations''\<rparr>) ls @ map (\<lambda>v. \<lparr>msg_type = ''opaque_send''\<rparr>) ms"
  let ?vbs = "zip (ls @ ms) ?bs" and ?texts = "map (value_text ?J) (ls @ ms)"
  have sends: "\<forall>v \<in> set ms. (\<exists>m. is_object v m) \<and> ParseJsonMessageBase ?J v = Inr \<lparr>msg_type = ''opaque_send''\<rparr>"
    using ms(2) by (auto simp: list_all2_conv_all_nth in_set_conv_nth reads_as_send_def)
  have "list_all2 (\<lambda>m (v, b). readable ?J m v b) (map (value_text ?J) us) (zip us (map (\<lambda>v. b) us))"
    if "\<forall>v \<in> set us. (\<exists>m. is_object v m) \<and> ParseJsonMessageBase ?J v = Inr b"
      "\<forall>v \<in> set us. js_parse ?J (value_text ?J v) = Some v" for us and b :: MessageBase
    using that by (induction us) (auto intro: readable_value)
  from this [of ls] this [of ms] ls(4) sends vs'(1)
  have read: "list_all2 (\<lambda>m (v, b). readable ?J m v b) ?texts ?vbs"
    by (simp add: list_all2_appendI)
  have carries: "carries (?fold (ls @ ms) ?og) ?texts"
    using carries_add_all [of ?og "[]" ?texts] by (simp add: carries_begin new_OngoingSerialization_def)
  have ids: "sendId (vHead (?fold (ls @ ms) ?og)) = ''0''" "destId (vHead (?fold (ls @ ms) ?og)) = ''987654321''"
    by (simp_all only: add_all_ids serialize_begin_simps)
  note round = end_then_deserialize [OF carries _ read, unfolded ids, OF vs'(2)]
  let ?res = "vary_header (vHead (?fold (ls @ ms) ?og)) @ concat ?texts"
  let ?c = "received ?res ''0'' ''987654321'' ?texts ?vbs"
  have "pushToQueue E w = Inr (w\<lparr>m_incoming := push ?c (m_incoming w)\<rparr>)"
    using at ls(3) ms(3) round(1,4) by (simp add: pushToQueue_def Let_def)
  moreover have "replay_bundle ?J tt ?c"
  proof -
    have len: "messages_json ?c = ls @ ms" "message_bases ?c = ?bs" by simp_all
    have msg: "has_message ?c (int i) ((ls @ ms) ! i) (?bs ! i)" if "i < length (ls @ ms)" for i
      using has_message_nth [of i ?c] that unfolding len by simp
    have "has_message ?c (int (length ls + i)) (ms ! i) \<lparr>msg_type = ''opaque_send''\<rparr>" if "i < length ms" for i
      using msg [of "length ls + i"] that by (simp add: nth_append)
    moreover have "getBaseMessage ?c 0 = Inr \<lparr>msg_type = ''all_locations''\<rparr> \<and>
        parseAllLocations ?J ?c 0 = Inr \<lparr>msg_type = ''all_locations'', agentLocations = update_agent tt\<rparr>"
      if "update_agent tt \<noteq> []"
    proof -
      obtain v where v: "ls = [v]" using ls(1) \<open>update_agent tt \<noteq> []\<close> by (cases ls) simp_all
      then have "has_message ?c 0 v \<lparr>msg_type = ''all_locations''\<rparr>" using msg [of 0] by simp
      with ls(4) v show ?thesis by (auto simp: has_message_def)
    qed
    ultimately show ?thesis using ls(1) ms(2) unfolding replay_bundle_def by (intro exI [of _ "length ls"] exI [of _ ms]) simp
  qed
  ultimately show ?thesis by blast
qed

section \<open>Handling the bundle\<close>

text \<open>
  The sender that every opaque_send names is no agent of a trace. Looking it up leaves a null
  entry, and that is all that the message does.
\<close>

definition no_sender :: "'z agent_world_scheme \<Rightarrow> bool" where
  "no_sender w \<longleftrightarrow> \<not> known w ''987654321''"

definition looked_up :: "'z agent_world_scheme \<Rightarrow> 'z agent_world_scheme" where
  "looked_up w = w\<lparr>AllAgents := map_insert ''987654321'' None (AllAgents w)\<rparr>"

definition multicasts_looked_up :: "TimeTick \<Rightarrow> 'z agent_world_scheme \<Rightarrow> 'z agent_world_scheme" where
  "multicasts_looked_up tt w = (if multicast tt = [] then w else looked_up w)"

lemma getAgent_no_sender: "no_sender w \<Longrightarrow> getAgent ''987654321'' w = (None, looked_up w)"
  by (cases "map_of (AllAgents w) ''987654321''")
    (auto simp: no_sender_def known_def getAgent_known getAgent_unknown looked_up_def map_insert_def)

lemma looked_up_twice: "map_ok (AllAgents w) \<Longrightarrow> looked_up (looked_up w) = looked_up w"
  by (simp add: looked_up_def map_insert_def map_of_put split: option.splits)

lemma looked_up_same:
  assumes "map_ok (AllAgents w)"
  shows "known (looked_up w) = known w" and "moves (looked_up w) = moves w" and "map_ok (AllAgents (looked_up w))"
    and "agents_ok (looked_up w) = agents_ok w" and "all_ready E (looked_up w) = all_ready E w"
    and "no_sender (looked_up w) = no_sender w"
proof -
  have live: "map_of (AllAgents (looked_up w)) k = Some (Some p) \<longleftrightarrow> map_of (AllAgents w) k = Some (Some p)" for k p
    using assms by (simp add: looked_up_def map_of_insert)
  then show kn: "known (looked_up w) = known w" by (simp add: known_def fun_eq_iff)
  show M: "map_ok (AllAgents (looked_up w))" using assms by (simp add: looked_up_def)
  have "moves (looked_up w) it = moves w it" for it
  proof (cases "map_of (AllAgents w) (fst it)")
    case None
    then have "map_of (AllAgents (looked_up w)) (fst it) = None \<or> map_of (AllAgents (looked_up w)) (fst it) = Some None"
      using assms by (simp add: looked_up_def map_of_insert)
    with None show ?thesis by (auto simp: moves_def)
  next
    case (Some p)
    then have "map_of (AllAgents (looked_up w)) (fst it) = Some p"
      using assms by (auto simp: looked_up_def map_of_insert)
    moreover have "heap (looked_up w) = heap w" by (simp add: looked_up_def)
    ultimately show ?thesis using Some by (simp add: moves_def cong: option.case_cong)
  qed
  then show "moves (looked_up w) = moves w" by (rule ext)
  show "agents_ok (looked_up w) = agents_ok w"
    using assms M unfolding agents_ok_def live by (simp add: looked_up_def)
  show "all_ready E (looked_up w) = all_ready E w"
    unfolding all_ready_def live by (simp add: looked_up_def ready_def)
  show "no_sender (looked_up w) = no_sender w" by (simp add: no_sender_def kn)
qed

lemma send_message:
  assumes J: "json_doc (lib E)" and w: "no_sender w" "handleLookup w = new_HandlerLookup"
    and v: "reads_as_send (lib E) mc v" "has_message c i v \<lparr>msg_type = ''opaque_send''\<rparr>" and mc: "receiveAgId mc \<noteq> []"
  shows "handle_message E c i w = Inr (looked_up w)"
proof -
  let ?os = "\<lparr>msg_type = ''opaque_send'', fromId = ''987654321'', toIds = receiveAgId mc, broadcast = False, os_data = mcData mc,
      os_format = ''base64escape'', os_tech = ''dsrc''\<rparr>"
  have "parseOpaqueSend (lib E) c i = Inr ?os" using v mc by (simp add: reads_as_send_def)
  from OpaqueSend_eq [OF J this, of w] have "OpaqueSend_handle E c i w = Inr (looked_up w)"
    using getAgent_no_sender [OF w(1)] by auto
  with v(2) w(2) show ?thesis
    by (simp add: handle_message_def has_message_def getHandler_def new_HandlerLookup_def handle_def)
qed

lemma send_messages:
  assumes J: "json_doc (lib E)" and w: "no_sender w" "handleLookup w = new_HandlerLookup" "map_ok (AllAgents w)"
    and all: "list_all2 (reads_as_send (lib E)) mcs ms" "\<forall>mc \<in> set mcs. receiveAgId mc \<noteq> []"
      "\<forall>i < length ms. has_message c (int (n + i)) (ms ! i) \<lparr>msg_type = ''opaque_send''\<rparr>"
  shows "fold_outcome (handle_message E c) (map int [n..<n + length ms]) w = Inr (if mcs = [] then w else looked_up w)"
  using all w
proof (induction mcs ms arbitrary: n w rule: list_all2_induct)
  case (Cons mc mcs v ms)
  have step: "handle_message E c (int n) w = Inr (looked_up w)"
    using send_message [OF J Cons.prems(3,4) Cons.hyps(1)] Cons.prems(1,2) by fastforce
  have "handleLookup (looked_up w) = new_HandlerLookup" using Cons.prems(4) by (simp add: looked_up_def)
  moreover have "\<forall>i < length ms. has_message c (int (Suc n + i)) (ms ! i) \<lparr>msg_type = ''opaque_send''\<rparr>"
    using Cons.prems(2) by fastforce
  ultimately have "fold_outcome (handle_message E c) (map int [Suc n..<Suc n + length ms]) (looked_up w) =
      Inr (if mcs = [] then looked_up w else looked_up (looked_up w))"
    using Cons.IH [of "Suc n" "looked_up w"] Cons.prems looked_up_same [OF Cons.prems(5)] by simp
  moreover have "[n..<n + length (v # ms)] = n # [Suc n..<Suc n + length ms]" by (simp add: upt_rec)
  ultimately show ?case using step looked_up_twice [OF Cons.prems(5)] by simp
qed simp

lemma send_refused:
  assumes "handleLookup w = new_HandlerLookup" and "reads_as_send (lib E) mc v"
    and "has_message c i v \<lparr>msg_type = ''opaque_send''\<rparr>" and "receiveAgId mc = []"
  shows "handle_message E c i w = throw ''Badly formatted OPAQUE_SEND message.''"
  using assms
  by (simp add: handle_message_def has_message_def getHandler_def new_HandlerLookup_def handle_def OpaqueSend_handle_def reads_as_send_def)

lemma send_messages_refused:
  assumes J: "json_doc (lib E)" and w: "no_sender w" "handleLookup w = new_HandlerLookup" "map_ok (AllAgents w)"
    and all: "list_all2 (reads_as_send (lib E)) mcs ms" "\<exists>mc \<in> set mcs. receiveAgId mc = []"
      "\<forall>i < length ms. has_message c (int (n + i)) (ms ! i) \<lparr>msg_type = ''opaque_send''\<rparr>"
  shows "fold_outcome (handle_message E c) (map int [n..<n + length ms]) w = throw ''Badly formatted OPAQUE_SEND message.''"
  using all w
proof (induction mcs ms arbitrary: n w rule: list_all2_induct)
  case (Cons mc mcs v ms)
  have v: "has_message c (int n) v \<lparr>msg_type = ''opaque_send''\<rparr>" using Cons.prems(2) by fastforce
  have upt: "[n..<n + length (v # ms)] = n # [Suc n..<Suc n + length ms]" by (simp add: upt_rec)
  show ?case
  proof (cases "receiveAgId mc = []")
    case True
    with send_refused [OF Cons.prems(4) Cons.hyps(1) v] show ?thesis unfolding upt by simp
  next
    case False
    have "handleLookup (looked_up w) = new_HandlerLookup" using Cons.prems(4) by (simp add: looked_up_def)
    moreover have "\<forall>i < length ms. has_message c (int (Suc n + i)) (ms ! i) \<lparr>msg_type = ''opaque_send''\<rparr>"
      using Cons.prems(2) by fastforce
    ultimately have "fold_outcome (handle_message E c) (map int [Suc n..<Suc n + length ms]) (looked_up w) =
        throw ''Badly formatted OPAQUE_SEND message.''"
      using Cons.IH [of "Suc n" "looked_up w"] Cons.prems False looked_up_same [OF Cons.prems(5)] by simp
    with send_message [OF J Cons.prems(3,4) Cons.hyps(1) v False] show ?thesis unfolding upt by simp
  qed
qed simp

lemma locate_message:
  assumes laws: "ns3_laws E" and ready: "all_ready E w" and lk: "handleLookup w = new_HandlerLookup"
    and msg: "getBaseMessage c 0 = Inr \<lparr>msg_type = ''all_locations''\<rparr>"
      "parseAllLocations (lib E) c 0 = Inr \<lparr>msg_type = ''all_locations'', agentLocations = locs\<rparr>"
  shows "handle_message E c 0 w = Inr (w\<lparr>history := history w @ concat (map (moves w) locs)\<rparr>)"
proof -
  obtain w' where w': "fold_outcome (locate_one E) locs w = Inr w'" using locate_all_ready [OF laws ready] by blast
  with locate_all_Inr [OF w'] msg lk show ?thesis
    by (simp add: handle_message_def getHandler_def new_HandlerLookup_def handle_def AllLocation_handle_def)
qed

lemma handle_tick:
  fixes w :: "'z broker_world_scheme"
  assumes J: "json_doc (lib E)" and laws: "ns3_laws E" and ready: "all_ready E w" and ok: "agents_ok w"
    and w: "no_sender w" "handleLookup w = new_HandlerLookup" and c: "replay_bundle (lib E) tt c"
  shows "\<forall>mc \<in> set (multicast tt). receiveAgId mc \<noteq> [] \<Longrightarrow> handle_bundle E c w =
      Inr (multicasts_looked_up tt (w\<lparr>history := history w @ concat (map (moves w) (update_agent tt))\<rparr>))"
    and "\<exists>mc \<in> set (multicast tt). receiveAgId mc = [] \<Longrightarrow>
      handle_bundle E c w = throw ''Badly formatted OPAQUE_SEND message.''"
proof -
  obtain n ms where c': "getCount c = n + length ms" "n = (if update_agent tt = [] then 0 else 1)"
      "list_all2 (reads_as_send (lib E)) (multicast tt) ms"
      "\<forall>i < length ms. has_message c (int (n + i)) (ms ! i) \<lparr>msg_type = ''opaque_send''\<rparr>"
      "update_agent tt \<noteq> [] \<longrightarrow> getBaseMessage c 0 = Inr \<lparr>msg_type = ''all_locations''\<rparr> \<and>
        parseAllLocations (lib E) c 0 = Inr \<lparr>msg_type = ''all_locations'', agentLocations = update_agent tt\<rparr>"
    using c unfolding replay_bundle_def by blast
  let ?w1 = "w\<lparr>history := history w @ concat (map (moves w) (update_agent tt))\<rparr>"
  have first: "fold_outcome (handle_message E c) (map int [0..<n]) w = Inr ?w1"
    using c'(2,5) locate_message [OF laws ready w(2)] by simp
  have numbers: "message_numbers c = map int [0..<n] @ map int [n..<n + length ms]"
    using upt_add_eq_append [of 0 n "length ms"] by (simp add: message_numbers_def c'(1))
  have handled: "handle_bundle E c w = fold_outcome (handle_message E c) (map int [n..<n + length ms]) ?w1"
    using first by (simp add: handle_bundle_def fold_outcome_append numbers)
  have w1: "no_sender ?w1" "handleLookup ?w1 = new_HandlerLookup" "map_ok (AllAgents ?w1)"
    using w ok by (simp_all add: no_sender_def known_def agents_ok_def)
  show "handle_bundle E c w = Inr (multicasts_looked_up tt ?w1)" if "\<forall>mc \<in> set (multicast tt). receiveAgId mc \<noteq> []"
    using send_messages [OF J w1 c'(3) that c'(4)] handled by (simp add: multicasts_looked_up_def)
  show "handle_bundle E c w = throw ''Badly formatted OPAQUE_SEND message.''" if "\<exists>mc \<in> set (multicast tt). receiveAgId mc = []"
    using send_messages_refused [OF J w1 c'(3) that c'(4)] handled by simp
qed

lemma process_one:
  fixes w :: "'z broker_world_scheme"
  assumes "messageList (m_incoming w) = [c]"
  shows "processIncoming E w = handle_bundle E c (w\<lparr>m_incoming := \<lparr>messageList = []\<rparr>\<rparr>)"
proof -
  have "ebind m (drain E []) = m" for m :: "'z broker_world_scheme outcome" by (cases m) simp_all
  with assms show ?thesis by (cases "m_incoming w") (simp add: processIncoming_def process_loop_drain)
qed

section \<open>One tick\<close>

definition replay_ready :: "env \<Rightarrow> rr_world \<Rightarrow> bool" where
  "replay_ready E w \<longleftrightarrow> agents_ok w \<and> all_ready E w \<and> no_sender w \<and> handleLookup w = new_HandlerLookup \<and>
     messageList (m_incoming w) = []"

lemma log_with_eq:
  "\<exists>pb. log_with (logTickBegin E a b c) w = w\<lparr>history := history w @ [ClockGet], profiler := pb\<rparr>"
  "\<exists>pb. log_with (logTickEnd E a b c) w = w\<lparr>history := history w @ [ClockGet], profiler := pb\<rparr>"
  "\<exists>pb. log_with (logSiMobilityBegin E) w = w\<lparr>history := history w @ [ClockGet], profiler := pb\<rparr>"
  "\<exists>pb. log_with (logSiMobilityEnd E) w = w\<lparr>history := history w @ [ClockGet], profiler := pb\<rparr>"
  by (auto simp: log_with_def logTickBegin_def logTickEnd_def logSiMobilityBegin_def logSiMobilityEnd_def
      logGeneric_line call_def)

text \<open>The interval after the step from position \<open>i\<close>, and what is planned.\<close>

definition next_interval :: "nat \<Rightarrow> rr_world \<Rightarrow> uint" where
  "next_interval i w =
     (if Suc i < length (trace_time_ticks w) then fst (trace_time_ticks w ! Suc i) - fst (trace_time_ticks w ! i) else interval w)"

definition plans :: "nat \<Rightarrow> rr_world \<Rightarrow> event list" where
  "plans i w = (if Suc i < length (trace_time_ticks w) then [Schedule (unat (next_interval i w))]
     else [CpuClock, ClockGet, SimulatorStop])"

lemma advance_eq:
  assumes "currTick w = Some i" and "i < length (trace_time_ticks w)"
  shows "advance w = Inr (w\<lparr>prevTick := Some i, currTick := Some (Suc i), interval := next_interval i w\<rparr>)"
proof (cases "Suc i < length (trace_time_ticks w)")
  case True
  then show ?thesis
    using assms by (simp add: advance_def at_end_def tick_at_def vec_index_def next_interval_def Let_def split: prod.split)
next
  case False
  then have "Suc i = length (trace_time_ticks w)" using assms(2) by simp
  then show ?thesis using assms(1) by (simp add: advance_def at_end_def next_interval_def)
qed

lemma next_interval_pos:
  assumes "map_ok (trace_time_ticks w)" and "Suc i < length (trace_time_ticks w) \<or> interval w \<noteq> 0"
  shows "next_interval i w \<noteq> 0"
proof (cases "Suc i < length (trace_time_ticks w)")
  case True
  then have "fst (trace_time_ticks w ! i) < fst (trace_time_ticks w ! Suc i)"
    using assms(1) sorted_wrt_nth_less [of "(<)" "map fst (trace_time_ticks w)" i "Suc i"] by (simp add: map_ok_def)
  with True show ?thesis by (simp add: next_interval_def)
next
  case False
  with assms(2) show ?thesis by (simp add: next_interval_def)
qed

lemma plan_next_eq:
  assumes "currTick w = Some (Suc i)" and "i < length (trace_time_ticks w)" and "interval w = next_interval i v"
    and "trace_time_ticks w = trace_time_ticks v"
  obtains pb e where "plan_next E w = w\<lparr>history := history w @ plans i v, end_time := e, profiler := pb\<rparr>"
proof (cases "Suc i < length (trace_time_ticks w)")
  case True
  then have "plan_next E w = w\<lparr>history := history w @ plans i v, end_time := end_time w, profiler := profiler w\<rparr>"
    using assms by (simp add: plan_next_def at_end_def plans_def call_def)
  then show thesis by (rule that)
next
  case False
  then have last: "at_end w" using assms(1,2) by (simp add: at_end_def)
  let ?w1 = "(call CpuClock w)\<lparr>end_time := Some (os_cpu E (history (call CpuClock w)))\<rparr>"
  obtain pb where "log_with (logSiMobilityEnd E) ?w1 = ?w1\<lparr>history := history ?w1 @ [ClockGet], profiler := pb\<rparr>"
    using log_with_eq(4) by blast
  with last False assms(4) have "plan_next E w = w\<lparr>history := history w @ plans i v,
      end_time := Some (os_cpu E (history (call CpuClock w))), profiler := pb\<rparr>"
    by (simp add: plan_next_def plans_def call_def Let_def)
  then show thesis by (rule that)
qed

text \<open>Up to the handling of the bundle, a \<open>pause\<close> always succeeds.\<close>

lemma rr_pause_handles:
  fixes w :: rr_world
  assumes J: "json_doc (lib E)" and laws: "ns3_laws E" and ready: "replay_ready E w"
    and i: "currTick w = Some i" "i < length (trace_time_ticks w)" "trace_time_ticks w ! i = (t, tt)"
    and tt: "writable (lib E) tt" and M: "map_ok (trace_time_ticks w)"
    and feedback: "t = 0 \<or> 10 \<le> length (trace_time_ticks w)" and iv: "Suc i < length (trace_time_ticks w) \<or> interval w \<noteq> 0"
  obtains c w3 k a where "rr_pause E w = ebind (handle_bundle E c w3) (\<lambda>w4. Inr (plan_next E (log_with (logTickEnd E k a 0) w4)))"
    and "replay_bundle (lib E) tt c" and "agents_ok w3" and "all_ready E w3" and "no_sender w3" and "handleLookup w3 = new_HandlerLookup"
    and "AllAgents w3 = AllAgents w" and "heap w3 = heap w" and "history w3 = history w @ [ClockGet]"
    and "messageList (m_incoming w3) = []" and "trace_time_ticks w3 = trace_time_ticks w" and "currTick w3 = Some (Suc i)"
    and "interval w3 = next_interval i w"
proof -
  have at: "tick_at (currTick w) w = Inr (t, tt)" using i by (simp add: tick_at_def vec_index_def)
  have fb: "feedback w = Inr ()" using at feedback by (auto simp: feedback_def)
  obtain c where push: "pushToQueue E w = Inr (w\<lparr>m_incoming := push c (m_incoming w)\<rparr>)" and c: "replay_bundle (lib E) tt c"
    using pushToQueue_tick [OF J at tt] by blast
  let ?w1 = "w\<lparr>m_incoming := push c (m_incoming w)\<rparr>"
  define w2 where "w2 = ?w1\<lparr>prevTick := Some i, currTick := Some (Suc i), interval := next_interval i w\<rparr>"
  have adv: "advance ?w1 = Inr w2" using advance_eq [of ?w1 i] i by (simp add: w2_def next_interval_def)
  have prev: "tick_at (prevTick w2) w2 = Inr (t, tt)" using i by (simp add: w2_def tick_at_def vec_index_def)
  have pos: "interval w2 \<noteq> 0" using next_interval_pos [OF M iv] by (simp add: w2_def)
  define tick agents where "tick = to_int (uint (t div interval w2))" and "agents = to_int (int (length (update_agent tt)))"
  obtain pb where w3: "log_with (logTickBegin E tick agents 0) w2 = w2\<lparr>history := history w2 @ [ClockGet], profiler := pb\<rparr>" (is "_ = ?w3")
    using log_with_eq(1) by blast
  have base: "agents_ok w" "all_ready E w" "no_sender w" "handleLookup w = new_HandlerLookup" "messageList (m_incoming w) = []"
    using ready by (simp_all add: replay_ready_def)
  define w3e where "w3e = ?w3\<lparr>m_incoming := \<lparr>messageList = []\<rparr>\<rparr>"
  have e: "AllAgents w3e = AllAgents w" "heap w3e = heap w" "history w3e = history w @ [ClockGet]" "handleLookup w3e = handleLookup w"
    by (simp_all add: w3e_def w2_def)
  have "messageList (m_incoming ?w3) = [c]" using base(5) by (simp add: w2_def push_def)
  then have "processIncoming E ?w3 = handle_bundle E c w3e" by (simp add: process_one w3e_def)
  then have pause: "rr_pause E w = ebind (handle_bundle E c w3e) (\<lambda>w4. Inr (plan_next E (log_with (logTickEnd E tick agents 0) w4)))"
    using fb push adv prev pos w3 by (simp add: rr_pause_def tick_def agents_def Let_def)
  have "agents_ok w3e" using base(1) agents_ok_cong [OF e(1,2)] by simp
  moreover have "all_ready E w3e" using all_ready_history [OF laws base(2) e(1,2)] e(3) by blast
  moreover have "no_sender w3e" using base(3) by (simp add: no_sender_def known_def e)
  ultimately show thesis
    by (rule that [OF pause c]) (use base(4) e in \<open>simp_all add: w3e_def w2_def\<close>)
qed

lemma rr_pause_tick:
  fixes w :: rr_world
  assumes J: "json_doc (lib E)" and laws: "ns3_laws E" and ready: "replay_ready E w"
    and i: "currTick w = Some i" "i < length (trace_time_ticks w)" "trace_time_ticks w ! i = (t, tt)"
    and tt: "replayable (lib E) tt" and M: "map_ok (trace_time_ticks w)"
    and feedback: "t = 0 \<or> 10 \<le> length (trace_time_ticks w)" and iv: "Suc i < length (trace_time_ticks w) \<or> interval w \<noteq> 0"
  obtains w' where "rr_pause E w = Inr w'" and "replay_ready E w'" and "trace_time_ticks w' = trace_time_ticks w"
    and "currTick w' = Some (Suc i)" and "interval w' = next_interval i w" and "moves w' = moves w" and "known w' = known w"
    and "history w' = history w @ [ClockGet] @ concat (map (moves w) (update_agent tt)) @ [ClockGet] @ plans i w"
proof -
  have wr: "writable (lib E) tt" and mcs: "\<forall>mc \<in> set (multicast tt). receiveAgId mc \<noteq> []" using tt by (simp_all add: replayable_def)
  obtain c w3 k a where pause: "rr_pause E w = ebind (handle_bundle E c w3) (\<lambda>w4. Inr (plan_next E (log_with (logTickEnd E k a 0) w4)))"
    and c: "replay_bundle (lib E) tt c" and w3: "agents_ok w3" "all_ready E w3" "no_sender w3" "handleLookup w3 = new_HandlerLookup"
    and e: "AllAgents w3 = AllAgents w" "heap w3 = heap w" "history w3 = history w @ [ClockGet]"
    and f3: "messageList (m_incoming w3) = []" "trace_time_ticks w3 = trace_time_ticks w" "currTick w3 = Some (Suc i)"
      "interval w3 = next_interval i w"
    using rr_pause_handles [OF J laws ready i wr M feedback iv] by blast
  have base: "agents_ok w" "all_ready E w" "no_sender w" using ready by (simp_all add: replay_ready_def)
  then have Mg: "map_ok (AllAgents w)" by (simp add: agents_ok_def)
  let ?m = "concat (map (moves w) (update_agent tt))"
  have moves3: "moves w3 = moves w"
    by (simp add: fun_eq_iff moves_def e cong: option.case_cong)
  define w3m where "w3m = w3\<lparr>history := history w3 @ ?m\<rparr>"
  define w4 where "w4 = multicasts_looked_up tt w3m"
  have "handle_bundle E c w3 = Inr w4"
    using handle_tick(1) [OF J laws w3(2,1,3,4) c mcs] by (simp add: w4_def w3m_def moves3)
  moreover obtain pb' where w5: "log_with (logTickEnd E k a 0) w4 = w4\<lparr>history := history w4 @ [ClockGet], profiler := pb'\<rparr>" (is "_ = ?w5")
    using log_with_eq(2) by blast
  ultimately have pause: "rr_pause E w = Inr (plan_next E ?w5)" using pause by simp
  have f4: "trace_time_ticks w4 = trace_time_ticks w" "currTick w4 = Some (Suc i)" "interval w4 = next_interval i w"
      "messageList (m_incoming w4) = []" "handleLookup w4 = new_HandlerLookup" "history w4 = history w @ [ClockGet] @ ?m"
    using f3 w3(4) e(3) by (simp_all add: w4_def w3m_def multicasts_looked_up_def looked_up_def)
  have m: "AllAgents w3m = AllAgents w" "heap w3m = heap w" "\<exists>h. history w3m = history w @ h"
    using e by (simp_all add: w3m_def)
  have "moves w3m = moves w" "known w3m = known w"
    by (simp_all add: fun_eq_iff moves_def known_def m cong: option.case_cong)
  moreover have "agents_ok w3m" using base(1) agents_ok_cong [OF m(1,2)] by simp
  moreover have "all_ready E w3m" using all_ready_history [OF laws base(2) m] .
  moreover have "no_sender w3m" using base(3) calculation(2) by (simp add: no_sender_def)
  ultimately have g4: "moves w4 = moves w" "known w4 = known w" "agents_ok w4" "all_ready E w4" "no_sender w4"
    using looked_up_same [of w3m] Mg m(1) by (simp_all add: w4_def multicasts_looked_up_def)
  obtain pb'' e' where w6: "plan_next E ?w5 = ?w5\<lparr>history := history ?w5 @ plans i w, end_time := e', profiler := pb''\<rparr>" (is "_ = ?w6")
    by (rule plan_next_eq [of ?w5 i w E]) (use f4 i(2) in simp_all)
  have h: "AllAgents ?w6 = AllAgents w4" "heap ?w6 = heap w4" "\<exists>h. history ?w6 = history w4 @ h" by simp_all
  have mv: "moves ?w6 = moves w" "known ?w6 = known w"
    using g4(1,2) by (simp_all add: fun_eq_iff moves_def known_def cong: option.case_cong)
  have "agents_ok ?w6" using g4(3) agents_ok_cong [OF h(1,2)] by simp
  moreover have "all_ready E ?w6" using all_ready_history [OF laws g4(4) h] .
  moreover have "no_sender ?w6" using base(3) unfolding no_sender_def mv(2) .
  ultimately show thesis using pause w6 f4 mv by (intro that [of ?w6]) (simp_all add: replay_ready_def)
qed

section \<open>All ticks\<close>

text \<open>The positions set, the delays planned and the number of stops in a history.\<close>

fun placed :: "history \<Rightarrow> event list" where
  "placed [] = []"
| "placed (PositionSet n v # h) = PositionSet n v # placed h"
| "placed (_ # h) = placed h"

fun planned :: "history \<Rightarrow> nat list" where
  "planned [] = []"
| "planned (Schedule d # h) = d # planned h"
| "planned (_ # h) = planned h"

definition halts :: "history \<Rightarrow> nat" where
  "halts h = count_list h SimulatorStop"

lemma placed_append [simp]: "placed (h @ h') = placed h @ placed h'"
  by (induction h rule: placed.induct) simp_all

lemma planned_append [simp]: "planned (h @ h') = planned h @ planned h'"
  by (induction h rule: planned.induct) simp_all

lemma halts_append [simp]: "halts (h @ h') = halts h + halts h'"
  by (simp add: halts_def)

definition tick_moves :: "rr_world \<Rightarrow> TimeTick \<Rightarrow> event list" where
  "tick_moves w tt = concat (map (moves w) (update_agent tt))"

lemma moves_are_moves: "placed (moves w it) = moves w it" "planned (moves w it) = []" "halts (moves w it) = 0" "sends (moves w it) = []"
  by (auto simp: moves_def halts_def split: option.split)

lemma tick_moves_are_moves:
  "placed (tick_moves w tt) = tick_moves w tt" "planned (tick_moves w tt) = []" "halts (tick_moves w tt) = 0" "sends (tick_moves w tt) = []"
proof -
  have "placed (concat (map (moves w) its)) = concat (map (moves w) its) \<and> planned (concat (map (moves w) its)) = [] \<and>
      halts (concat (map (moves w) its)) = 0 \<and> sends (concat (map (moves w) its)) = []" for its
    by (induction its) (simp_all add: moves_are_moves sends_append, simp add: halts_def)
  then show "placed (tick_moves w tt) = tick_moves w tt" "planned (tick_moves w tt) = []" "halts (tick_moves w tt) = 0"
      "sends (tick_moves w tt) = []"
    unfolding tick_moves_def by blast+
qed

text \<open>The delays between consecutive ticks of the table.\<close>

definition delay :: "rr_world \<Rightarrow> nat \<Rightarrow> nat" where
  "delay w j = unat (fst (trace_time_ticks w ! Suc j) - fst (trace_time_ticks w ! j))"

lemma rr_run_from:
  fixes w :: rr_world
  assumes J: "json_doc (lib E)" and laws: "ns3_laws E" and M: "map_ok (trace_time_ticks w)"
    and ticks: "\<forall>tt \<in> snd ` set (trace_time_ticks w). replayable (lib E) tt" "10 \<le> length (trace_time_ticks w)"
    and "replay_ready E w" and "currTick w = Some i" and "i + k = length (trace_time_ticks w)"
    and "k = 1 \<longrightarrow> interval w \<noteq> 0"
  shows "\<exists>w'. rr_run E k w = Inr w' \<and> replay_ready E w' \<and> at_end w' \<and> known w' = known w \<and>
    placed (history w') = placed (history w) @ concat (map (tick_moves w \<circ> snd) (drop i (trace_time_ticks w))) \<and>
    planned (history w') = planned (history w) @ map (delay w) [i..<i + k - 1] \<and>
    halts (history w') = halts (history w) + min k 1 \<and> sends (history w') = sends (history w) \<and>
    (\<exists>h. history w' = history w @ h)"
  using assms(3-)
proof (induction k arbitrary: i w)
  case 0
  then show ?case by (simp add: at_end_def)
next
  case (Suc k)
  let ?T = "trace_time_ticks w"
  have i: "i < length ?T" using Suc.prems(6) by simp
  obtain t tt where tt: "?T ! i = (t, tt)" by (cases "?T ! i")
  then have "tt \<in> snd ` set ?T" using nth_mem [OF i] by (metis image_eqI snd_conv)
  then have rep: "replayable (lib E) tt" using Suc.prems(2) by blast
  have iv: "Suc i < length ?T \<or> interval w \<noteq> 0" using Suc.prems(6,7) by (cases k) auto
  obtain w1 where w1: "rr_pause E w = Inr w1" "replay_ready E w1" "trace_time_ticks w1 = ?T" "currTick w1 = Some (Suc i)"
      "interval w1 = next_interval i w" "moves w1 = moves w" "known w1 = known w"
      "history w1 = history w @ [ClockGet] @ tick_moves w tt @ [ClockGet] @ plans i w"
    using rr_pause_tick [OF J laws Suc.prems(4,5) i tt rep Suc.prems(1) _ iv] Suc.prems(3) unfolding tick_moves_def by blast
  have same: "tick_moves w1 = tick_moves w" "delay w1 = delay w"
    by (intro ext, simp only: tick_moves_def w1(6)) (intro ext, simp only: delay_def w1(3))
  have "k = 1 \<longrightarrow> interval w1 \<noteq> 0"
    using next_interval_pos [OF Suc.prems(1) iv] w1(5) by simp
  then obtain w' where w': "rr_run E k w1 = Inr w'" "replay_ready E w'" "at_end w'" "known w' = known w1"
      "placed (history w') = placed (history w1) @ concat (map (tick_moves w \<circ> snd) (drop (Suc i) ?T))"
      "planned (history w') = planned (history w1) @ map (delay w) [Suc i..<Suc i + k - 1]"
      "halts (history w') = halts (history w1) + min k 1" "sends (history w') = sends (history w1)"
      "\<exists>h. history w' = history w1 @ h"
    using Suc.IH [of w1 "Suc i"] Suc.prems w1(2-4) unfolding same w1(3) by (auto simp: comp_def)
  have drop: "drop i ?T = (t, tt) # drop (Suc i) ?T" using i tt by (metis Cons_nth_drop_Suc)
  have plan: "placed (plans i w) = []" "planned (plans i w) = map (delay w) (if k = 0 then [] else [i])"
      "halts (plans i w) = (if k = 0 then 1 else 0)" "sends (plans i w) = []"
    using Suc.prems(6) by (auto simp: plans_def halts_def next_interval_def delay_def)
  have upt: "(if k = 0 then [] else [i]) @ [Suc i..<Suc i + k - 1] = [i..<i + Suc k - 1]"
    by (cases k) (simp_all add: upt_rec)
  have "planned (history w') = planned (history w) @ map (delay w) [i..<i + Suc k - 1]"
    unfolding w'(6) w1(8) upt [symmetric] by (simp add: tick_moves_are_moves plan(2) del: upt_Suc)
  moreover have "placed (history w') = placed (history w) @ concat (map (tick_moves w \<circ> snd) (drop i ?T))"
    unfolding w'(5) w1(8) by (simp add: tick_moves_are_moves plan drop)
  moreover have "halts (history w') = halts (history w) + min (Suc k) 1"
    unfolding w'(7) w1(8) using plan(3) tick_moves_are_moves(3) [of w tt] by (simp add: halts_def)
  moreover have "sends (history w') = sends (history w)"
    unfolding w'(8) w1(8) by (simp add: sends_append tick_moves_are_moves plan)
  moreover have "\<exists>h. history w' = history w @ h" using w'(9) w1(8) by auto
  ultimately show ?case using w1(1,7) w'(1-4) by (intro exI [of _ w']) (simp add: comp_def)
qed

section \<open>From the start\<close>

lemma createNodes_cases:
  fixes w :: rr_world
  assumes laws: "ns3_laws E" "ns3_one_each E" and ok: "trace_ok w" and "RRNC w = []" and "AllAgents w = []"
    and "protocol w = ''80211b'' \<or> protocol w = ''80211p''"
  shows "length (agentsList w) \<noteq> unat (maxNOFAgents w) \<Longrightarrow> createNodes E w = Inl Undefined"
    and "length (agentsList w) = unat (maxNOFAgents w) \<Longrightarrow> \<exists>w'. createNodes E w = Inr w' \<and> agents_ok w' \<and> all_ready E w' \<and>
    (\<forall>k. known w' k \<longleftrightarrow> k \<in> set (agentsList w)) \<and> m_incoming w' = m_incoming w \<and> handleLookup w' = handleLookup w \<and>
    trace_time_ticks w' = trace_time_ticks w \<and> agentsList w' = agentsList w \<and> interval w' = interval w"
proof -
  obtain w7 ifs where w7: "createNodes E w = fold_outcome (attach_agent E ifs) [0..<length (RRNC w7)] w7"
      "length (RRNC w7) = unat (maxNOFAgents w)" "length ifs = unat (maxNOFAgents w)"
      "\<forall>nd \<in> set (RRNC w7). ns_has_mobility E (history w7) nd" "agents_ok w7" "all_ready E w7" "AllAgents w7 = []"
      "w7 = w\<lparr>RRNC := RRNC w7, history := history w7\<rparr>"
    using createNodes_prepared [OF laws assms(6,4,5)] by metis
  have same: "agentsList w7 = agentsList w" "m_incoming w7 = m_incoming w" "handleLookup w7 = handleLookup w"
      "trace_time_ticks w7 = trace_time_ticks w" "interval w7 = interval w"
    by (subst w7(8); simp)+
  have ids: "distinct (agentsList w7)" "length (agentsList w7) \<le> unat (maxNOFAgents w)"
    using ok strict_sorted_iff by (auto simp: trace_ok_def same)
  show "createNodes E w = Inl Undefined" if "length (agentsList w) \<noteq> unat (maxNOFAgents w)"
  proof -
    have less: "length (agentsList w7) < length (RRNC w7)" "length (agentsList w7) \<le> length ifs" using that ids(2) w7(2,3) same by simp_all
    show ?thesis unfolding w7(1) using attach_past_end [OF laws(1) less w7(4-6) ids(1) w7(7)] .
  qed
  show "\<exists>w'. createNodes E w = Inr w' \<and> agents_ok w' \<and> all_ready E w' \<and>
    (\<forall>k. known w' k \<longleftrightarrow> k \<in> set (agentsList w)) \<and> m_incoming w' = m_incoming w \<and> handleLookup w' = handleLookup w \<and>
    trace_time_ticks w' = trace_time_ticks w \<and> agentsList w' = agentsList w \<and> interval w' = interval w"
    if len: "length (agentsList w) = unat (maxNOFAgents w)"
  proof -
    obtain v where v: "fold_outcome (attach_agent E ifs) [0..<length (RRNC w7)] w7 = Inr v" "agents_ok v" "all_ready E v"
        "agent_world.more v = agent_world.more w7" "\<forall>k. known v k \<longleftrightarrow> k \<in> set (take (length (RRNC w7)) (agentsList w7))"
      using attach_loop [OF laws(1), of "length (RRNC w7)" w7 ifs] w7(2-7) len ids(1) same by auto
    have "createNodes E w = Inr v" unfolding w7(1) by (rule v(1))
    with v len w7(2) same rr_same [OF v(4)] show ?thesis by (intro exI [of _ v]) simp
  qed
qed

lemma new_rr_fields:
  assumes "new_RoadRunnerBaseLine E h prot n out no_comm no_loc = Inr w"
  shows "AllAgents w = []" and "RRNC w = []" and "agent_limit w = []" and "agentsList w = []" and "interval w = 0"
    and "m_incoming w = new_ThreadSafeQueue" and "handleLookup w = new_HandlerLookup" and "maxNOFAgents w = n" and "protocol w = prot"
  using assms
  by (auto simp: new_RoadRunnerBaseLine_def outcome_simps new_Broker_def InitLogFile_def Let_def call_def
      broker_world.defs split: if_splits)

definition rr_ready :: "env \<Rightarrow> rr_world \<Rightarrow> bool" where
  "rr_ready E w \<longleftrightarrow> agents_ok w \<and> all_ready E w \<and> handleLookup w = new_HandlerLookup \<and> messageList (m_incoming w) = [] \<and>
     (\<forall>k. known w k \<longleftrightarrow> k \<in> set (agentsList w)) \<and> map_ok (trace_time_ticks w) \<and> currTick w = Some 0 \<and> interval w = 0"

lemma rr_starts:
  assumes laws: "ns3_laws E" "ns3_one_each E" and new: "new_RoadRunnerBaseLine E h prot n out no_comm no_loc = Inr w0"
    and prot: "prot = ''80211b'' \<or> prot = ''80211p''" and parse: "parse E B f w0 = Inr w1"
  shows "length (agentsList w1) \<noteq> unat n \<Longrightarrow> rr_start E B f w0 = Inl Undefined"
    and "length (agentsList w1) = unat n \<Longrightarrow> \<exists>w. rr_start E B f w0 = Inr (True, w) \<and> rr_ready E w \<and>
      trace_time_ticks w = trace_time_ticks w1 \<and> agentsList w = agentsList w1"
proof -
  note f0 = new_rr_fields [OF new]
  have "trace_ok w1 \<and> trace_only (w0\<lparr>history := history w0 @ [Sleep 2, TraceOpen f]\<rparr>) w1"
    using parse f0(3,4) by (rule parse_Inr) blast
  then have ok1: "trace_ok w1" and f1: "AllAgents w1 = []" "RRNC w1 = []" "interval w1 = 0" "maxNOFAgents w1 = n"
      "m_incoming w1 = new_ThreadSafeQueue" "handleLookup w1 = new_HandlerLookup" "protocol w1 = prot"
    using f0 by (auto dest: trace_only_same)
  note nodes = createNodes_cases [OF laws ok1 f1(2,1), unfolded f1(4,7), OF prot]
  show "rr_start E B f w0 = Inl Undefined" if "length (agentsList w1) \<noteq> unat n"
    using nodes(1) [OF that] parse by (simp add: rr_start_def)
  show "\<exists>w. rr_start E B f w0 = Inr (True, w) \<and> rr_ready E w \<and>
      trace_time_ticks w = trace_time_ticks w1 \<and> agentsList w = agentsList w1" if len: "length (agentsList w1) = unat n"
  proof -
    obtain w2 where w2: "createNodes E w1 = Inr w2" and f2: "agents_ok w2" "all_ready E w2" "\<forall>k. known w2 k \<longleftrightarrow> k \<in> set (agentsList w1)"
        "m_incoming w2 = m_incoming w1" "handleLookup w2 = handleLookup w1" "trace_time_ticks w2 = trace_time_ticks w1"
        "agentsList w2 = agentsList w1" "interval w2 = interval w1"
      using nodes(2) [OF len] by blast
    let ?w3 = "w2\<lparr>prevTick := Some (length (trace_time_ticks w2)), currTick := Some 0\<rparr>"
    obtain pb where pb: "log_with (logSiMobilityBegin E) ?w3 = ?w3\<lparr>history := history ?w3 @ [ClockGet], profiler := pb\<rparr>"
      using log_with_eq(3) by blast
    define w where "w = (let w4 = call CpuClock (log_with (logSiMobilityBegin E) ?w3);
         w5 = w4\<lparr>start_time := Some (os_cpu E (history w4))\<rparr> in call (Schedule 0) w5)"
    have "rr_start E B f w0 = Inr (True, w)" using parse w2 by (simp add: rr_start_def w_def Let_def)
    moreover have w': "AllAgents w = AllAgents w2" "heap w = heap w2" "\<exists>h. history w = history w2 @ h" "handleLookup w = handleLookup w2"
        "m_incoming w = m_incoming w2" "agentsList w = agentsList w2" "trace_time_ticks w = trace_time_ticks w2"
        "currTick w = Some 0" "interval w = interval w2"
      using pb by (simp_all add: w_def Let_def call_def)
    have "agents_ok w" using f2(1) agents_ok_cong [OF w'(1,2)] by simp
    moreover have "all_ready E w" using all_ready_history [OF laws(1) f2(2) w'(1-3)] .
    moreover have "known w = known w2" by (simp add: fun_eq_iff known_def w'(1))
    ultimately show ?thesis using w' f2 f1 ok1
      by (intro exI [of _ w]) (simp add: rr_ready_def new_ThreadSafeQueue_def trace_ok_def)
  qed
qed

lemma rr_ready_replay: "rr_ready E w \<Longrightarrow> ''987654321'' \<notin> set (agentsList w) \<Longrightarrow> replay_ready E w"
  by (simp add: rr_ready_def replay_ready_def no_sender_def)

section \<open>Traces that are too short\<close>

lemma short_trace_stops:
  fixes w :: rr_world
  assumes J: "json_doc (lib E)" and laws: "ns3_laws E" and ready: "rr_ready E w" and no: "''987654321'' \<notin> set (agentsList w)"
    and ticks: "\<forall>tt \<in> snd ` set (trace_time_ticks w). replayable (lib E) tt" and short: "length (trace_time_ticks w) < 10"
  shows "rr_run E 2 w = Inl Undefined"
proof -
  let ?T = "trace_time_ticks w"
  have w: "currTick w = Some 0" "map_ok ?T" "interval w = 0" using ready by (simp_all add: rr_ready_def)
  have "rr_run E (Suc 0) v = rr_pause E v" for v by (cases "rr_pause E v") simp_all
  then have two: "rr_run E 2 w = ebind (rr_pause E w) (rr_pause E)"
    by (cases "rr_pause E w") (simp_all add: numeral_2_eq_2 del: rr_run.simps(2), simp_all)
  show ?thesis
  proof (cases ?T)
    case Nil
    then have "feedback w = Inl Undefined" using w(1) by (simp add: feedback_def tick_at_def vec_index_def)
    then show ?thesis by (simp add: two rr_pause_def)
  next
    case (Cons x T)
    obtain t tt where x: "x = (t, tt)" by (cases x)
    have at: "tick_at (currTick w) w = Inr (t, tt)" using w(1) Cons x by (simp add: tick_at_def vec_index_def)
    show ?thesis
    proof (cases "0 < t")
      case True
      then have "feedback w = Inl Undefined" using at short by (simp add: feedback_def)
      then show ?thesis by (simp add: two rr_pause_def)
    next
      case False
      then have t: "t = 0" using word_neq_0_conv [of t] by blast
      have tt: "replayable (lib E) tt" using ticks Cons x by simp
      show ?thesis
      proof (cases T)
        case Nil
        obtain c where push: "pushToQueue E w = Inr (w\<lparr>m_incoming := push c (m_incoming w)\<rparr>)"
          using pushToQueue_tick [OF J at] tt by (auto simp: replayable_def)
        let ?w1 = "w\<lparr>m_incoming := push c (m_incoming w)\<rparr>"
        have "advance ?w1 = Inr (?w1\<lparr>prevTick := Some 0, currTick := Some 1, interval := 0\<rparr>)"
          using advance_eq [of ?w1 0] w Cons Nil by (simp add: next_interval_def)
        then have "rr_pause E w = Inl Undefined"
          using at t push Cons x by (simp add: rr_pause_def feedback_def tick_at_def vec_index_def)
        then show ?thesis by (simp add: two)
      next
        case (Cons y T')
        obtain t' tt' where y: "y = (t', tt')" by (cases y)
        note T = \<open>?T = x # T\<close> [unfolded Cons x y]
        have "0 < t'" using w(2) t unfolding T by (simp add: map_ok_def)
        obtain w1 where w1: "rr_pause E w = Inr w1" "trace_time_ticks w1 = ?T" "currTick w1 = Some (Suc 0)"
          using rr_pause_tick [OF J laws rr_ready_replay [OF ready no] w(1), of t tt] T t tt w(2) by auto
        have "feedback w1 = Inl Undefined"
          using w1(2,3) short \<open>0 < t'\<close> T by (simp add: feedback_def tick_at_def vec_index_def)
        then show ?thesis using w1(1) by (simp add: two rr_pause_def)
      qed
    qed
  qed
qed

end
