(* ===== verification/RR_Props.thy ===== *)
theory RR_Props
  imports RR_Replay
begin

text \<open>
  The properties of the baseline: from a trace file to the nodes, and from the first tick to
  the last, with the traces on which it fails.
\<close>

section \<open>A trace to replay\<close>

definition loc_value :: json where
  "loc_value = objectValue [(''msg_type'', stringValue ''all_locations''),
     (''locations'', arrayValue [objectValue [(''id'', stringValue ''a''), (''x'', realValue 1), (''y'', realValue 2)]])]"

definition send_value :: "string list \<Rightarrow> json" where
  "send_value rs = objectValue ([(''msg_type'', stringValue ''opaque_send''), (''from_id'', stringValue ''987654321''),
     (''format'', stringValue ''base64escape''), (''tech'', stringValue ''dsrc''), (''data'', stringValue ''d'')] @
     (if rs = [] then [] else [(''to_ids'', arrayValue (map stringValue rs))]) @ [(''broadcast'', booleanValue (rs = []))])"

text \<open>A library whose reader knows the texts of these messages.\<close>

definition rr_lib :: jsonlib where
  "rr_lib = demo_json (map_of (map (\<lambda>v. (value_text demo_lib v, v)) [loc_value, send_value [''b''], send_value []]))"

lemma render_scalars:
  "js_quote J = js_quote K \<Longrightarrow> js_int J = js_int K \<Longrightarrow> js_uint J = js_uint K \<Longrightarrow> js_real J = js_real K \<Longrightarrow>
     js_bool J = js_bool K \<Longrightarrow> render J y v = render K y v"
proof (induction J y v rule: render.induct)
  case (7 J y vs)
  then have "map (render J y) vs = map (render K y) vs" by simp
  then show ?case by (simp only: render.simps)
next
  case (8 J y kvs)
  then have "map (\<lambda>(k, v). js_quote J (c_str k) @ (if y then '': '' else '':'') @ render J y v) kvs =
      map (\<lambda>(k, v). js_quote K (c_str k) @ (if y then '': '' else '':'') @ render K y v) kvs" by auto
  then show ?case by (simp only: render.simps)
qed simp_all

lemma rr_text: "value_text rr_lib v = value_text demo_lib v"
proof -
  have "render rr_lib False v = render demo_lib False v"
    by (rule render_scalars) (simp_all add: rr_lib_def demo_lib_def demo_json_def)
  then show ?thesis by (simp add: write_line_render)
qed

abbreviation "rr_E ls \<equiv> trace_env rr_lib ls"

lemma rr_env: "json_doc (lib (rr_E ls))" "ns3_laws (rr_E ls)" "ns3_one_each (rr_E ls)" "lib (rr_E ls) = rr_lib"
  using demo_env_laws demo_env_one_each
  by (simp_all add: trace_env_def ns3_laws_def ns3_one_each_def demo_env_def rr_lib_def demo_json_doc)

definition tick0 :: "string list \<Rightarrow> TimeTick" where
  "tick0 rs = \<lparr>add_agent = [''a'', ''b''], update_agent = [(''a'', \<lparr>dp_x = 1, dp_y = 2\<rparr>)],
     multicast = [\<lparr>sendAgId = ''a'', receiveAgId = rs, mcData = ''d''\<rparr>]\<rparr>"

lemma texts_differ: "value_text demo_lib loc_value \<noteq> value_text demo_lib (send_value rs)"
  "value_text demo_lib (send_value [''b'']) \<noteq> value_text demo_lib (send_value [])"
  by (simp_all add: write_line_render loc_value_def send_value_def demo_lib_def demo_json_def c_str_def)

lemma tick0_values: "rs = [] \<or> rs = [''b''] \<Longrightarrow> tick_values rr_lib (tick0 rs) = Inr [loc_value, send_value rs]"
  by (auto simp: tick_values_def tick0_def all_locations_value_def set_all_def location_step_def append_at_def append_all_def
      rr_lib_def demo_json_def loc_value_def opaque_send_value_def send_value_def)

lemma tick0_writable: "rs = [] \<or> rs = [''b''] \<Longrightarrow> writable rr_lib (tick0 rs)"
proof -
  assume rs: "rs = [] \<or> rs = [''b'']"
  have "js_parse rr_lib (value_text rr_lib v) = Some v" if "v = loc_value \<or> v = send_value rs" for v
    using that rs texts_differ texts_differ(1) [THEN not_sym] unfolding rr_text by (auto simp: rr_lib_def demo_json_def)
  moreover have "length (value_text rr_lib loc_value) < 200" "length (value_text rr_lib (send_value rs)) < 200"
    unfolding rr_text using rs by (auto simp: write_line_render loc_value_def send_value_def demo_lib_def demo_json_def c_str_def show_base.simps
        NEW_BUNDLES_def)
  ultimately show ?thesis
    unfolding writable_def tick0_values [OF rs]
    by (simp add: tick0_def bundle_fits_def map_ok_def)
qed

lemma empty_tick: "replayable rr_lib new_TimeTick"
  by (simp add: replayable_def writable_def tick_values_def new_TimeTick_def bundle_fits_def)

section \<open>Starting the demonstration\<close>

text \<open>Two agents; in the first tick one moves and sends to the given recipients, the other ticks are empty.\<close>

definition some_ticks :: "string list \<Rightarrow> nat list \<Rightarrow> trace_line list" where
  "some_ticks rs ts =
     [TickLine 0, AddLine 0 ''a'', AddLine 0 ''b'', UpdateLine 0 ''a'' ''1'' ''2'', MulticastLine 0 ''a'' rs ''d''] @ map TickLine ts"

abbreviation ten :: "nat list" where
  "ten \<equiv> [100, 200, 300, 400, 500, 600, 700, 800, 900]"

lemma some_ticks_ok:
  assumes "rs = [] \<or> rs = [''b'']" and "ts = [] \<or> ts = ten"
  shows "\<forall>l \<in> set (some_ticks rs ts). line_ok demo_boost l"
proof -
  have short: "length (show_dec n) \<le> Suc n" for n
    by (induction "10 :: nat" n rule: show_base.induct) (subst show_base.simps, fastforce)
  have "length (show_dec n) < 2 ^ 63" if "n < 2 ^ 32" for n
    using that le_less_trans [OF short [of n], of "2 ^ 63"] by simp
  then have "line_ok demo_boost (TickLine n)" if "n < 2 ^ 32" for n
    using that by (simp add: line_ok_def show_dec_plain)
  moreover have "line_ok demo_boost (AddLine 0 ''a'')" "line_ok demo_boost (AddLine 0 ''b'')"
      "line_ok demo_boost (UpdateLine 0 ''a'' ''1'' ''2'')" "line_ok demo_boost (MulticastLine 0 ''a'' rs ''d'')"
    using assms(1) by (auto simp: line_ok_def demo_boost_def time_token_def show_base.simps digit_plain [THEN conjunct2, THEN not_sym])
  ultimately show ?thesis using assms(2) by (auto simp: some_ticks_def)
qed

lemma rr_parsed:
  assumes "rs = [] \<or> rs = [''b'']" and "ts = [] \<or> ts = ten"
  obtains w1 where "parse (rr_E (some_ticks rs ts)) demo_boost f (demo_rr_at h) = Inr w1" and "agentsList w1 = [''a'', ''b'']"
    and "trace_time_ticks w1 = (0, tick0 rs) # map (\<lambda>t. (of_nat t, new_TimeTick)) ts"
proof -
  let ?w = "(demo_rr_at h)\<lparr>trace_time_ticks := [], history := history (demo_rr_at h) @ [Sleep 2, TraceOpen f]\<rparr>"
  let ?w1 = "fold (line_effect demo_boost) (some_ticks rs ts) ?w"
  have "types_known ?w" using demo_rr_simps(1) by (simp add: types_known_def)
  from parse_texts [OF demo_boost_doc some_ticks_ok [OF assms] this]
  have p: "parse (rr_E (some_ticks rs ts)) demo_boost f (demo_rr_at h) = Inr ?w1"
    by (simp add: parse_def trace_env_def call_def Let_def)
  have "dec_value ''1'' = 1" "dec_value ''2'' = 2" by (simp_all add: dec_value_def horner_def)
  then have "agentsList ?w1 = [''a'', ''b'']" "trace_time_ticks ?w1 = (0, tick0 rs) # map (\<lambda>t. (of_nat t, new_TimeTick)) ts"
    using assms(2) by (auto simp: some_ticks_def demo_rr_simps change_tick_def add_line_def Let_def tick0_def new_TimeTick_def demo_boost_def)
  with p show thesis by (rule that)
qed

lemma rr_demo:
  assumes "rs = [] \<or> rs = [''b'']" and "ts = [] \<or> ts = ten"
  obtains w where "rr_start (rr_E (some_ticks rs ts)) demo_boost ''trace'' demo_rr = Inr (True, w)"
    and "rr_ready (rr_E (some_ticks rs ts)) w" and "''987654321'' \<notin> set (agentsList w)"
    and "trace_time_ticks w = (0, tick0 rs) # map (\<lambda>t. (of_nat t, new_TimeTick)) ts"
proof -
  obtain w1 where w1: "parse (rr_E (some_ticks rs ts)) demo_boost ''trace'' demo_rr = Inr w1" "agentsList w1 = [''a'', ''b'']"
      "trace_time_ticks w1 = (0, tick0 rs) # map (\<lambda>t. (of_nat t, new_TimeTick)) ts"
    using rr_parsed [OF assms] by blast
  have "length (agentsList w1) = unat (2 :: uint)" using w1(2) by simp
  then obtain w where "rr_start (rr_E (some_ticks rs ts)) demo_boost ''trace'' demo_rr = Inr (True, w)"
      "rr_ready (rr_E (some_ticks rs ts)) w" "trace_time_ticks w = trace_time_ticks w1" "agentsList w = agentsList w1"
    using rr_starts(2) [OF rr_env(2,3) demo_rr _ w1(1)] by blast
  then show thesis using w1(2,3) by (intro that [of w]) simp_all
qed

section \<open>Properties\<close>

text \<open>
  C30: the start of the baseline, once the trace is read. If it announces as many agents as were
  asked for, \<open>start\<close> returns true with all of them known, well-formed and ready, and the first
  tick next; if it announces fewer, which \<open>parse\<close> only remarks on as too low, the loop
  over the nodes dereferences the end of the set of agents.
\<close>

theorem baseline_starts:
  assumes "ns3_laws E" and "ns3_one_each E" and "new_RoadRunnerBaseLine E h prot n out no_comm no_loc = Inr w0"
    and "prot = ''80211b'' \<or> prot = ''80211p''" and "parse E B f w0 = Inr w1"
  shows "if length (agentsList w1) = unat n
    then \<exists>w. rr_start E B f w0 = Inr (True, w) \<and> rr_ready E w \<and> trace_time_ticks w = trace_time_ticks w1 \<and> agentsList w = agentsList w1
    else rr_start E B f w0 = Inl Undefined"
  using rr_starts [OF assms] by simp

theorem baseline_starts_witness:
  "\<exists>w. rr_start (rr_E (some_ticks [''b''] ten)) demo_boost ''trace'' demo_rr = Inr (True, w) \<and>
     rr_ready (rr_E (some_ticks [''b''] ten)) w \<and> agentsList w = [''a'', ''b'']"
proof -
  obtain w1 where w1: "parse (rr_E (some_ticks [''b''] ten)) demo_boost ''trace'' demo_rr = Inr w1" "agentsList w1 = [''a'', ''b'']"
    using rr_parsed [of "[''b'']" ten "''trace''" "[]"] by blast
  then show ?thesis using baseline_starts [OF rr_env(2,3) demo_rr _ w1(1)] by auto
qed

text \<open>
  C21: the replay of a trace completes. From the state that \<open>start\<close> leaves, with at least ten ticks
  whose messages fit a bundle and are read back as they were written, and a recipient for
  every multicast, \<open>pause\<close> succeeds once for every tick. It sets exactly the positions of the
  trace, in order; plans exactly the delays between the ticks; and stops the simulator once,
  at the end. But it sends nothing: every multicast names the sender 987654321.
\<close>

theorem replay_completes:
  assumes "json_doc (lib E)" and "ns3_laws E" and "rr_ready E w" and "''987654321'' \<notin> set (agentsList w)"
    and "\<forall>tt \<in> snd ` set (trace_time_ticks w). replayable (lib E) tt" and "10 \<le> length (trace_time_ticks w)"
  shows "\<exists>w'. rr_run E (length (trace_time_ticks w)) w = Inr w' \<and> replay_ready E w' \<and> at_end w' \<and> known w' = known w \<and>
    placed (history w') = placed (history w) @ concat (map (tick_moves w \<circ> snd) (trace_time_ticks w)) \<and>
    planned (history w') = planned (history w) @ map (delay w) [0..<length (trace_time_ticks w) - 1] \<and>
    halts (history w') = halts (history w) + 1 \<and> sends (history w') = sends (history w)"
proof -
  have "map_ok (trace_time_ticks w)" "currTick w = Some 0" using assms(3) by (simp_all add: rr_ready_def)
  then show ?thesis
    using rr_run_from [OF assms(1,2) _ assms(5,6) rr_ready_replay [OF assms(3,4)], of 0 "length (trace_time_ticks w)"] assms(6)
    by simp blast
qed

theorem replay_completes_witness:
  "\<exists>w w'. rr_start (rr_E (some_ticks [''b''] ten)) demo_boost ''trace'' demo_rr = Inr (True, w) \<and>
     rr_run (rr_E (some_ticks [''b''] ten)) 10 w = Inr w' \<and> at_end w' \<and> halts (history w') = halts (history w) + 1 \<and>
     planned (history w') = planned (history w) @ [100, 100, 100, 100, 100, 100, 100, 100, 100] \<and> sends (history w') = sends (history w)"
proof -
  obtain w where w: "rr_start (rr_E (some_ticks [''b''] ten)) demo_boost ''trace'' demo_rr = Inr (True, w)"
      "rr_ready (rr_E (some_ticks [''b''] ten)) w" "''987654321'' \<notin> set (agentsList w)"
      "trace_time_ticks w = (0, tick0 [''b'']) # map (\<lambda>t. (of_nat t, new_TimeTick)) ten"
    by (rule rr_demo [of "[''b'']" ten]) simp_all
  have "replayable rr_lib (tick0 [''b''])" using tick0_writable [of "[''b'']"] by (simp add: replayable_def tick0_def)
  then have "\<forall>tt \<in> snd ` set (trace_time_ticks w). replayable (lib (rr_E (some_ticks [''b''] ten))) tt"
    using empty_tick by (auto simp: w(4) rr_env(4))
  moreover have len: "length (trace_time_ticks w) = 10" by (simp add: w(4))
  ultimately have "\<exists>w'. rr_run (rr_E (some_ticks [''b''] ten)) 10 w = Inr w' \<and> at_end w' \<and>
      planned (history w') = planned (history w) @ map (delay w) [0..<9] \<and>
      halts (history w') = halts (history w) + 1 \<and> sends (history w') = sends (history w)"
    using replay_completes [OF rr_env(1,2) w(2,3)] unfolding len by auto
  moreover have "map (delay w) [0..<9] = [100, 100, 100, 100, 100, 100, 100, 100, 100]"
    by (simp add: delay_def w(4) upt_rec)
  ultimately show ?thesis using w(1) by metis
qed

text \<open>
  A trace of fewer than ten ticks is not replayed. The progress message divides the time by
  a tenth of the number of ticks, which is then zero, as soon as the time is not zero; a
  single tick at time zero divides by the interval, which nothing has set; no tick at all
  dereferences the end. So the second \<open>pause\<close>, if not the first, is undefined.
\<close>

theorem short_trace_fails:
  assumes "json_doc (lib E)" and "ns3_laws E" and "rr_ready E w" and "''987654321'' \<notin> set (agentsList w)"
    and "\<forall>tt \<in> snd ` set (trace_time_ticks w). replayable (lib E) tt" and "length (trace_time_ticks w) < 10"
  shows "rr_run E 2 w = Inl Undefined"
  using assms by (rule short_trace_stops)

theorem short_trace_fails_witness:
  "\<exists>w. rr_start (rr_E (some_ticks [''b''] [])) demo_boost ''trace'' demo_rr = Inr (True, w) \<and>
     length (trace_time_ticks w) = 1 \<and> rr_run (rr_E (some_ticks [''b''] [])) 2 w = Inl Undefined"
proof -
  obtain w where w: "rr_start (rr_E (some_ticks [''b''] [])) demo_boost ''trace'' demo_rr = Inr (True, w)"
      "rr_ready (rr_E (some_ticks [''b''] [])) w" "''987654321'' \<notin> set (agentsList w)" "trace_time_ticks w = [(0, tick0 [''b''])]"
    by (rule rr_demo [of "[''b'']" "[]"]) simp_all
  have "replayable rr_lib (tick0 [''b''])" using tick0_writable [of "[''b'']"] by (simp add: replayable_def tick0_def)
  then have "rr_run (rr_E (some_ticks [''b''] [])) 2 w = Inl Undefined"
    by (intro short_trace_fails [OF rr_env(1,2) w(2,3)]) (simp_all add: w(4) rr_env(4))
  with w(1,4) show ?thesis by auto
qed

text \<open>
  A multicast without recipients ends the replay. The trace may have one, its message is
  written without the list of recipients, and the handler that reads it back throws.
\<close>

theorem multicast_without_recipients:
  assumes "json_doc (lib E)" and "ns3_laws E" and "replay_ready E w" and "map_ok (trace_time_ticks w)"
    and "currTick w = Some i" and "i < length (trace_time_ticks w)" and "trace_time_ticks w ! i = (t, tt)"
    and "writable (lib E) tt" and "t = 0 \<or> 10 \<le> length (trace_time_ticks w)"
    and "Suc i < length (trace_time_ticks w) \<or> interval w \<noteq> 0" and "\<exists>mc \<in> set (multicast tt). receiveAgId mc = []"
  shows "rr_pause E w = throw ''Badly formatted OPAQUE_SEND message.''"
proof (rule rr_pause_handles [OF assms(1-3,5-8,4,9,10)])
  fix c w3 k a
  assume pause: "rr_pause E w = ebind (handle_bundle E c w3) (\<lambda>w4. Inr (plan_next E (log_with (logTickEnd E k a 0) w4)))"
    and "replay_bundle (lib E) tt c" "agents_ok w3" "all_ready E w3" "no_sender w3" "handleLookup w3 = new_HandlerLookup"
  then have "handle_bundle E c w3 = throw ''Badly formatted OPAQUE_SEND message.''"
    using handle_tick(2) [OF assms(1,2)] assms(11) by blast
  with pause show ?thesis by simp
qed

theorem multicast_without_recipients_witness:
  "\<exists>w. rr_start (rr_E (some_ticks [] ten)) demo_boost ''trace'' demo_rr = Inr (True, w) \<and>
     rr_pause (rr_E (some_ticks [] ten)) w = throw ''Badly formatted OPAQUE_SEND message.''"
proof -
  obtain w where w: "rr_start (rr_E (some_ticks [] ten)) demo_boost ''trace'' demo_rr = Inr (True, w)"
      "rr_ready (rr_E (some_ticks [] ten)) w" "''987654321'' \<notin> set (agentsList w)"
      "trace_time_ticks w = (0, tick0 []) # map (\<lambda>t. (of_nat t, new_TimeTick)) ten"
    by (rule rr_demo [of "[]" ten]) simp_all
  have "map_ok (trace_time_ticks w)" "currTick w = Some 0" using w(2) by (simp_all add: rr_ready_def)
  then have "rr_pause (rr_E (some_ticks [] ten)) w = throw ''Badly formatted OPAQUE_SEND message.''"
    by (intro multicast_without_recipients [OF rr_env(1,2) rr_ready_replay [OF w(2,3)], where i = 0 and t = 0 and tt = "tick0 []"])
      (simp_all add: w(4) rr_env(4) tick0_writable, simp add: tick0_def)
  with w(1) show ?thesis by blast
qed

end
