(* ===== verification/Network_Props.thy ===== *)
theory Network_Props
  imports Network
begin

text \<open>
  Two ends of a connection: what one end sends with \<open>Connection::send\<close>, the other end
  receives with \<open>Connection::receive\<close>.
\<close>

section \<open>Sending and receiving until the end\<close>

definition send_all :: "env \<Rightarrow> (BundleHeader \<times> string) list \<Rightarrow> 'z net_world_scheme \<Rightarrow> 'z net_world_scheme outcome" where
  "send_all E bs w = fold_outcome (\<lambda>(h, t) v. ebind (send E h t v) (\<lambda>(_, v'). Inr v')) bs w"

text \<open>At most \<open>n\<close> reads, up to the first one that fails.\<close>

fun receive_all ::
  "env \<Rightarrow> nat \<Rightarrow> 'z net_world_scheme \<Rightarrow> ((BundleHeader \<times> string) list \<times> 'z net_world_scheme) outcome" where
  "receive_all E 0 w = Inr ([], w)"
| "receive_all E (Suc n) w =
     ebind (receive E new_BundleHeader [] w) (\<lambda>(ok, h, t, w1).
     if \<not> ok then Inr ([], w1) else
     ebind (receive_all E n w1) (\<lambda>(bs, w2). Inr ((h, t) # bs, w2)))"

lemma send_all_put_all: "send_all E bs w = net.put_all E bs w"
  by (induction bs arbitrary: w) (auto simp: send_all_def ebind_assoc intro!: ebind_cong)

definition sendable :: "BundleHeader \<times> string \<Rightarrow> bool" where
  "sendable b \<longleftrightarrow> (case b of (h, t) \<Rightarrow> header_fits h \<and> length t = unat (remLen h) \<and> t \<noteq> [])"

lemma receive_all_frames:
  assumes "delivers E stream" and "m_session (conn w) \<noteq> None" and "list_all sendable bs" and "length bs < n"
    and "unread stream w = concat (map (\<lambda>(h, t). frame make_bundle_header h t) bs)"
  shows "\<exists>w'. receive_all E n w = Inr (bs, w')"
  using assms(2-)
proof (induction bs arbitrary: n w)
  case Nil
  then obtain s where "m_session (conn w) = Some s" by blast
  moreover have "length (unread stream w) < header_length" using Nil.prems(4) by (simp add: header_length_def)
  ultimately show ?case
    using receive_short [OF assms(1), of w s new_BundleHeader "[]"] Nil.prems(3) by (cases n) simp_all
next
  case (Cons b bs)
  obtain h t where b: "b = (h, t)" by (cases b)
  obtain k where n: "n = Suc k" using Cons.prems(3) by (cases n) simp_all
  obtain s where s: "m_session (conn w) = Some s" using Cons.prems(1) by blast
  have ok: "header_fits h" "length t = unat (remLen h)" "t \<noteq> []" using Cons.prems(2) by (simp_all add: b sendable_def)
  have "unread stream w = frame make_bundle_header h t @ concat (map (\<lambda>(h, t). frame make_bundle_header h t) bs)"
    using Cons.prems(4) by (simp add: b)
  from receive_frame [OF assms(1) s this ok] obtain w1 where
    w1: "receive E new_BundleHeader [] w = Inr (True, h, t, w1)" "m_session (conn w1) \<noteq> None"
      "unread stream w1 = concat (map (\<lambda>(h, t). frame make_bundle_header h t) bs)"
    by (fastforce simp: Let_def)
  obtain w' where "receive_all E k w1 = Inr (bs, w')"
    using Cons.IH [OF w1(2) _ _ w1(3), of k] Cons.prems(2,3) n by auto
  with w1(1) show ?case by (simp add: n b)
qed

section \<open>Properties\<close>

text \<open>
  C18: whatever bundles one end sends, over any number of calls, the other end receives: the same
  headers and the same texts in the same order, and then a failed read when the sender
  closes. The sizes are those of the format: identifiers and count of at most a byte, a
  text that is not empty and as long as its header says.
\<close>

theorem sent_then_received:
  assumes "send_all E bs w = Inr w'" and "wire w' = wire w @ stream" and "list_all sendable bs"
    and "delivers E' stream" and "m_session (conn v) \<noteq> None" and "consumed (history v) = 0" and "length bs < n"
  shows "\<exists>v'. receive_all E' n v = Inr (bs, v')"
proof -
  have "wire w' = wire w @ concat (map (\<lambda>(h, t). frame make_bundle_header h t) bs)"
    using net.put_all_on_wire [of E bs w w'] assms(1) by (simp add: send_all_put_all make_bundle_header_in_use)
  then have "unread stream v = concat (map (\<lambda>(h, t). frame make_bundle_header h t) bs)"
    using assms(2,6) by (simp add: unread_def)
  from receive_all_frames [OF assms(4,5,3,7) this] show ?thesis .
qed

definition demo_net :: net_world where
  "demo_net = \<lparr>history = [NetConnect 0], conn = \<lparr>m_session = Some new_Session, incomingHeader = new_BundleHeader,
     incomingMessage = [], simmob_host = ''127.0.0.1'', simmob_port = ''6745''\<rparr>, pending = None\<rparr>"

definition demo_bundles :: "(BundleHeader \<times> string) list" where
  "demo_bundles = [(\<lparr>sendIdLen = 1, destIdLen = 1, messageCount = 0, remLen = 2\<rparr>, ''90''),
     (\<lparr>sendIdLen = 0, destIdLen = 2, messageCount = 0, remLen = 3\<rparr>, ''abc'')]"

definition demo_stream :: string where
  "demo_stream = concat (map (\<lambda>(h, t). frame make_bundle_header h t) demo_bundles)"

text \<open>A network that delivers a stream.\<close>

definition stream_reads :: "string \<Rightarrow> history \<Rightarrow> string option" where
  "stream_reads stream h = (case rev h of
     NetRead n # h' \<Rightarrow> if consumed (rev h') + n \<le> length stream then Some (take n (drop (consumed (rev h')) stream)) else None
   | _ \<Rightarrow> None)"

lemma stream_delivers: "delivers (demo_env J (stream_reads stream) up) stream"
  by (simp add: delivers_def demo_env_def stream_reads_def)

theorem sent_then_received_witness:
  "\<exists>w' v'. send_all (demo_env demo_lib (\<lambda>_. None) (\<lambda>_. True)) demo_bundles demo_net = Inr w' \<and>
     receive_all (demo_env demo_lib (stream_reads demo_stream) (\<lambda>_. True)) 3 demo_net = Inr (demo_bundles, v')"
proof -
  let ?E = "demo_env demo_lib (\<lambda>_. None) (\<lambda>_. True)"
  obtain w' where w': "send_all ?E demo_bundles demo_net = Inr w'"
    by (simp add: send_all_def demo_bundles_def send_def with_session_def demo_net_def session_write_def Let_def
        make_bundle_header_in_use make_bundle_header_v1_def demo_env_def)
  have "wire w' = wire demo_net @ demo_stream"
    using net.put_all_on_wire [of ?E demo_bundles demo_net w'] w'
    by (simp add: send_all_put_all make_bundle_header_in_use demo_stream_def)
  moreover have "list_all sendable demo_bundles" by (simp add: demo_bundles_def sendable_def header_fits_def)
  ultimately have "\<exists>v'. receive_all (demo_env demo_lib (stream_reads demo_stream) (\<lambda>_. True)) 3 demo_net = Inr (demo_bundles, v')"
    using sent_then_received [OF w' _ _ stream_delivers, of demo_stream demo_net 3] by (simp add: demo_net_def demo_bundles_def)
  with w' show ?thesis by blast
qed

end
