(* ===== verification/Processing_Order.thy ===== *)
theory Processing_Order
  imports Mailbox
begin

text \<open>
  What becomes of the bundles that arrive. \<open>handled E w cs w'\<close> says that the agents of \<open>w'\<close> are
  those of \<open>w\<close> after the handlers have run on the bundles \<open>cs\<close>, each once and in this order, with
  nothing in between that concerns the agents. It speaks of \<open>handle_bundle\<close> alone, not of the queue
  nor of the loops that empty it.
\<close>

text \<open>What happens between two bundles: no agent is touched, and no call that concerns one is made.\<close>

definition undisturbed :: "'z broker_world_scheme \<Rightarrow> 'z broker_world_scheme \<Rightarrow> bool" where
  "undisturbed w w' \<longleftrightarrow> AllAgents w' = AllAgents w \<and> heap w' = heap w \<and> global_pckt_cnt w' = global_pckt_cnt w \<and>
     handleLookup w' = handleLookup w \<and> (\<exists>h. history w' = history w @ h \<and> list_all aside h)"

inductive handled ::
  "env \<Rightarrow> 'z broker_world_scheme \<Rightarrow> MessageConglomerate list \<Rightarrow> 'z broker_world_scheme \<Rightarrow> bool" for E w where
  none: "handled E w [] w"
| between: "handled E w cs u \<Longrightarrow> undisturbed u v \<Longrightarrow> handled E w cs v"
| one_bundle: "handled E w cs u \<Longrightarrow> handle_bundle E c u = Inr v \<Longrightarrow> handled E w (cs @ [c]) v"

lemma handled_trans:
  assumes "handled E v ds w" and "handled E u cs v"
  shows "handled E u (cs @ ds) w"
  using assms by (induction rule: handled.induct) (auto simp flip: append_assoc intro: handled.intros)

lemma undisturbed_plain:
  "AllAgents w' = AllAgents w \<Longrightarrow> heap w' = heap w \<Longrightarrow> global_pckt_cnt w' = global_pckt_cnt w \<Longrightarrow>
     handleLookup w' = handleLookup w \<Longrightarrow> history w' = history w @ h \<Longrightarrow> list_all aside h \<Longrightarrow> undisturbed w w'"
  by (auto simp: undisturbed_def)

lemma undisturbed_incoming: "undisturbed w (w\<lparr>m_incoming := q\<rparr>)" and undisturbed_pause: "undisturbed w (w\<lparr>m_pause := b\<rparr>)"
  by (rule undisturbed_plain [where h = "[]"]; simp)+

lemma io_undisturbed: "io_only w w' \<Longrightarrow> undisturbed w w'"
  by (auto simp: io_only_def undisturbed_def)

text \<open>Emptying the queue handles what is in it.\<close>

lemma drain_handled: "drain E cs w = Inr w' \<Longrightarrow> handled E w cs w'"
proof (induction cs arbitrary: w)
  case Nil
  then show ?case by (simp add: none)
next
  case (Cons c cs)
  let ?w = "w\<lparr>m_incoming := (m_incoming w)\<lparr>messageList := cs\<rparr>\<rparr>"
  from Cons.prems obtain w1 where w1: "handle_bundle E c ?w = Inr w1" "drain E cs w1 = Inr w'" by (auto simp: outcome_simps)
  have "handled E w [] ?w" using none undisturbed_incoming by (rule between)
  from one_bundle [OF this w1(1)] have "handled E w [c] w1" by simp
  from handled_trans [OF Cons.IH [OF w1(2)] this] show ?case by simp
qed

lemma tick_handled:
  assumes "pause_iteration E w = Inr (Rescheduled, w')"
  shows "handled E w (messageList (m_incoming w)) w'"
proof -
  from assms obtain w2 w3 w4 where w2: "processIncoming E (w\<lparr>m_pause := True\<rparr>) = Inr w2"
    and w3: "sendOutgoing E w2 = Inr w3" and w4: "send_ticked E w3 = Inr w4"
    and w': "w' = (call (Schedule 100) w4)\<lparr>m_global_tick := m_global_tick (call (Schedule 100) w4) + 1\<rparr>"
    by (auto simp: pause_iteration_def outcome_simps Let_def split: if_splits)
  have "handled E w [] (w\<lparr>m_pause := True\<rparr>)" using none undisturbed_pause by (rule between)
  moreover have "handled E (w\<lparr>m_pause := True\<rparr>) (messageList (m_incoming w)) w2"
    using w2 drain_handled [of E "messageList (m_incoming w)"] by (simp add: processIncoming_def process_loop_drain)
  ultimately have "handled E w (messageList (m_incoming w)) w2" using handled_trans by fastforce
  moreover have "undisturbed w2 w3" using sendOutgoing_Inr [OF w3]
    by (auto intro!: undisturbed_plain simp: set_session_def call_def)
  moreover have "undisturbed w3 w4"
    by (rule send_ticked_Inr [OF w4]) (auto intro!: undisturbed_plain simp: set_session_def call_def)
  moreover have "undisturbed w4 w'" by (auto intro!: undisturbed_plain simp: w' call_def)
  ultimately show ?thesis by (blast intro: between)
qed

lemma step_handled:
  assumes "broker_step E w a w'"
  shows "handled E w (processed [a]) w'"
  using assms
proof (cases rule: io_step_cases)
  case (io cs woke)
  have "processed [a] = []" using io(4,5) by (cases woke) auto
  with between [OF none io_undisturbed [OF io(1)]] show ?thesis by simp
next
  case spin
  then show ?thesis using pause_spin none by fastforce
next
  case tick
  then show ?thesis using tick_handled by simp
next
  case stop
  then show ?thesis using between [OF none undisturbed_pause] pause_stop by fastforce
next
  case (packet s)
  from packet(2) have "undisturbed w w'"
    by (rule packet_arrives_Inr) (auto intro!: undisturbed_plain)
  with packet(1) between [OF none] show ?thesis by simp
qed

text \<open>A run handles the bundles of its ticks.\<close>

lemma run_handled: "broker_run E w acts w' \<Longrightarrow> handled E w (processed acts) w'"
  by (induction rule: broker_run.induct) (auto simp: processed_append intro: none handled_trans step_handled)

end
