(* ===== verification/Broker_Props.thy ===== *)
theory Broker_Props
  imports Processing_Order
begin

text \<open>
  The properties of the broker: what it makes of a received text, in which order it processes
  what arrived, what a tick writes, the invariants of every run of its two threads, and the
  runs that get stuck.
\<close>

section \<open>A concrete broker for the witnesses\<close>

definition tick_lib :: jsonlib where
  "tick_lib = demo_json (map_of [(''{t}'', demo_typed ''ticked_simmob'')])"

abbreviation tick_E :: env where
  "tick_E \<equiv> demo_env tick_lib (\<lambda>_. None) (\<lambda>h. NetClose \<notin> set h)"

definition tick_text :: string where
  "tick_text = ''90'' @ length_field 3 @ ''{t}''"

definition tick_bundle :: MessageConglomerate where
  "tick_bundle = \<lparr>senderId = ''9'', messages_json = [demo_typed ''ticked_simmob''], messages_v1 = tick_text,
     offsets_v1 = [(5, 3)], message_bases = [\<lparr>msg_type = ''ticked_simmob''\<rparr>]\<rparr>"

definition tick_connection :: Connection where
  "tick_connection = \<lparr>m_session = Some new_Session, incomingHeader = demo_header, incomingMessage = [],
     simmob_host = ''127.0.0.1'', simmob_port = ''6745''\<rparr>"

text \<open>A broker that waits for the text of a bundle.\<close>

definition demo_broker :: broker_world where
  "demo_broker = \<lparr>history = [], conn = tick_connection, pending = Some (ReadData 8),
     m_outgoing = serialize_begin new_OngoingSerialization, heap = [], AllAgents = [], global_pckt_cnt = 0,
     wfd_nc = [], wfd_go_nc = [], wfd_cln_nc = [], wfd_go_ndc = [], wfd_cln_ndc = [],
     m_incoming = new_ThreadSafeQueue, m_pause = True, m_global_tick = 0, handleLookup = new_HandlerLookup\<rparr>"

lemma lib_demo [simp]: "lib (demo_env J rd up) = J" "net_is_open (demo_env J rd up) = up"
    "net_write (demo_env J rd up) = (\<lambda>h. True)"
  by (simp_all add: demo_env_def)

lemma tick_doc: "json_doc tick_lib"
  by (simp add: tick_lib_def demo_json_doc)

lemma tick_deserialize: "deserialize tick_lib demo_header tick_text new_MessageConglomerate = Inr (True, tick_bundle)"
proof -
  let ?v = "\<lparr>sendId = ''9'', destId = ''0'', msgLengths = map (\<lambda>m. of_nat (length m)) [''{t}'']\<rparr>"
  have "deserialize_v1 tick_lib demo_header tick_text new_MessageConglomerate =
      Inr (True, received tick_text ''9'' ''0'' [''{t}''] [(demo_typed ''ticked_simmob'', \<lparr>msg_type = ''ticked_simmob''\<rparr>)])"
    by (rule deserialize_v1_carried)
      (simp_all add: bundle_fits_def readable_def ParseJsonMessageBase_def get_string_def new_MessageBase_def
        tick_lib_def demo_json_def demo_typed_def tick_text_def vary_header_def demo_header_def)
  then show ?thesis
    by (simp add: deserialize_def NEW_BUNDLES_def received_def tick_bundle_def)
qed

lemma tick_text_not_Nil: "tick_text \<noteq> []" "length tick_text = 8"
  by (simp_all add: tick_text_def)

lemma tick_type: "find_type tick_bundle ''ticked_simmob'' (message_numbers tick_bundle) = Inr True"
  by (simp add: message_numbers_def getCount_def NEW_BUNDLES_def tick_bundle_def getBaseMessage_def vec_at_def)

lemma tick_accepted: "accepted tick_E demo_header tick_text = [tick_bundle]"
  by (simp add: accepted_def tick_deserialize tick_text_not_Nil)

text \<open>The broker after the text has arrived.\<close>

definition demo_woken :: broker_world where
  "demo_woken = demo_broker\<lparr>history := [NetAsyncRead 8], pending := Some ReadHeader,
     conn := tick_connection\<lparr>m_session := Some (new_Session\<lparr>inbound_data := tick_text\<rparr>)\<rparr>,
     m_incoming := \<lparr>messageList = [tick_bundle]\<rparr>, m_pause := False\<rparr>"

lemma demo_delivered: "broker_step tick_E demo_broker (Delivered [tick_bundle]) demo_woken"
proof -
  let ?s = "new_Session\<lparr>inbound_data := tick_text\<rparr>"
  let ?w1 = "(set_session ?s demo_broker)\<lparr>pending := None\<rparr>"
  let ?w2 = "?w1\<lparr>conn := (conn ?w1)\<lparr>incomingMessage := tick_text\<rparr>\<rparr>"
  have "onMessageReceived tick_E demo_header tick_text ?w2 =
      Inr (?w2\<lparr>m_incoming := \<lparr>messageList = [tick_bundle]\<rparr>, m_pause := False\<rparr>)"
    using tick_text_not_Nil(1)
    by (simp add: onMessageReceived_def parsePacket_def tick_deserialize tick_type push_def set_session_def
        demo_broker_def new_ThreadSafeQueue_def)
  then have "delivery tick_E ?w2 = Inr demo_woken"
    by (simp add: delivery_def demo_broker_def set_session_def tick_connection_def
        async_receive_def isOpen_def with_session_def session_isOpen_def async_read_def call_def demo_woken_def header_length_def)
  then have "handle_read_data (\<lambda>_. delivery tick_E) None ?w1 = Inr demo_woken"
    by (simp add: handle_read_data_def with_session_def set_session_def)
  moreover have "arrive_data tick_text demo_broker = Inr ?w1"
    by (simp add: arrive_data_def with_session_def demo_broker_def tick_connection_def)
  ultimately have "broker_step tick_E demo_broker (Delivered (accepted tick_E (incomingHeader (conn demo_broker)) tick_text)) demo_woken"
    by (intro broker_step.data_read [of _ 8]) (simp_all add: demo_broker_def tick_text_not_Nil)
  then show ?thesis by (simp add: demo_broker_def tick_connection_def tick_accepted)
qed

lemma demo_process: "\<exists>w2. processIncoming tick_E (demo_woken\<lparr>m_outgoing := og, m_pause := True\<rparr>) = Inr w2"
proof -
  have "map_of new_HandlerLookup ''ticked_simmob'' = Some NullHandler"
    by (simp add: new_HandlerLookup_def)
  then have "handle_bundle tick_E tick_bundle w = Inr w" if "handleLookup w = new_HandlerLookup" for w :: broker_world
    using that by (simp add: handle_bundle_def message_numbers_def getCount_def NEW_BUNDLES_def tick_bundle_def
        handle_message_def getBaseMessage_def vec_at_def getHandler_def handle_def)
  then show ?thesis
    by (simp add: processIncoming_def process_loop_drain demo_woken_def demo_broker_def)
qed

lemma demo_ticked_client: "\<exists>og. makeTickedClient tick_lib (serialize_begin new_OngoingSerialization) = Inr og"
  by (simp add: makeTickedClient_def PREFER_BINARY_MESSAGES_def tick_lib_def demo_json_def set_all_def)

lemma demo_send: "m_session (conn w) \<noteq> None \<Longrightarrow> \<exists>b s. send tick_E h t w = Inr (b, call (NetWrite (make_bundle_header h @ t)) (set_session s w))"
  by (auto simp: send_def with_session_def session_write_def Let_def make_bundle_header_in_use make_bundle_header_v1_def)

lemma demo_tick_with: "\<exists>w'. pause_iteration tick_E (demo_woken\<lparr>m_outgoing := og0\<rparr>) = Inr (Rescheduled, w')"
proof -
  let ?w1 = "demo_woken\<lparr>m_outgoing := og0, m_pause := True\<rparr>"
  obtain w2 where w2: "processIncoming tick_E ?w1 = Inr w2" using demo_process by blast
  have "conn w2 = conn ?w1" using processIncoming_only(1) [OF w2] by (simp add: processing_only_def)
  then have up2: "m_session (conn w2) \<noteq> None" by (simp add: demo_woken_def)
  let ?res = "\<lambda>og. vary_header (vHead og) @ messages og" and ?head = "\<lambda>og. result_header (vHead og) (vary_header (vHead og) @ messages og)"
  obtain b s where s: "send tick_E (?head (m_outgoing w2)) (?res (m_outgoing w2)) w2 =
      Inr (b, call (NetWrite (make_bundle_header (?head (m_outgoing w2)) @ ?res (m_outgoing w2))) (set_session s w2))"
    using demo_send [OF up2] by blast
  then obtain w3 where w3: "sendOutgoing tick_E w2 = Inr w3" "m_session (conn w3) \<noteq> None"
    by (simp add: sendOutgoing_def serialize_end_eq Let_def set_session_def call_def)
  obtain og where og: "makeTickedClient tick_lib (serialize_begin new_OngoingSerialization) = Inr og"
    using demo_ticked_client by blast
  obtain b' s' where "send tick_E (?head og) (?res og) w3 =
      Inr (b', call (NetWrite (make_bundle_header (?head og) @ ?res og)) (set_session s' w3))"
    using demo_send [OF w3(2)] by blast
  with og obtain w4 where "send_ticked tick_E w3 = Inr w4"
    by (simp add: send_ticked_def serialize_end_eq Let_def)
  with w2 w3(1) show ?thesis
    by (simp add: pause_iteration_def isOpen_def with_session_def session_isOpen_def demo_woken_def demo_broker_def
        tick_connection_def Let_def)
qed

lemma demo_tick: "\<exists>w'. pause_iteration tick_E demo_woken = Inr (Rescheduled, w')"
  using demo_tick_with [of "m_outgoing demo_woken"] by simp

lemma demo_run: "\<exists>w'. broker_run tick_E demo_broker [Delivered [tick_bundle], Ticked [tick_bundle]] w'"
proof -
  obtain w' where "pause_iteration tick_E demo_woken = Inr (Rescheduled, w')" using demo_tick by blast
  then have "broker_step tick_E demo_woken (Ticked (messageList (m_incoming demo_woken))) w'"
    by (rule broker_step.tick)
  then have "broker_step tick_E demo_woken (Ticked [tick_bundle]) w'" by (simp add: demo_woken_def)
  moreover have "broker_run tick_E demo_broker [Delivered [tick_bundle]] demo_woken"
    using run_snoc [OF run_nil demo_delivered] by simp
  ultimately have "broker_run tick_E demo_broker ([Delivered [tick_bundle]] @ [Ticked [tick_bundle]]) w'"
    by (rule run_snoc [rotated])
  then show ?thesis by auto
qed

lemma demo_broker_ok: "broker_ok tick_E demo_broker"
  by (simp add: broker_ok_def agents_ok_def all_ready_def demo_broker_def new_ThreadSafeQueue_def)

section \<open>Receiving and processing\<close>

text \<open>
  A text that deserializes is queued and wakes the simulator thread, whether or not
  \<open>parsePacket\<close> finds a ticked_simmob message in it; the flag says only that, although the
  broker reports every false flag as a packet that could not be parsed. The rest of the
  state is as it was.
\<close>

theorem bundle_accepted:
  assumes "input \<noteq> []" and d: "deserialize (lib E) header input new_MessageConglomerate = Inr (True, c)"
  shows "\<exists>w1. parsePacket E header input w = Inr (\<exists>i < getCount c. msg_type (message_bases c ! i) = ''ticked_simmob'', w1) \<and>
    w1 = w\<lparr>m_incoming := push c (m_incoming w)\<rparr> \<and>
    onMessageReceived E header input w = Inr (w1\<lparr>m_pause := False\<rparr>)"
proof -
  have ok: "conglom_ok (lib E) c" using deserialize_ok [OF d] by simp
  have "find_type c ty (map int ns) = Inr (\<exists>i \<in> set ns. msg_type (message_bases c ! i) = ty)"
    if "\<forall>i \<in> set ns. i < getCount c" for ty ns
    using that by (induction ns) (auto simp: conglom_ok_get(1) [OF ok])
  then have "find_type c ''ticked_simmob'' (message_numbers c) =
      Inr (\<exists>i < getCount c. msg_type (message_bases c ! i) = ''ticked_simmob'')"
    by (auto simp: message_numbers_def)
  then show ?thesis
    using assms by (simp add: onMessageReceived_def parsePacket_def)
qed

theorem bundle_accepted_witness:
  "\<exists>w1. parsePacket tick_E demo_header tick_text demo_broker =
      Inr (\<exists>i < getCount tick_bundle. msg_type (message_bases tick_bundle ! i) = ''ticked_simmob'', w1) \<and>
    w1 = demo_broker\<lparr>m_incoming := push tick_bundle (m_incoming demo_broker)\<rparr> \<and>
    onMessageReceived tick_E demo_header tick_text demo_broker = Inr (w1\<lparr>m_pause := False\<rparr>)"
  by (rule bundle_accepted) (simp_all add: tick_text_not_Nil tick_deserialize)

text \<open>
  The loop that pops the queue is the handling of the queued bundles one after the
  other, in the order in which they arrived; it ends, and when it succeeds the queue is
  empty and nothing but the agents and the simulation has changed.
\<close>

theorem process_in_order:
  assumes "processIncoming E w = Inr w'"
  shows "drain E (messageList (m_incoming w)) w = Inr w' \<and> messageList (m_incoming w') = [] \<and> processing_only w w'"
  using assms processIncoming_only [OF assms] by (simp add: processIncoming_def process_loop_drain)

theorem process_in_order_witness:
  "\<exists>w'. processIncoming tick_E (demo_woken\<lparr>m_pause := True\<rparr>) = Inr w' \<and>
     drain tick_E (messageList (m_incoming (demo_woken\<lparr>m_pause := True\<rparr>))) (demo_woken\<lparr>m_pause := True\<rparr>) = Inr w' \<and>
     messageList (m_incoming w') = [] \<and> processing_only (demo_woken\<lparr>m_pause := True\<rparr>) w'"
proof -
  obtain w' where "processIncoming tick_E (demo_woken\<lparr>m_pause := True\<rparr>) = Inr w'"
    using demo_process [of "m_outgoing demo_woken"] by auto
  with process_in_order [OF this] show ?thesis by blast
qed

text \<open>
  C35: a message whose type is not registered is not skipped: it ends the processing of the
  whole queue with an exception, so the branch that prints a missing handler is never
  taken. The registered types are six, two of which are refused with an exception.
\<close>

theorem unknown_type_throws:
  assumes "messageList (m_incoming w) = c # cs" and "i < getCount c" and "conglom_ok (lib E) c"
    and "fold_outcome (handle_message E c) (map int [0..<i]) (w\<lparr>m_incoming := (m_incoming w)\<lparr>messageList := cs\<rparr>\<rparr>) = Inr w1"
    and "handleLookup w = new_HandlerLookup"
    and "msg_type (message_bases c ! i) \<notin> {''all_locations'', ''new_agents'', ''ticked_simmob'', ''opaque_send'', ''MULTICAST'', ''UNICAST''}"
  shows "processIncoming E w = throw ''Unknown handler for message type.''"
proof -
  let ?w0 = "w\<lparr>m_incoming := (m_incoming w)\<lparr>messageList := cs\<rparr>\<rparr>"
  have "agents_only ?w0 w1"
    using assms(4) by (rule fold_outcome_invariant) (auto intro: agents_only_trans handle_message_only)
  then have look: "handleLookup w1 = new_HandlerLookup" using agents_only_broker(4) assms(5) by fastforce
  have "map_of new_HandlerLookup (msg_type (message_bases c ! i)) = None"
    using assms(6) by (simp add: new_HandlerLookup_def)
  then have step: "handle_message E c (int i) w1 = throw ''Unknown handler for message type.''"
    using conglom_ok_get(1) [OF assms(3,2)] look by (simp add: handle_message_def getHandler_def)
  have "message_numbers c = map int [0..<i] @ int i # map int [Suc i..<getCount c]"
  proof -
    have "[0..<getCount c] = [0..<i] @ [i..<getCount c]"
      using assms(2) upt_add_eq_append [of 0 i "getCount c - i"] by simp
    then show ?thesis using assms(2) by (simp add: message_numbers_def upt_conv_Cons)
  qed
  then have "handle_bundle E c ?w0 = throw ''Unknown handler for message type.''"
    using assms(4) step by (simp add: handle_bundle_def fold_outcome_append)
  then show ?thesis using assms(1) by (simp add: processIncoming_def process_loop_drain)
qed

theorem unknown_type_throws_witness:
  "processIncoming (demo_env demo_lib (\<lambda>_. None) (\<lambda>_. True)) (demo_broker\<lparr>m_incoming := \<lparr>messageList = [demo_conglomerate]\<rparr>\<rparr>)
     = throw ''Unknown handler for message type.''"
proof -
  have ok: "conglom_ok (lib (demo_env demo_lib (\<lambda>_. None) (\<lambda>_. True))) demo_conglomerate"
    using deserialize_ok [OF demo_deserialize] by simp
  have n: "0 < getCount demo_conglomerate" by (simp add: demo_conglomerate_def getCount_offsets)
  have t: "msg_type (message_bases demo_conglomerate ! 0) \<notin> {''all_locations'', ''new_agents'', ''ticked_simmob'', ''opaque_send'', ''MULTICAST'', ''UNICAST''}"
    by (simp add: demo_conglomerate_def)
  show ?thesis
    by (rule unknown_type_throws [where i = 0 and c = demo_conglomerate and cs = "[]", OF _ n ok _ _ t])
      (simp_all add: demo_broker_def)
qed

section \<open>What a tick writes\<close>

text \<open>
  C17: a completed tick needs the pause flag clear, writes two bundles (the outgoing messages,
  then a bundle of its own with a single ticked_client message), sets the flag again, counts
  one, and begins a new outgoing bundle without emptying the stream of the old one.
\<close>

theorem tick_writes_two_bundles:
  assumes J: "json_doc (lib E)" and "pause_iteration E w = Inr (Rescheduled, w')"
  shows "\<exists>v. is_object v [''msg_type'' \<mapsto> stringValue ''ticked_client''] \<and>
    written (history w') = written (history w) @
      [bundle_bytes (m_outgoing w), bundle_bytes (emit_json (lib E) (serialize_begin new_OngoingSerialization) v)] \<and>
    \<not> m_pause w \<and> m_pause w' \<and> m_global_tick w' = m_global_tick w + 1 \<and> messageList (m_incoming w') = [] \<and>
    m_outgoing w' = serialize_begin (m_outgoing w) \<and> messages (m_outgoing w') = messages (m_outgoing w)"
proof -
  from assms(2) obtain w2 og where w2: "processIncoming E (w\<lparr>m_pause := True\<rparr>) = Inr w2"
    and og: "makeTickedClient (lib E) (serialize_begin new_OngoingSerialization) = Inr og"
    and w': "\<not> m_pause w" "written (history w') = written (history w) @ [bundle_bytes (m_outgoing w), bundle_bytes og]"
      "m_outgoing w' = serialize_begin (m_outgoing w)" "m_incoming w' = m_incoming w2" "m_pause w'"
      "m_global_tick w' = m_global_tick w + 1"
    by (rule pause_tick)
  obtain v where v: "set_all (lib E) nullValue [(''msg_type'', stringValue ''ticked_client'')] = Inr v"
      "is_object v [''msg_type'' \<mapsto> stringValue ''ticked_client'']"
    using set_all_null [OF J, of "[(''msg_type'', stringValue ''ticked_client'')]"] by auto
  have "og = emit_json (lib E) (serialize_begin new_OngoingSerialization) v"
    using og v(1) by (simp add: makeTickedClient_def PREFER_BINARY_MESSAGES_def)
  moreover have "messages (m_outgoing w') = messages (m_outgoing w)"
    by (simp add: w'(3) serialize_begin_def serialize_begin_simps)
  ultimately show ?thesis using v(2) w' processIncoming_only(2) [OF w2] by (intro exI [of _ v]) simp
qed

theorem tick_writes_two_bundles_witness:
  "\<exists>w' v. pause_iteration tick_E demo_woken = Inr (Rescheduled, w') \<and>
    is_object v [''msg_type'' \<mapsto> stringValue ''ticked_client''] \<and>
    written (history w') = written (history demo_woken) @
      [bundle_bytes (m_outgoing demo_woken), bundle_bytes (emit_json (lib tick_E) (serialize_begin new_OngoingSerialization) v)] \<and>
    \<not> m_pause demo_woken \<and> m_pause w' \<and> m_global_tick w' = m_global_tick demo_woken + 1 \<and> messageList (m_incoming w') = [] \<and>
    m_outgoing w' = serialize_begin (m_outgoing demo_woken) \<and> messages (m_outgoing w') = messages (m_outgoing demo_woken)"
proof -
  have J: "json_doc (lib tick_E)" by (simp add: tick_doc)
  obtain w' where w': "pause_iteration tick_E demo_woken = Inr (Rescheduled, w')" using demo_tick by blast
  from tick_writes_two_bundles [OF J w'] w' show ?thesis by blast
qed

text \<open>
  C32: so the messages that one tick has sent are in the bundle of the next one as well: its
  header and its lengths are those of the new messages only, but the old texts come first,
  and the peer, which cuts the text by the lengths, reads old bytes as new messages.
\<close>

theorem outgoing_repeats_old_messages:
  assumes "pause_iteration E w = Inr (Rescheduled, w')" and "carries (m_outgoing w) old"
  shows "\<exists>v. sendId v = ''987654321'' \<and> destId v = ''0'' \<and> msgLengths v = map (\<lambda>m. of_nat (length m)) new \<and>
    bundle_bytes (fold (\<lambda>m og. addGeneric og m) new (m_outgoing w')) =
      (let res = vary_header v @ concat old @ concat new in make_bundle_header (result_header v res) @ res)"
proof -
  have out: "m_outgoing w' = serialize_begin (m_outgoing w)" using assms(1) by (rule pause_tick)
  let ?og = "fold (\<lambda>m og. addGeneric og m) new (serialize_begin (m_outgoing w))"
  have lens: "msgLengths (vHead (fold (\<lambda>m og. addGeneric og m) ms g)) = msgLengths (vHead g) @ map (\<lambda>m. of_nat (length m)) ms \<and>
      messages (fold (\<lambda>m og. addGeneric og m) ms g) = messages g @ concat ms" for ms g
    by (induction ms arbitrary: g) (simp_all add: addGeneric_simps)
  have "sendId (vHead ?og) = ''987654321''" "destId (vHead ?og) = ''0''"
    "msgLengths (vHead ?og) = map (\<lambda>m. of_nat (length m)) new" "messages ?og = concat old @ concat new"
    using lens [of new "serialize_begin (m_outgoing w)"] assms(2)
    by (simp_all add: add_all_ids serialize_begin_def serialize_begin_simps carries_def)
  then show ?thesis unfolding out by (intro exI [of _ "vHead ?og"]) (simp add: bundle_bytes_def)
qed

text \<open>The message a of the first tick comes first in the bundle that announces the message b alone.\<close>

theorem outgoing_repeats_old_messages_witness:
  "\<exists>w' v. pause_iteration tick_E (demo_woken\<lparr>m_outgoing := addGeneric (serialize_begin new_OngoingSerialization) ''{a}''\<rparr>) =
      Inr (Rescheduled, w') \<and>
    sendId v = ''987654321'' \<and> destId v = ''0'' \<and> msgLengths v = [3] \<and>
    bundle_bytes (addGeneric (m_outgoing w') ''{b}'') =
      (let res = vary_header v @ ''{a}{b}'' in make_bundle_header (result_header v res) @ res)"
proof -
  let ?w = "demo_woken\<lparr>m_outgoing := addGeneric (serialize_begin new_OngoingSerialization) ''{a}''\<rparr>"
  have "carries (m_outgoing ?w) [''{a}'']"
    using carries_add [of "serialize_begin new_OngoingSerialization" "[]" "''{a}''"]
    by (simp add: serialize_begin_def carries_begin new_OngoingSerialization_def)
  moreover obtain w' where w': "pause_iteration tick_E ?w = Inr (Rescheduled, w')" using demo_tick_with by blast
  ultimately show ?thesis using outgoing_repeats_old_messages [OF w', of "[''{a}'']" "[''{b}'']"] w' by auto
qed

section \<open>Runs of the two threads\<close>

text \<open>
  C3: the broker refines the mailbox. Every run of its two threads, whatever the agents, the network
  and the simulation do, is a run of the mailbox with the same actions: a delivery fills and
  wakes it, only a tick empties it, and only when it is awake, and the simulator thread spins
  exactly while it is asleep.
\<close>

theorem broker_refines_mailbox:
  assumes "broker_run E w acts w'"
  shows "machine_run mailbox_step (mailbox_of w) acts = Some (mailbox_of w')"
  using assms by (rule broker_sim.run_sim)

theorem broker_refines_mailbox_witness:
  "\<exists>w'. broker_run tick_E demo_broker [Delivered [tick_bundle], Ticked [tick_bundle]] w' \<and>
    machine_run mailbox_step (mailbox_of demo_broker) [Delivered [tick_bundle], Ticked [tick_bundle]] = Some (mailbox_of w') \<and>
    mailbox_of w' = \<lparr>inbox = [], awake = False, tick_no = 1, posted = 2\<rparr>"
proof -
  obtain w' where run: "broker_run tick_E demo_broker [Delivered [tick_bundle], Ticked [tick_bundle]] w'" using demo_run by blast
  have "mailbox_of demo_broker = \<lparr>inbox = [], awake = False, tick_no = 0, posted = 0\<rparr>"
    by (simp add: mailbox_of_def demo_broker_def new_ThreadSafeQueue_def)
  then have "machine_run mailbox_step (mailbox_of demo_broker) [Delivered [tick_bundle], Ticked [tick_bundle]] =
      Some \<lparr>inbox = [], awake = False, tick_no = 1, posted = 2\<rparr>" by (simp add: post_def)
  with broker_refines_mailbox [OF run] have "mailbox_of w' = \<lparr>inbox = [], awake = False, tick_no = 1, posted = 2\<rparr>"
    by (metis option.inject)
  with run broker_refines_mailbox [OF run] show ?thesis by blast
qed

text \<open>
  C2: in every run of the two threads, the bundles that the handlers have worked on, each once and
  one after the other, followed by those still queued, are the bundles that were queued at the
  start followed by those that arrived: none is lost, dropped unhandled, handled twice or out
  of order, and nothing else has touched the agents.
\<close>

theorem broker_fifo:
  assumes "broker_run E w acts w'"
  shows "handled E w (processed acts) w' \<and>
    processed acts @ messageList (m_incoming w') = messageList (m_incoming w) @ arrived acts"
  using run_handled [OF assms] run_effect [OF assms] by simp

theorem broker_fifo_witness:
  "\<exists>w'. broker_run tick_E demo_broker [Delivered [tick_bundle], Ticked [tick_bundle]] w' \<and>
    handled tick_E demo_broker [tick_bundle] w' \<and> messageList (m_incoming w') = []"
proof -
  obtain w' where "broker_run tick_E demo_broker [Delivered [tick_bundle], Ticked [tick_bundle]] w'" using demo_run by blast
  with broker_fifo [OF this] show ?thesis by (auto simp: demo_broker_def new_ThreadSafeQueue_def)
qed

text \<open>
  C4: the simulator thread never runs ahead of the network. In every run from the broker's
  initial pause flag, each tick has been woken by a delivery of its own; the tick counter
  counts the ticks (modulo the width of \<open>unsigned int\<close>), and each tick has written two bundles.
\<close>

theorem broker_lock_step:
  assumes "broker_run E w acts w'" and "m_pause w"
  shows "ticks acts + stops acts + (if m_pause w' then 0 else 1) \<le> wakes acts \<and>
    m_global_tick w' = m_global_tick w + of_nat (ticks acts) \<and>
    length (written (history w')) = length (written (history w)) + 2 * ticks acts"
  using run_effect [OF assms(1)] assms(2) by simp

theorem broker_lock_step_witness:
  "\<exists>w'. broker_run tick_E demo_broker [Delivered [tick_bundle], Ticked [tick_bundle]] w' \<and>
    ticks [Delivered [tick_bundle], Ticked [tick_bundle]] + stops [Delivered [tick_bundle], Ticked [tick_bundle]] +
      (if m_pause w' then 0 else 1) \<le> wakes [Delivered [tick_bundle], Ticked [tick_bundle]] \<and>
    m_global_tick w' = m_global_tick demo_broker + of_nat (ticks [Delivered [tick_bundle], Ticked [tick_bundle]]) \<and>
    length (written (history w')) =
      length (written (history demo_broker)) + 2 * ticks [Delivered [tick_bundle], Ticked [tick_bundle]]"
proof -
  have p: "m_pause demo_broker" by (simp add: demo_broker_def)
  obtain w' where "broker_run tick_E demo_broker [Delivered [tick_bundle], Ticked [tick_bundle]] w'" using demo_run by blast
  with broker_lock_step [OF this p] show ?thesis by blast
qed

text \<open>
  C6: every run keeps the broker well-formed: an entry of the map of agents is null or the
  agent of that id, every queued bundle is consistent with its text, and where ns-3 keeps
  its laws every agent has the node, the socket and the interface that its use needs.
\<close>

theorem broker_invariant:
  assumes "broker_run E w acts w'" and "broker_ok E w"
  shows "broker_ok E w'"
  using assms by (rule run_ok)

theorem broker_invariant_witness:
  "\<exists>w'. broker_run tick_E demo_broker [Delivered [tick_bundle], Ticked [tick_bundle]] w' \<and> broker_ok tick_E w'"
proof -
  obtain w' where "broker_run tick_E demo_broker [Delivered [tick_bundle], Ticked [tick_bundle]] w'" using demo_run by blast
  with broker_invariant [OF this demo_broker_ok] show ?thesis by blast
qed

end
