(* ===== verification/Packet_Props.thy ===== *)
theory Packet_Props
  imports Broker_Props Handler_Props
begin

text \<open>
  The packets of the simulated network: what \<open>Agent::ReceivePacket\<close> forwards to Sim Mobility,
  and what becomes of a packet that \<open>OpaqueSendHandler\<close> has sent.
\<close>

section \<open>The message that is forwarded\<close>

definition forwarded :: "(string \<rightharpoonup> json) \<Rightarrow> (string \<rightharpoonup> json)" where
  "forwarded m = (\<lambda>k. if k \<in> set forwarded_fields then Some (case m k of None \<Rightarrow> nullValue | Some x \<Rightarrow> x) else None)
     (''SENDER'' \<mapsto> stringValue ''0'', ''SENDER_TYPE'' \<mapsto> stringValue ''NS3_SIMULATOR'')"

lemma copy_fields:
  assumes J: "json_doc J" and v: "members v = Some m"
  shows "members out = Some mo \<Longrightarrow> \<exists>out'. fold_outcome (\<lambda>k outgoing. ebind (js_get J v k) (js_set J outgoing k)) ks out = Inr out' \<and>
    members out' = Some (\<lambda>k. if k \<in> set ks then Some (case m k of None \<Rightarrow> nullValue | Some x \<Rightarrow> x) else mo k)"
proof (induction ks arbitrary: out mo)
  case (Cons k ks)
  let ?x = "case m k of None \<Rightarrow> nullValue | Some x \<Rightarrow> x"
  obtain out1 where out1: "js_set J out k ?x = Inr out1" "members out1 = Some (mo(k \<mapsto> ?x))"
    using json_set [OF J Cons.prems] is_object_members by blast
  from Cons.IH [OF out1(2)] obtain out' where
    "fold_outcome (\<lambda>k outgoing. ebind (js_get J v k) (js_set J outgoing k)) ks out1 = Inr out'"
    "members out' = Some (\<lambda>k'. if k' \<in> set ks then Some (case m k' of None \<Rightarrow> nullValue | Some x \<Rightarrow> x) else (mo(k \<mapsto> ?x)) k')"
    by blast
  with out1(1) show ?case by (intro exI [of _ out']) (auto simp: json_get [OF J v] fun_eq_iff)
qed simp

lemma forwarded_value_object:
  assumes J: "json_doc J" and v: "members v = Some m"
  shows "\<exists>v'. forwarded_value J v = Inr v' \<and> is_object v' (forwarded m)"
proof -
  obtain out where out: "fold_outcome (\<lambda>k outgoing. ebind (js_get J v k) (js_set J outgoing k)) forwarded_fields nullValue = Inr out"
      "members out = Some (\<lambda>k. if k \<in> set forwarded_fields then Some (case m k of None \<Rightarrow> nullValue | Some x \<Rightarrow> x) else None)"
    using copy_fields [OF J v, of nullValue Map.empty forwarded_fields] by auto
  have "?thesis \<longleftrightarrow> (\<exists>v'. set_all J out [(''SENDER'', stringValue ''0''), (''SENDER_TYPE'', stringValue ''NS3_SIMULATOR'')] = Inr v' \<and>
      is_object v' (forwarded m))"
    by (simp add: forwarded_value_def out(1))
  moreover have "(\<lambda>k. if k \<in> set forwarded_fields then Some (case m k of None \<Rightarrow> nullValue | Some x \<Rightarrow> x) else None) ++
      map_of (rev [(''SENDER'', stringValue ''0''), (''SENDER_TYPE'', stringValue ''NS3_SIMULATOR'')]) = forwarded m"
    by (auto simp: forwarded_def fun_eq_iff map_add_def)
  ultimately show ?thesis
    using set_all_object [OF J out(2), of "[(''SENDER'', stringValue ''0''), (''SENDER_TYPE'', stringValue ''NS3_SIMULATOR'')]"]
    by auto
qed

section \<open>Receiving packets\<close>

text \<open>A packet that \<open>ReceivePacket\<close> can take: not too long, and an object if it is JSON at all.\<close>

definition takeable :: "jsonlib \<Rightarrow> packet \<Rightarrow> bool" where
  "takeable J p \<longleftrightarrow> length p < 2 ^ 31 \<and> (case js_parse J p of None \<Rightarrow> True | Some j \<Rightarrow> members j \<noteq> None)"

definition forwards :: "jsonlib \<Rightarrow> packet \<Rightarrow> json \<Rightarrow> bool" where
  "forwards J p v \<longleftrightarrow> (\<exists>j m. js_parse J p = Some j \<and> members j = Some m \<and> is_object v (forwarded m))"

lemma receive_one_takeable:
  assumes "json_doc (lib E)" and "takeable (lib E) p"
  shows "if p \<noteq> [] \<and> js_parse (lib E) p \<noteq> None
    then \<exists>v. forwards (lib E) p v \<and> receive_one E p w = Inr (w\<lparr>m_outgoing := emit_json (lib E) (m_outgoing w) v\<rparr>)
    else receive_one E p w = Inr w"
proof -
  have "to_int (int (length p)) = int (length p)" using assms(2) by (simp add: takeable_def to_int_id in_int_def)
  then have size: "to_int (int (length p)) \<le> 0 \<longleftrightarrow> p = []" by simp
  show ?thesis
  proof (cases "p \<noteq> [] \<and> js_parse (lib E) p \<noteq> None")
    case True
    then obtain j m where j: "js_parse (lib E) p = Some j" "members j = Some m" using assms(2) by (auto simp: takeable_def)
    obtain v where "forwarded_value (lib E) j = Inr v" "is_object v (forwarded m)"
      using forwarded_value_object [OF assms(1) j(2)] by blast
    with j True size show ?thesis
      by (auto simp: receive_one_def parseJSON_def makeUnknownJSON_def PREFER_BINARY_MESSAGES_def forwards_def)
  next
    case False
    then show ?thesis using size by (auto simp: receive_one_def parseJSON_def)
  qed
qed

lemma receive_all_takeable:
  assumes "json_doc (lib E)" and "\<forall>p \<in> set ps. takeable (lib E) p"
  shows "\<exists>vs. list_all2 (forwards (lib E)) (filter (\<lambda>p. p \<noteq> [] \<and> js_parse (lib E) p \<noteq> None) ps) vs \<and>
    fold_outcome (receive_one E) ps w = Inr (w\<lparr>m_outgoing := fold (\<lambda>v og. emit_json (lib E) og v) vs (m_outgoing w)\<rparr>)"
  using assms(2)
proof (induction ps arbitrary: w)
  case (Cons p ps)
  then have p: "takeable (lib E) p" and ps: "\<forall>p \<in> set ps. takeable (lib E) p" by simp_all
  show ?case
  proof (cases "p \<noteq> [] \<and> js_parse (lib E) p \<noteq> None")
    case True
    then obtain v where v: "forwards (lib E) p v" "receive_one E p w = Inr (w\<lparr>m_outgoing := emit_json (lib E) (m_outgoing w) v\<rparr>)"
      using receive_one_takeable [OF assms(1) p, of w] by auto
    from Cons.IH [OF ps, of "w\<lparr>m_outgoing := emit_json (lib E) (m_outgoing w) v\<rparr>"] obtain vs where
      "list_all2 (forwards (lib E)) (filter (\<lambda>p. p \<noteq> [] \<and> js_parse (lib E) p \<noteq> None) ps) vs"
      "fold_outcome (receive_one E) (p # ps) w =
        Inr (w\<lparr>m_outgoing := fold (\<lambda>v og. emit_json (lib E) og v) vs (emit_json (lib E) (m_outgoing w) v)\<rparr>)"
      using v(2) by auto
    with v(1) True show ?thesis by (intro exI [of _ "v # vs"]) simp
  next
    case False
    then have "receive_one E p w = Inr w" using receive_one_takeable [OF assms(1) p, of w] by simp
    with Cons.IH [OF ps, of w] False show ?thesis by auto
  qed
qed simp

lemma ReceivePacket_takeable:
  assumes "json_doc (lib E)" and "\<forall>p \<in> set (ns_recv E (history w @ [SocketRecv s])). takeable (lib E) p"
  shows "\<exists>vs. ReceivePacket E s w = Inr (w\<lparr>history := history w @ [SocketRecv s],
      m_outgoing := fold (\<lambda>v og. emit_json (lib E) og v) vs (m_outgoing w)\<rparr>) \<and>
    list_all2 (forwards (lib E)) (filter (\<lambda>p. p \<noteq> [] \<and> js_parse (lib E) p \<noteq> None) (ns_recv E (history w @ [SocketRecv s]))) vs"
  using receive_all_takeable [OF assms, of "call (SocketRecv s) w"] by (auto simp: ReceivePacket_def Let_def call_def)

text \<open>A packet that says what \<open>OpaqueSendHandler\<close> sends: an opaque_receive message.\<close>

definition opaque_packet :: "jsonlib \<Rightarrow> packet \<Rightarrow> bool" where
  "opaque_packet J p \<longleftrightarrow> p \<noteq> [] \<and> length p < 2 ^ 31 \<and>
     (\<exists>j os t. js_parse J p = Some j \<and> is_object j ((opaque_receive os)(''to_id'' \<mapsto> stringValue t)))"

definition blank_message :: "string \<rightharpoonup> json" where
  "blank_message = map_of (map (\<lambda>k. (k, nullValue)) forwarded_fields @
     [(''SENDER'', stringValue ''0''), (''SENDER_TYPE'', stringValue ''NS3_SIMULATOR'')])"

lemma forwarded_opaque: "forwarded ((opaque_receive os)(''to_id'' \<mapsto> stringValue t)) = blank_message"
  by (auto simp: forwarded_def blank_message_def opaque_receive_def forwarded_fields_def fun_eq_iff)

lemma opaque_packet_forwards:
  assumes "opaque_packet J p" and "forwards J p v"
  shows "is_object v blank_message"
proof -
  obtain os t j where "js_parse J p = Some j" "is_object j ((opaque_receive os)(''to_id'' \<mapsto> stringValue t))"
    using assms(1) by (auto simp: opaque_packet_def)
  then have "is_object v (forwarded ((opaque_receive os)(''to_id'' \<mapsto> stringValue t)))"
    using assms(2) is_object_members by (fastforce simp: forwards_def)
  then show ?thesis unfolding forwarded_opaque .
qed

section \<open>Properties\<close>

text \<open>
  C16: a packet callback takes all packets that have arrived, in order. For each one that is an
  object of JSON it adds one message to the outgoing bundle, with seven fields of the packet (null
  where the packet has none) and the simulator as the sender; empty packets and packets that
  are not JSON are passed over. Nothing else changes.
\<close>

theorem packets_forwarded:
  assumes "json_doc (lib E)" and "\<forall>p \<in> set (ns_recv E (history w @ [SocketRecv s])). takeable (lib E) p"
  shows "\<exists>vs. ReceivePacket E s w = Inr (w\<lparr>history := history w @ [SocketRecv s],
      m_outgoing := fold (\<lambda>v og. emit_json (lib E) og v) vs (m_outgoing w)\<rparr>) \<and>
    list_all2 (forwards (lib E)) (filter (\<lambda>p. p \<noteq> [] \<and> js_parse (lib E) p \<noteq> None) (ns_recv E (history w @ [SocketRecv s]))) vs"
  using assms by (rule ReceivePacket_takeable)

definition packet_lib :: jsonlib where
  "packet_lib = demo_json (map_of [(''{m}'', objectValue [(''MULTICAST_DATA'', stringValue ''d'')]),
     (''{o}'', objectValue [(''to_id'', stringValue ''b''), (''data'', stringValue ''d''), (''from_id'', stringValue ''a''),
        (''msg_type'', stringValue ''opaque_receive'')])])"

abbreviation packet_E :: "packet list \<Rightarrow> env" where
  "packet_E ps \<equiv> (demo_env packet_lib (\<lambda>_. None) (\<lambda>_. True))\<lparr>ns_recv := \<lambda>h. ps\<rparr>"

lemma packet_doc: "json_doc (lib (packet_E ps))"
  by (simp add: packet_lib_def demo_json_doc)

theorem packets_forwarded_witness:
  "\<exists>v. ReceivePacket (packet_E [''x'', ''{m}'', []]) 7 demo_broker = Inr (demo_broker\<lparr>history := [SocketRecv 7],
      m_outgoing := emit_json packet_lib (m_outgoing demo_broker) v\<rparr>) \<and>
    is_object v (forwarded [''MULTICAST_DATA'' \<mapsto> stringValue ''d''])"
proof -
  have "\<forall>p \<in> set (ns_recv (packet_E [''x'', ''{m}'', []]) (history demo_broker @ [SocketRecv 7])). takeable (lib (packet_E [''x'', ''{m}'', []])) p"
    by (simp add: takeable_def packet_lib_def demo_json_def)
  from packets_forwarded [OF packet_doc this] show ?thesis
    by (auto simp: demo_broker_def packet_lib_def demo_json_def forwards_def list_all2_Cons1)
qed

text \<open>
  C31: so an opaque message never reaches Sim Mobility. The fields that the callback copies are not
  those that \<open>OpaqueSendHandler\<close> writes into its packets (\<open>opaque_send_effect\<close> says what these
  are): whatever was sent, by whom and to whom, the message that is forwarded for the
  packet is the same, has only nulls for fields, and no msg_type.
\<close>

theorem opaque_packets_lose_data:
  assumes "json_doc (lib E)" and "list_all (opaque_packet (lib E)) (ns_recv E (history w @ [SocketRecv s]))"
  shows "\<exists>vs. ReceivePacket E s w = Inr (w\<lparr>history := history w @ [SocketRecv s],
      m_outgoing := fold (\<lambda>v og. emit_json (lib E) og v) vs (m_outgoing w)\<rparr>) \<and>
    length vs = length (ns_recv E (history w @ [SocketRecv s])) \<and> list_all (\<lambda>v. is_object v blank_message) vs"
proof -
  let ?ps = "ns_recv E (history w @ [SocketRecv s])" and ?J = "lib E"
  have op: "opaque_packet ?J p" if "p \<in> set ?ps" for p using that assms(2) by (simp add: list_all_iff)
  then have "\<forall>p \<in> set ?ps. takeable ?J p"
    using is_object_members by (fastforce simp: opaque_packet_def takeable_def)
  from ReceivePacket_takeable [OF assms(1) this] obtain vs where vs:
    "ReceivePacket E s w = Inr (w\<lparr>history := history w @ [SocketRecv s], m_outgoing := fold (\<lambda>v og. emit_json ?J og v) vs (m_outgoing w)\<rparr>)"
    "list_all2 (forwards ?J) (filter (\<lambda>p. p \<noteq> [] \<and> js_parse ?J p \<noteq> None) ?ps) vs" by blast
  have "filter (\<lambda>p. p \<noteq> [] \<and> js_parse ?J p \<noteq> None) ?ps = ?ps"
    using op by (intro filter_True) (auto simp: opaque_packet_def)
  then have all: "list_all2 (forwards ?J) ?ps vs" using vs(2) by (simp only:)
  then have "\<exists>p \<in> set ?ps. forwards ?J p v" if "v \<in> set vs" for v
    using that all by (metis in_set_conv_nth list_all2_conv_all_nth)
  then have "list_all (\<lambda>v. is_object v blank_message) vs"
    using opaque_packet_forwards [OF op] by (auto simp: list_all_iff)
  then show ?thesis using vs(1) list_all2_lengthD [OF all] by (intro exI [of _ vs]) simp
qed

theorem opaque_packets_lose_data_witness:
  "\<exists>v. ReceivePacket (packet_E [''{o}'']) 7 demo_broker = Inr (demo_broker\<lparr>history := [SocketRecv 7],
      m_outgoing := emit_json packet_lib (m_outgoing demo_broker) v\<rparr>) \<and>
    is_object v blank_message"
proof -
  let ?j = "objectValue [(''to_id'', stringValue ''b''), (''data'', stringValue ''d''), (''from_id'', stringValue ''a''),
        (''msg_type'', stringValue ''opaque_receive'')]"
  have "js_parse packet_lib ''{o}'' = Some ?j" by (simp add: packet_lib_def demo_json_def)
  moreover have "is_object ?j ((opaque_receive (demo_os ''a''))(''to_id'' \<mapsto> stringValue ''b''))"
    by (auto simp: is_object_def opaque_receive_def demo_os_def fun_eq_iff)
  ultimately have "opaque_packet packet_lib ''{o}''" unfolding opaque_packet_def by fastforce
  then have "list_all (opaque_packet (lib (packet_E [''{o}'']))) (ns_recv (packet_E [''{o}'']) (history demo_broker @ [SocketRecv 7]))"
    by simp
  from opaque_packets_lose_data [OF packet_doc this] show ?thesis
    by (auto simp: demo_broker_def length_Suc_conv)
qed

end
