(* ===== verification/RR_Log.thy ===== *)
theory RR_Log
  imports RR_Replay
begin

text \<open>
  What the baseline logs. The profiler keeps its lines in memory until it is deleted: so
  \<open>rr_pause_logs\<close> says which lines a tick adds to the buffer, \<open>rr_run_logs\<close> which ones a run
  adds, and that neither of them writes to the file.
\<close>

section \<open>Lines\<close>

text \<open>An entry is the action with its three numbers; a line has the time it was logged at as well.\<close>

type_synonym log_entry = "string \<times> int \<times> int \<times> int"

definition entry_line :: "string \<Rightarrow> log_entry \<Rightarrow> string" where
  "entry_line time e = (case e of (item, tick, agents, comms) \<Rightarrow> log_line (log_fields item time tick agents comms))"

definition log_of :: "log_entry list \<Rightarrow> string \<Rightarrow> bool" where
  "log_of es s \<longleftrightarrow> (\<exists>times. length times = length es \<and> s = concat (map2 entry_line times es))"

lemma log_of_Nil: "log_of [] []"
  by (simp add: log_of_def)

lemma log_of_line: "log_of [e] (entry_line time e)"
  unfolding log_of_def by (intro exI [of _ "[time]"]) simp

lemma log_of_append: "log_of es s \<Longrightarrow> log_of es' s' \<Longrightarrow> log_of (es @ es') (s @ s')"
proof -
  assume "log_of es s" and "log_of es' s'"
  then obtain ts ts' where "length ts = length es" "s = concat (map2 entry_line ts es)"
      "length ts' = length es'" "s' = concat (map2 entry_line ts' es')"
    by (auto simp: log_of_def)
  then show ?thesis unfolding log_of_def by (intro exI [of _ "ts @ ts'"]) simp
qed

definition tick_begin :: "int \<Rightarrow> int \<Rightarrow> log_entry" where
  "tick_begin tick agents = (''simmob-tick-begin'', tick, agents, 0)"

definition tick_end :: "int \<Rightarrow> int \<Rightarrow> log_entry" where
  "tick_end tick agents = (''simmob-tick-end'', tick, agents, 0)"

definition loop_begin :: log_entry where
  "loop_begin = (''simmob-loop-begin-main-loop'', - 1, - 1, - 1)"

definition loop_end :: log_entry where
  "loop_end = (''simmob-loop-end-main-loop'', - 1, - 1, - 1)"

lemma log_with_lines:
  "\<exists>time. log_with (logTickBegin E tick agents 0) w = w\<lparr>history := history w @ [ClockGet],
     profiler := (profiler w)\<lparr>currLog := currLog (profiler w) @ entry_line time (tick_begin tick agents)\<rparr>\<rparr>"
  "\<exists>time. log_with (logTickEnd E tick agents 0) w = w\<lparr>history := history w @ [ClockGet],
     profiler := (profiler w)\<lparr>currLog := currLog (profiler w) @ entry_line time (tick_end tick agents)\<rparr>\<rparr>"
  "\<exists>time. log_with (logSiMobilityBegin E) w = w\<lparr>history := history w @ [ClockGet],
     profiler := (profiler w)\<lparr>currLog := currLog (profiler w) @ entry_line time loop_begin\<rparr>\<rparr>"
  "\<exists>time. log_with (logSiMobilityEnd E) w = w\<lparr>history := history w @ [ClockGet],
     profiler := (profiler w)\<lparr>currLog := currLog (profiler w) @ entry_line time loop_end\<rparr>\<rparr>"
  by (auto simp: log_with_def logTickBegin_def logTickEnd_def logSiMobilityBegin_def logSiMobilityEnd_def
      logGeneric_line call_def entry_line_def tick_begin_def tick_end_def loop_begin_def loop_end_def)

section \<open>A tick\<close>

text \<open>Two states in which the file has the same text and the buffer has grown by the lines of \<open>es\<close>.\<close>

definition logs :: "log_entry list \<Rightarrow> rr_world \<Rightarrow> rr_world \<Rightarrow> bool" where
  "logs es w w' \<longleftrightarrow> log_text (history w') = log_text (history w) \<and> profilers w' = profilers w \<and>
     (\<exists>s. currLog (profiler w') = currLog (profiler w) @ s \<and> log_of es s)"

lemma logs_nothing:
  "log_text (history w') = log_text (history w) \<Longrightarrow> profilers w' = profilers w \<Longrightarrow> profiler w' = profiler w \<Longrightarrow> logs [] w w'"
  using log_of_Nil by (auto simp: logs_def)

lemma logs_trans [trans]: "logs es u v \<Longrightarrow> logs es' v w \<Longrightarrow> logs (es @ es') u w"
  using log_of_append by (fastforce simp: logs_def)

lemma logs_line: "logs [e] w (w\<lparr>history := history w @ [ClockGet], profiler := (profiler w)\<lparr>currLog := currLog (profiler w) @ entry_line time e\<rparr>\<rparr>)"
  using log_of_line by (auto simp: logs_def)

definition tick_lines :: "nat \<Rightarrow> uint \<Rightarrow> rr_world \<Rightarrow> log_entry list" where
  "tick_lines i iv w =
     (let (t, tt) = trace_time_ticks w ! i; tick = to_int (uint (t div iv)); agents = to_int (int (length (update_agent tt)))
      in [tick_begin tick agents, tick_end tick agents])"

lemma plan_next_logs:
  "logs (if at_end w then [loop_end] else []) w (plan_next E w)" "trace_time_ticks (plan_next E w) = trace_time_ticks w"
  "currTick (plan_next E w) = currTick w" "interval (plan_next E w) = interval w"
  "outer (history (plan_next E w)) = outer (history w) @ [if at_end w then SimulatorStop else Schedule (unat (interval w))]"
proof -
  let ?w1 = "(call CpuClock w)\<lparr>end_time := Some (os_cpu E (history (call CpuClock w)))\<rparr>"
  obtain time where log: "log_with (logSiMobilityEnd E) ?w1 = ?w1\<lparr>history := history ?w1 @ [ClockGet],
      profiler := (profiler ?w1)\<lparr>currLog := currLog (profiler ?w1) @ entry_line time loop_end\<rparr>\<rparr>"
    using log_with_lines(4) by blast
  then show "logs (if at_end w then [loop_end] else []) w (plan_next E w)"
    "trace_time_ticks (plan_next E w) = trace_time_ticks w" "currTick (plan_next E w) = currTick w" "interval (plan_next E w) = interval w"
    "outer (history (plan_next E w)) = outer (history w) @ [if at_end w then SimulatorStop else Schedule (unat (interval w))]"
    using log_of_line log_of_Nil by (auto simp: plan_next_def Let_def logs_def call_def)
qed

lemma pushToQueue_Inr:
  "pushToQueue E w = Inr w' \<Longrightarrow> \<exists>c. w' = w\<lparr>m_incoming := push c (m_incoming w)\<rparr>"
  by (auto simp: pushToQueue_def Let_def outcome_simps split: prod.splits)

lemma rr_more:
  assumes "broker_world.more w' = broker_world.more (w :: rr_world)"
  shows "profiler w' = profiler w" and "profilers w' = profilers w" and "trace_time_ticks w' = trace_time_ticks w"
    and "currTick w' = currTick w" and "interval w' = interval w"
  using assms by (cases w; cases w'; simp)+

lemma rr_pause_logs:
  fixes w :: rr_world
  assumes pause: "rr_pause E w = Inr w'" and i: "currTick w = Some i"
  shows "i < length (trace_time_ticks w)" and "trace_time_ticks w' = trace_time_ticks w" and "currTick w' = Some (Suc i)"
    and "interval w' = next_interval i w"
    and "logs (tick_lines i (next_interval i w) w @ (if Suc i = length (trace_time_ticks w) then [loop_end] else [])) w w'"
    and "outer (history w') = outer (history w) @
      [if Suc i = length (trace_time_ticks w) then SimulatorStop else Schedule (unat (next_interval i w))]"
proof -
  let ?T = "trace_time_ticks w"
  have "feedback w \<noteq> Inl Undefined" using pause by (auto simp: rr_pause_def)
  then show less: "i < length ?T" using i by (auto simp: feedback_def tick_at_def vec_index_def split: if_splits)
  obtain t tt where tt: "?T ! i = (t, tt)" by (cases "?T ! i")
  obtain c where push: "pushToQueue E w = Inr (w\<lparr>m_incoming := push c (m_incoming w)\<rparr>)"
    using pause pushToQueue_Inr by (fastforce simp: rr_pause_def outcome_simps)
  let ?w1 = "w\<lparr>m_incoming := push c (m_incoming w)\<rparr>" and ?iv = "next_interval i w"
  define w2 where "w2 = ?w1\<lparr>prevTick := Some i, currTick := Some (Suc i), interval := ?iv\<rparr>"
  have adv: "advance ?w1 = Inr w2" using advance_eq [of ?w1 i] i less by (simp add: w2_def next_interval_def)
  have prev: "tick_at (prevTick w2) w2 = Inr (t, tt)" using less tt by (simp add: w2_def tick_at_def vec_index_def)
  define tick agents where "tick = to_int (uint (t div ?iv))" and "agents = to_int (int (length (update_agent tt)))"
  have iv: "interval w2 = ?iv" by (simp add: w2_def)
  from pause push adv prev iv obtain w3 where w3: "processIncoming E (log_with (logTickBegin E tick agents 0) w2) = Inr w3"
    and w': "w' = plan_next E (log_with (logTickEnd E tick agents 0) w3)"
    by (auto simp: rr_pause_def outcome_simps tick_def agents_def Let_def split: if_splits)
  obtain t1 where b: "log_with (logTickBegin E tick agents 0) w2 = w2\<lparr>history := history w2 @ [ClockGet],
      profiler := (profiler w2)\<lparr>currLog := currLog (profiler w2) @ entry_line t1 (tick_begin tick agents)\<rparr>\<rparr>" (is "_ = ?b")
    using log_with_lines(1) by blast
  obtain t2 where e: "log_with (logTickEnd E tick agents 0) w3 = w3\<lparr>history := history w3 @ [ClockGet],
      profiler := (profiler w3)\<lparr>currLog := currLog (profiler w3) @ entry_line t2 (tick_end tick agents)\<rparr>\<rparr>" (is "_ = ?e")
    using log_with_lines(2) by blast
  have only: "processing_only ?b w3" using processIncoming_only(1) w3 unfolding b by blast
  then have more: "broker_world.more w3 = broker_world.more ?b" and kept: "log_text (history w3) = log_text (history ?b)"
    and out: "outer (history w3) = outer (history ?b)"
    by (simp_all add: processing_only_def)
  have same: "profiler w3 = profiler ?b" "profilers w3 = profilers ?b" "trace_time_ticks w3 = ?T"
      "currTick w3 = Some (Suc i)" "interval w3 = ?iv"
    using rr_more [OF more] by (simp_all add: w2_def)
  have "logs [] w w2" by (rule logs_nothing) (simp_all add: w2_def)
  also have "logs [tick_begin tick agents] w2 ?b" by (rule logs_line)
  also have "logs [] ?b w3" by (rule logs_nothing [OF kept same(2,1)])
  also have "logs [tick_end tick agents] w3 ?e" by (rule logs_line)
  also have "logs (if at_end ?e then [loop_end] else []) ?e w'" unfolding w' e by (rule plan_next_logs)
  finally show "logs (tick_lines i ?iv w @ (if Suc i = length ?T then [loop_end] else [])) w w'"
    using same tt by (simp add: tick_lines_def at_end_def tick_def agents_def Let_def split: if_splits)
  show "trace_time_ticks w' = ?T" "currTick w' = Some (Suc i)" "interval w' = ?iv"
    unfolding w' e plan_next_logs using same by simp_all
  show "outer (history w') = outer (history w) @ [if Suc i = length ?T then SimulatorStop else Schedule (unat ?iv)]"
    unfolding w' e plan_next_logs(5) using same out by (simp add: at_end_def w2_def)
qed

section \<open>A run\<close>

text \<open>The interval that the number of a tick is computed with: to the next tick; for the last one, from the one before.\<close>

definition interval_at :: "(uint \<times> TimeTick) list \<Rightarrow> nat \<Rightarrow> uint" where
  "interval_at T i = (if Suc i < length T then fst (T ! Suc i) - fst (T ! i) else fst (T ! i) - fst (T ! (i - 1)))"

definition run_lines :: "rr_world \<Rightarrow> nat \<Rightarrow> log_entry list" where
  "run_lines w i = tick_lines i (interval_at (trace_time_ticks w) i) w"

lemma rr_run_logs:
  fixes w :: rr_world
  assumes "rr_run E k w = Inr w'" and "currTick w = Some i" and "i + k = length (trace_time_ticks w)"
    and "0 < i \<longrightarrow> interval w = fst (trace_time_ticks w ! i) - fst (trace_time_ticks w ! (i - 1))" and "1 < i + k"
  shows "logs (concat (map (run_lines w) [i..<i + k]) @ (if k = 0 then [] else [loop_end])) w w'"
  using assms
proof (induction k arbitrary: i w)
  case 0
  then show ?case by (simp add: logs_nothing)
next
  case (Suc k)
  let ?T = "trace_time_ticks w"
  from Suc.prems(1) obtain w1 where w1: "rr_pause E w = Inr w1" "rr_run E k w1 = Inr w'" by (auto simp: outcome_simps)
  note p = rr_pause_logs [OF w1(1) Suc.prems(2)]
  have iv: "next_interval i w = interval_at ?T i"
    using Suc.prems(3-5) by (auto simp: next_interval_def interval_at_def)
  have same: "run_lines w1 = run_lines w"
    by (intro ext) (simp add: run_lines_def tick_lines_def p(2))
  have last: "(Suc i = length ?T) = (k = 0)" using Suc.prems(3) by auto
  have first: "logs (run_lines w i @ (if k = 0 then [loop_end] else [])) w w1"
    using p(5) unfolding iv last run_lines_def .
  have upt: "[i..<i + Suc k] = i # [Suc i..<Suc i + k]" by (simp add: upt_rec)
  show ?case
  proof (cases k)
    case 0
    with first w1(2) show ?thesis unfolding upt by simp
  next
    case (Suc k')
    have "interval w1 = fst (?T ! Suc i) - fst (?T ! i)"
      using p(4) iv Suc Suc.prems(3) by (simp add: interval_at_def)
    then have "logs (concat (map (run_lines w) [Suc i..<Suc i + k]) @ (if k = 0 then [] else [loop_end])) w1 w'"
      using Suc.IH [OF w1(2) p(3)] Suc.prems(3) \<open>k = Suc k'\<close> unfolding same p(2) by (simp del: upt_Suc)
    from logs_trans [OF first this] Suc show ?thesis unfolding upt by simp
  qed
qed

section \<open>The start\<close>

text \<open>The calls that make the nodes neither log nor steer the simulator.\<close>

definition silent :: "rr_world \<Rightarrow> rr_world \<Rightarrow> bool" where
  "silent w w' \<longleftrightarrow> profiler w' = profiler w \<and> profilers w' = profilers w \<and>
     (\<exists>h. history w' = history w @ h \<and> log_text h = [] \<and> outer h = [])"

lemma silent_refl [simp]: "silent w w"
  by (simp add: silent_def)

lemma silent_trans [trans]: "silent u v \<Longrightarrow> silent v w \<Longrightarrow> silent u w"
  unfolding silent_def by auto

lemma silent_call: "log_text [e] = [] \<Longrightarrow> outer [e] = [] \<Longrightarrow> silent w (call e w)"
  by (simp add: silent_def call_def)

lemma silent_same: "same_agents p w w' \<Longrightarrow> silent w w'"
  using rr_same [of w' w] by (auto simp: silent_def same_agents_def agents_only_def)

lemma install_protocol_silent: "install_protocol E w = Inr (ds, w') \<Longrightarrow> silent w w'"
  by (auto simp: install_protocol_def Let_def silent_def call_def split: if_splits)

lemma attach_agent_silent:
  assumes "attach_agent E ifaces i w = Inr w'"
  shows "silent w w'"
proof -
  from assms obtain p w1 where w1: "initSocket E p w1 = Inr w'" "history w1 = history w" "profiler w1 = profiler w" "profilers w1 = profilers w"
    by (auto simp: attach_agent_def access_simps Let_def create_object_def AddAgent_def put_agent_def)
  then have "silent w w1" by (simp add: silent_def)
  also have "silent w1 w'" using initSocket_same [OF w1(1)] by (rule silent_same)
  finally show ?thesis .
qed

lemma createNodes_silent:
  assumes "createNodes E w = Inr w'"
  shows "silent w w'"
proof -
  let ?w1 = "call (CreateNodes (unat (maxNOFAgents w))) w"
  let ?w2 = "?w1\<lparr>RRNC := RRNC ?w1 @ ns_new_nodes E (history ?w1)\<rparr>"
  from assms obtain ds w3 where w3: "install_protocol E ?w2 = Inr (ds, w3)"
    and loop: "fold_outcome (attach_agent E (ns_interfaces E (history (call (AddressAssign ds)
        (call (AddressBase ''10.0.0.0'' ''255.255.0.0'') (call (InternetInstall (RRNC w3)) w3))))))
      [0..<length (RRNC w3)] (call (MobilityInstall (RRNC w3)) (call (AddressAssign ds)
        (call (AddressBase ''10.0.0.0'' ''255.255.0.0'') (call (InternetInstall (RRNC w3)) w3)))) = Inr w'"
    by (auto simp: createNodes_def outcome_simps Let_def call_def)
  have "silent w ?w2" by (simp add: silent_def call_def)
  also have "silent ?w2 w3" using w3 by (rule install_protocol_silent)
  also have "silent w3 (call (InternetInstall (RRNC w3)) w3)" by (rule silent_call) simp_all
  also have "silent \<dots> (call (AddressBase ''10.0.0.0'' ''255.255.0.0'') (call (InternetInstall (RRNC w3)) w3))"
    by (rule silent_call) simp_all
  also have "silent \<dots> (call (AddressAssign ds) (call (AddressBase ''10.0.0.0'' ''255.255.0.0'') (call (InternetInstall (RRNC w3)) w3)))"
    by (rule silent_call) simp_all
  also have "silent \<dots> (call (MobilityInstall (RRNC w3)) (call (AddressAssign ds)
        (call (AddressBase ''10.0.0.0'' ''255.255.0.0'') (call (InternetInstall (RRNC w3)) w3))))"
    by (rule silent_call) simp_all
  also have "silent \<dots> w'"
    by (rule fold_outcome_invariant [OF loop]) (auto intro: silent_trans attach_agent_silent)
  finally show ?thesis .
qed

lemma rr_start_logs:
  assumes "rr_start E B f w0 = Inr (ok, w)" and "agent_limit w0 = []" and "agentsList w0 = []"
  shows "logs [loop_begin] w0 w" and "\<exists>h. history w = history w0 @ h \<and> outer h = [Schedule 0]" and ok
proof -
  from assms(1) obtain w1 w2 where w1: "parse E B f w0 = Inr w1" and w2: "createNodes E w1 = Inr w2"
    by (auto simp: rr_start_def outcome_simps Let_def)
  have "trace_only (w0\<lparr>history := history w0 @ [Sleep 2, TraceOpen f]\<rparr>) w1"
    using w1 assms(2,3) by (rule parse_Inr) blast
  then have "silent w0 w1" by (cases w0; cases w1; simp add: silent_def trace_only_def)
  also have "silent w1 w2" using w2 by (rule createNodes_silent)
  finally obtain h where h: "profiler w2 = profiler w0" "profilers w2 = profilers w0" "history w2 = history w0 @ h"
      "log_text h = []" "outer h = []" by (auto simp: silent_def)
  let ?w3 = "w2\<lparr>prevTick := Some (length (trace_time_ticks w2)), currTick := Some 0\<rparr>"
  obtain time where log: "log_with (logSiMobilityBegin E) ?w3 = ?w3\<lparr>history := history ?w3 @ [ClockGet],
      profiler := (profiler ?w3)\<lparr>currLog := currLog (profiler ?w3) @ entry_line time loop_begin\<rparr>\<rparr>"
    using log_with_lines(3) by blast
  have w: "ok" "history w = history w0 @ h @ [ClockGet, CpuClock, Schedule 0]" "profilers w = profilers w0"
      "currLog (profiler w) = currLog (profiler w0) @ entry_line time loop_begin"
    using assms(1) h by (auto simp: rr_start_def w1 w2 log Let_def call_def)
  then show "logs [loop_begin] w0 w" "\<exists>h. history w = history w0 @ h \<and> outer h = [Schedule 0]" ok
    using log_of_line h(4,5) by (auto simp: logs_def)
qed

end
