(* ===== verification/Programs.thy ===== *)
theory Programs
  imports RR_Log Broker_Start
begin

text \<open>
  The two programs (examples/simmobility-example.cc and examples/simmobility-RR-baseline.cc):
  what the command line sets, the defaults of ns-3 that \<open>main\<close> sets, the life of the broker,
  and the exit code. The parsed command line is a parameter, a value for each option that was
  given. \<open>Simulator::Run\<close> calls what has been scheduled until nothing is left or it is stopped.
  For the baseline that is a loop, \<open>rr_simulate\<close>, which is bounded by a number of calls; for the
  client it is a run of the two threads, \<open>example_exit\<close>.
\<close>

section \<open>Command lines\<close>

record command_line =
  cl_string :: "string \<Rightarrow> string option"
  cl_unsigned :: "string \<Rightarrow> uint option"
  cl_bool :: "string \<Rightarrow> bool option"

definition given :: "'a option \<Rightarrow> 'a \<Rightarrow> 'a" where
  "given v old = (case v of None \<Rightarrow> old | Some x \<Rightarrow> x)"

text \<open>\<open>Config::SetDefault\<close>, three times, with the mode for non-unicast frames.\<close>

definition set_defaults :: "string \<Rightarrow> 'z base_world_scheme \<Rightarrow> 'z base_world_scheme" where
  "set_defaults phyMode w =
     (let w1 = call (ConfigDefault ''ns3::WifiRemoteStationManager::FragmentationThreshold'' ''2200'') w;
          w2 = call (ConfigDefault ''ns3::WifiRemoteStationManager::RtsCtsThreshold'' ''2200'') w1 in
      call (ConfigDefault ''ns3::WifiRemoteStationManager::NonUnicastMode'' phyMode) w2)"

section \<open>The client\<close>

record example_options =
  ex_application :: string
  ex_host :: string
  ex_port :: string

definition example_defaults :: example_options where
  "example_defaults = \<lparr>ex_application = ''stk'', ex_host = ''127.0.0.1'', ex_port = ''6745''\<rparr>"

definition example_parse_command_line :: "command_line \<Rightarrow> example_options \<Rightarrow> example_options" where
  "example_parse_command_line cl g =
     g\<lparr>ex_application := given (cl_string cl ''application'') (ex_application g),
       ex_host := given (cl_string cl ''host'') (ex_host g),
       ex_port := given (cl_string cl ''port'') (ex_port g)\<rparr>"

text \<open>\<open>main\<close> up to the test of what \<open>start\<close> has returned.\<close>

definition example_begin :: "env \<Rightarrow> command_line \<Rightarrow> (bool \<times> broker_world) outcome" where
  "example_begin E cl =
     (let g = example_parse_command_line cl example_defaults;
          w = set_defaults ''DsssRate1Mbps'' (snd (static_init E)) in
      ebind (new_Broker (history w) (ex_host g) (ex_port g)) (\<lambda>broker.
      start E (ex_application g) broker))"

text \<open>
  The simulator has run out of calls: one \<open>pause\<close> was scheduled at the start and one by each tick,
  and each has ended, in a tick or for good.
\<close>

definition run_over :: "action list \<Rightarrow> bool" where
  "run_over acts \<longleftrightarrow> 1 + ticks acts \<le> ticks acts + stops acts"

inductive example_exit :: "env \<Rightarrow> command_line \<Rightarrow> action list \<Rightarrow> int \<Rightarrow> broker_world \<Rightarrow> bool" for E cl where
  start_failed: "example_begin E cl = Inr (False, w) \<Longrightarrow> example_exit E cl [] 1 (delete_Broker w)"
| completed: "example_begin E cl = Inr (True, w) \<Longrightarrow> broker_run E w acts w1 \<Longrightarrow> run_over acts \<Longrightarrow>
     example_exit E cl acts 0 (delete_Broker (call SimulatorDestroy w1))"

section \<open>The baseline\<close>

record rr_options =
  rr_application :: string
  rr_trace :: string
  rr_out :: string
  rr_protocol :: string
  rr_nAgent :: uint
  rr_no_comm :: bool
  rr_no_loc :: bool

definition rr_defaults :: rr_options where
  "rr_defaults = \<lparr>rr_application = ''Default'', rr_trace = ''./src/simmobility/roadrunner_testing/trace_with_time.txt'',
     rr_out = ''./src/simmobility/roadrunner_testing/out.txt'', rr_protocol = ''80211b'', rr_nAgent = 10000,
     rr_no_comm = False, rr_no_loc = False\<rparr>"

definition rr_parse_command_line :: "command_line \<Rightarrow> rr_options \<Rightarrow> rr_options" where
  "rr_parse_command_line cl g =
     g\<lparr>rr_application := given (cl_string cl ''application'') (rr_application g),
       rr_trace := given (cl_string cl ''trace'') (rr_trace g),
       rr_out := given (cl_string cl ''output'') (rr_out g),
       rr_protocol := given (cl_string cl ''protocol'') (rr_protocol g),
       rr_nAgent := given (cl_unsigned cl ''nAgent'') (rr_nAgent g),
       rr_no_comm := given (cl_bool cl ''disable-communication'') (rr_no_comm g),
       rr_no_loc := given (cl_bool cl ''disable-location-update'') (rr_no_loc g)\<rparr>"

definition rr_construct :: "env \<Rightarrow> command_line \<Rightarrow> rr_world outcome" where
  "rr_construct E cl =
     (let g = rr_parse_command_line cl rr_defaults;
          phyMode = ''DsssRate1Mbps'';
          w = set_defaults phyMode (snd (static_init E)) in
      new_RoadRunnerBaseLine E (history w) (rr_protocol g) (rr_nAgent g) (rr_out g) (rr_no_comm g) (rr_no_loc g))"

text \<open>
  The simulator after \<open>n\<close> calls of \<open>pause\<close>. No packet is ever sent, so there is nothing
  else to run. None: the bound was too small.
\<close>

fun rr_simulate :: "env \<Rightarrow> nat \<Rightarrow> nat \<Rightarrow> rr_world \<Rightarrow> rr_world outcome option" where
  "rr_simulate E bound n w =
     (if 0 < halts (history w) \<or> length (planned (history w)) \<le> n then Some (Inr w)
      else case bound of 0 \<Rightarrow> None
      | Suc b \<Rightarrow> (case rr_pause E w of Inl e \<Rightarrow> Some (Inl e) | Inr w' \<Rightarrow> rr_simulate E b (Suc n) w'))"

declare rr_simulate.simps [simp del]

text \<open>A start that returns false is reported, and the program goes on.\<close>

definition rr_main :: "env \<Rightarrow> boostlib \<Rightarrow> nat \<Rightarrow> command_line \<Rightarrow> (int \<times> rr_world) outcome option" where
  "rr_main E B bound cl =
     (let g = rr_parse_command_line cl rr_defaults in
      case ebind (rr_construct E cl) (rr_start E B (rr_trace g)) of
        Inl e \<Rightarrow> Some (Inl e)
      | Inr (_, w) \<Rightarrow>
          map_option (\<lambda>r. ebind r (\<lambda>w1.
            ebind (delete_RoadRunnerBaseLine E (call SimulatorDestroy w1)) (\<lambda>w2. Inr (0, w2))))
          (rr_simulate E bound 0 w))"

section \<open>The baseline runs to its end\<close>

lemma sim_outer: "planned (outer h) = planned h" "halts (outer h) = halts h"
proof -
  show "planned (outer h) = planned h" by (induction h rule: planned.induct) simp_all
  have "halts (e # h) = (if e = SimulatorStop then 1 else 0) + halts h" for e h by (simp add: halts_def)
  then show "halts (outer h) = halts h"
    by (induction h) (auto simp: halts_def elim: is_outer.elims)
qed

lemma rr_simulate_run:
  fixes w :: rr_world
  assumes "rr_run E k w = Inr w'" and "currTick w = Some i" and "i + k = length (trace_time_ticks w)" and "0 < k"
    and "halts (history w) = 0" and "length (planned (history w)) = Suc n" and "k \<le> bound"
  shows "rr_simulate E bound n w = Some (Inr w')"
  using assms
proof (induction k arbitrary: i n bound w)
  case (Suc k)
  from Suc.prems(1) obtain w1 where w1: "rr_pause E w = Inr w1" "rr_run E k w1 = Inr w'" by (auto simp: outcome_simps)
  note p = rr_pause_logs [OF w1(1) Suc.prems(2)]
  from Suc.prems(7) obtain b where b: "bound = Suc b" "k \<le> b" by (cases bound) auto
  let ?e = "if Suc i = length (trace_time_ticks w) then SimulatorStop else Schedule (unat (next_interval i w))"
  have out: "planned (history w1) = planned (history w) @ planned [?e]" "halts (history w1) = halts (history w) + halts [?e]"
    using p(6) planned_append [of "outer (history w)" "[?e]"] halts_append [of "outer (history w)" "[?e]"]
    by (metis sim_outer)+
  have step: "rr_simulate E bound n w = rr_simulate E b (Suc n) w1"
    using Suc.prems(5,6) w1(1) b(1) by (subst rr_simulate.simps) simp
  show ?case
  proof (cases "k = 0")
    case True
    then have "halts (history w1) = 1" using out(2) Suc.prems(3,5) by (simp add: halts_def)
    then have "rr_simulate E b (Suc n) w1 = Some (Inr w1)" by (subst rr_simulate.simps) simp
    with True w1(2) step show ?thesis by simp
  next
    case False
    then have "Suc i \<noteq> length (trace_time_ticks w)" using Suc.prems(3) by simp
    then have "halts (history w1) = 0" "length (planned (history w1)) = Suc (Suc n)"
      using out Suc.prems(5,6) by (simp_all add: halts_def)
    then show ?thesis
      using Suc.IH [OF w1(2) p(3), of "Suc n" b] Suc.prems(3) False b(2) p(2) step by simp
  qed
qed simp

text \<open>The file stays open once it has been opened.\<close>

definition log_stays_open :: "env \<Rightarrow> bool" where
  "log_stays_open E \<longleftrightarrow> (\<forall>h path. LogOpen path \<in> set h \<and> LogClose \<notin> set h \<longrightarrow> log_ready E h)"

end
