(* ===== verification/Broker_Link_Props.thy ===== *)
theory Broker_Link_Props
  imports Broker_Props
begin

text \<open>
  The broker and its link to Sim Mobility: bundles that keep arriving are all queued and the
  I/O thread stays ready for more; a link that is lost leaves the simulator thread waiting
  for good.
\<close>

section \<open>Bundles that arrive\<close>

definition connected :: "env \<Rightarrow> 'z broker_world_scheme \<Rightarrow> bool" where
  "connected E w \<longleftrightarrow> m_session (conn w) \<noteq> None \<and> net_is_open E (history w)"

text \<open>\<open>open_by_links\<close>: the other calls leave the socket as it is.\<close>

lemma still_open: "open_by_links E \<Longrightarrow> net_is_open E h \<Longrightarrow> links h' = links h \<Longrightarrow> net_is_open E h'"
  by (metis open_by_links_def)

lemma open_until_close:
  assumes "net_is_open E = (\<lambda>h. NetClose \<notin> set h)"
  shows "open_by_links E"
proof -
  have "NetClose \<in> set h \<longleftrightarrow> NetClose \<in> set (links h)" for h by (induction h rule: links.induct) auto
  with assms show ?thesis unfolding open_by_links_def by metis
qed

text \<open>A text with its header that the broker can read, and what it reads.\<close>

definition arrives_as :: "env \<Rightarrow> BundleHeader \<times> string \<Rightarrow> MessageConglomerate \<Rightarrow> bool" where
  "arrives_as E b c \<longleftrightarrow> (case b of (h, body) \<Rightarrow> header_fits h \<and> length body = unat (remLen h) \<and> body \<noteq> [] \<and>
     deserialize (lib E) h body new_MessageConglomerate = Inr (True, c))"

lemma find_type_total:
  assumes "conglom_ok J c"
  shows "\<exists>r. find_type c ty (message_numbers c) = Inr r"
proof -
  have "\<forall>i \<in> set ns. i < getCount c \<Longrightarrow> \<exists>r. find_type c ty (map int ns) = Inr r" for ns
    by (induction ns) (auto simp: conglom_ok_get(1) [OF assms])
  then show ?thesis by (simp add: message_numbers_def)
qed

lemma one_arrives:
  assumes E: "open_by_links E" and w: "connected E w" "pending w = Some ReadHeader" and b: "arrives_as E b c"
  shows "\<exists>w1 w'. broker_step E w HeaderRead w1 \<and> broker_step E w1 (Delivered [c]) w' \<and> connected E w' \<and>
    pending w' = Some ReadHeader \<and> \<not> m_pause w' \<and> messageList (m_incoming w') = messageList (m_incoming w) @ [c]"
proof -
  obtain h body where b': "b = (h, body)" "header_fits h" "length body = unat (remLen h)" "body \<noteq> []"
      "deserialize (lib E) h body new_MessageConglomerate = Inr (True, c)"
    using b by (cases b) (auto simp: arrives_as_def)
  obtain s where s: "m_session (conn w) = Some s" using w(1) by (auto simp: connected_def)
  have len: "length (make_bundle_header h) = header_length" by (simp add: make_bundle_header_in_use length_make_v1)
  have n: "remLen h \<noteq> 0" using b'(3,4) by auto
  let ?s1 = "s\<lparr>inbound_header := make_bundle_header h\<rparr>"
  let ?w0 = "(set_session ?s1 w)\<lparr>pending := None\<rparr>"
  have a1: "arrive_header (make_bundle_header h) w = Inr ?w0" using s by (simp add: arrive_header_def with_session_def)
  obtain w1 where w1: "handle_read_header (io_handler E) None ?w0 = Inr w1" "pending w1 = Some (ReadData (length body))"
      "history w1 = history w @ [NetAsyncRead (length body)]" "m_session (conn w1) \<noteq> None" "incomingHeader (conn w1) = h"
      "m_incoming w1 = m_incoming w"
    using n header_over_wire [OF b'(2)]
    by (simp add: handle_read_header_def with_session_def Let_def len set_session_def call_def flip: b'(3))
  have step1: "broker_step E w HeaderRead w1" by (rule broker_step.header_read [OF w(2) len a1 w1(1)])
  obtain s1 where s1: "m_session (conn w1) = Some s1" using w1(4) by blast
  let ?v = "(set_session (s1\<lparr>inbound_data := body\<rparr>) w1)\<lparr>pending := None\<rparr>"
  let ?u = "?v\<lparr>conn := (conn ?v)\<lparr>incomingMessage := body\<rparr>\<rparr>"
  have a2: "arrive_data body w1 = Inr ?v" using s1 by (simp add: arrive_data_def with_session_def)
  obtain r where r: "find_type c ''ticked_simmob'' (message_numbers c) = Inr r"
    using find_type_total deserialize_ok [OF b'(5)] by blast
  have omr: "onMessageReceived E h body ?u = Inr (?u\<lparr>m_incoming := push c (m_incoming w), m_pause := False\<rparr>)"
    using b'(4,5) r w1(6) by (simp add: onMessageReceived_def parsePacket_def set_session_def)
  let ?t = "?u\<lparr>m_incoming := push c (m_incoming w), m_pause := False\<rparr>"
  have up: "net_is_open E (history ?t)"
    using w(1) w1(3) by (auto simp: connected_def set_session_def intro: still_open [OF E])
  let ?w' = "async_read (?t\<lparr>conn := (conn ?t)\<lparr>incomingMessage := []\<rparr>\<rparr>)"
  have io: "handle_read_data (\<lambda>_. delivery E) None ?v = Inr ?w'"
    using omr up w1(5)
    by (simp add: handle_read_data_def with_session_def delivery_def set_session_def async_receive_def
        isOpen_def session_isOpen_def)
  have "broker_step E w1 (Delivered (accepted E (incomingHeader (conn w1)) body)) ?w'"
    by (rule broker_step.data_read [OF w1(2) refl a2 io])
  moreover have "accepted E (incomingHeader (conn w1)) body = [c]" using b'(4,5) w1(5) by (simp add: accepted_def)
  ultimately have step2: "broker_step E w1 (Delivered [c]) ?w'" by simp
  have "connected E ?w'" "pending ?w' = Some ReadHeader" "\<not> m_pause ?w'"
      "messageList (m_incoming ?w') = messageList (m_incoming w) @ [c]"
    using w(1) w1(3) by (auto simp: connected_def async_read_def call_def set_session_def push_def intro: still_open [OF E])
  with step1 step2 show ?thesis by blast
qed

lemma all_arrive:
  assumes "open_by_links E" and "connected E w" and "pending w = Some ReadHeader" and "list_all2 (arrives_as E) bs cs"
  shows "\<exists>w'. broker_run E w (concat (map (\<lambda>c. [HeaderRead, Delivered [c]]) cs)) w' \<and> connected E w' \<and>
    pending w' = Some ReadHeader \<and> messageList (m_incoming w') = messageList (m_incoming w) @ cs \<and> (cs = [] \<or> \<not> m_pause w')"
  using assms(4)
proof (induction bs arbitrary: cs rule: rev_induct)
  case Nil
  then show ?case using assms by (auto intro: run_nil)
next
  case (snoc b bs)
  then obtain ds c where cs: "cs = ds @ [c]" "list_all2 (arrives_as E) bs ds" "arrives_as E b c"
    by (auto simp: list_all2_append1 list_all2_Cons1)
  obtain v where v: "broker_run E w (concat (map (\<lambda>c. [HeaderRead, Delivered [c]]) ds)) v" "connected E v"
      "pending v = Some ReadHeader" "messageList (m_incoming v) = messageList (m_incoming w) @ ds"
    using snoc.IH [OF cs(2)] by blast
  obtain w1 w' where s: "broker_step E v HeaderRead w1" "broker_step E w1 (Delivered [c]) w'" "connected E w'"
      "pending w' = Some ReadHeader" "\<not> m_pause w'" "messageList (m_incoming w') = messageList (m_incoming v) @ [c]"
    using one_arrives [OF assms(1) v(2,3) cs(3)] by blast
  have "broker_run E w ((concat (map (\<lambda>c. [HeaderRead, Delivered [c]]) ds) @ [HeaderRead]) @ [Delivered [c]]) w'"
    using v(1) s(1,2) by (blast intro: run_snoc)
  then show ?case using s(3-6) v(4) by (auto simp: cs(1))
qed

section \<open>A link that is lost\<close>

text \<open>No read is under way and the simulator thread waits.\<close>

definition stalled :: "'z broker_world_scheme \<Rightarrow> bool" where
  "stalled w \<longleftrightarrow> m_pause w \<and> pending w = None"

lemma stalled_step:
  assumes "broker_step E w a w'" and "stalled w"
  shows "(a = Spun \<or> a = PacketIn) \<and> stalled w' \<and> written (history w') = written (history w) \<and> m_global_tick w' = m_global_tick w"
  using assms
proof (induction rule: broker_step.induct)
  case (spin w w')
  then show ?case using pause_spin [OF spin(1)] by simp
next
  case (tick w w')
  then show ?case by (simp add: stalled_def pause_iteration_def)
next
  case (stop w w')
  then show ?case by (simp add: stalled_def pause_iteration_def)
next
  case (packet s w w')
  then show ?case by (auto elim!: packet_arrives_Inr simp: stalled_def written_append)
qed (simp_all add: stalled_def)

lemma stalled_run:
  assumes "broker_run E w acts w'" and "stalled w"
  shows "set acts \<subseteq> {Spun, PacketIn} \<and> stalled w' \<and> written (history w') = written (history w) \<and> m_global_tick w' = m_global_tick w"
  using assms
proof (induction rule: broker_run.induct)
  case (run_snoc w acts w1 a w')
  then show ?case using stalled_step [OF run_snoc(2)] by auto
qed simp

text \<open>After an end of file: the socket is closed, and at most the delivery is left to do.\<close>

definition link_down :: "env \<Rightarrow> 'z broker_world_scheme \<Rightarrow> bool" where
  "link_down E w \<longleftrightarrow> \<not> net_is_open E (history w) \<and> pending w \<in> {None, Some AtEof}"

lemma eof_closed_down:
  assumes "closed_after_close E"
  shows "link_down E ((closeSocket w)\<lparr>pending := Some AtEof\<rparr>)"
  using assms by (simp add: link_down_def closeSocket_def closed_after_close_def)

lemma down_tick: "link_down E w \<Longrightarrow> pause_iteration E w \<noteq> Inr (Rescheduled, w')"
  by (auto simp: link_down_def pause_iteration_def isOpen_def with_session_def session_isOpen_def Let_def split: option.splits)

lemma eof_delivery:
  assumes "delivery E (w\<lparr>pending := None\<rparr>) = Inr w'" and "\<not> net_is_open E (history w)"
  shows "pending w' = None" and "history w' = history w" and "m_global_tick w' = m_global_tick w"
  using assms by (auto elim: delivery_cases)

text \<open>The deliveries that are still to come.\<close>

definition to_deliver :: "'z broker_world_scheme \<Rightarrow> nat" where
  "to_deliver w = (if pending w = Some AtEof then 1 else 0)"

lemma down_step:
  assumes E: "open_by_links E" and "broker_step E w a w'" and down: "link_down E w"
  shows "link_down E w' \<and> ticks [a] = 0 \<and> wakes [a] + to_deliver w' = to_deliver w \<and>
    a \<in> {Spun, PacketIn, Stopped} \<union> range Delivered \<and>
    written (history w') = written (history w) \<and> m_global_tick w' = m_global_tick w"
  using assms(2)
proof cases
  case eof_delivered
  with eof_delivery [OF eof_delivered(3)] down show ?thesis by (simp add: link_down_def to_deliver_def)
next
  case spin
  then show ?thesis using pause_spin down by fastforce
next
  case tick
  then show ?thesis using down_tick [OF down] by blast
next
  case stop
  then show ?thesis using pause_stop down by (fastforce simp: link_down_def to_deliver_def)
next
  case (packet s)
  from packet(2) obtain h og where "w' = w\<lparr>history := history w @ h, m_outgoing := og\<rparr>" "h \<in> {[], [SocketRecv s]}"
    by (rule packet_arrives_Inr)
  moreover from this have "links (history w') = links (history w)" by auto
  ultimately show ?thesis using packet(1) down still_open [OF E, of "history w'" "history w"]
    by (auto simp: link_down_def to_deliver_def written_append)
qed (use down in \<open>auto simp: link_down_def\<close>)

lemma down_run:
  assumes E: "open_by_links E" and "broker_run E w acts w'" and "link_down E w"
  shows "link_down E w' \<and> ticks acts = 0 \<and> wakes acts + to_deliver w' = to_deliver w \<and>
    set acts \<subseteq> {Spun, PacketIn, Stopped} \<union> range Delivered \<and>
    written (history w') = written (history w) \<and> m_global_tick w' = m_global_tick w"
  using assms(2,3)
proof (induction rule: broker_run.induct)
  case (run_snoc w acts w1 a w')
  then have "link_down E w1" by blast
  from down_step [OF E run_snoc.hyps(2) this] run_snoc show ?case by (auto simp: label_append)
qed simp

lemma failed_stalled:
  assumes "broker_step E w (ReadFailed ec) w1" and "ec \<noteq> EndOfFile"
  shows "w1 = w\<lparr>pending := None\<rparr>"
  using assms(1)
  by (rule read_failedE) (use assms(2) in \<open>blast dest: read_failed_only(1,2) [THEN iffD1, rotated]\<close>)+

lemma eof_down:
  assumes "broker_step E w (ReadFailed EndOfFile) w1"
  shows "w1 = (closeSocket w)\<lparr>pending := Some AtEof\<rparr>"
  using assms by (auto elim: read_failedE)

section \<open>Properties\<close>

text \<open>
  While the connection is up, bundles that arrive one after the other are all received: for
  each one the I/O thread reads the header and then exactly the text that it announces,
  queues what the text says, wakes the simulator thread, and is ready for the next one. The
  bundles stay in order, behind those that were queued before.
\<close>

theorem bundles_arrive:
  assumes "open_by_links E" and "connected E w" and "pending w = Some ReadHeader" and "list_all2 (arrives_as E) bs cs"
  shows "\<exists>w'. broker_run E w (concat (map (\<lambda>c. [HeaderRead, Delivered [c]]) cs)) w' \<and> connected E w' \<and>
    pending w' = Some ReadHeader \<and> messageList (m_incoming w') = messageList (m_incoming w) @ cs \<and> (\<not> m_pause w' \<longleftrightarrow> cs \<noteq> [] \<or> \<not> m_pause w)"
proof -
  obtain w' where w': "broker_run E w (concat (map (\<lambda>c. [HeaderRead, Delivered [c]]) cs)) w'" "connected E w'"
      "pending w' = Some ReadHeader" "messageList (m_incoming w') = messageList (m_incoming w) @ cs" "cs = [] \<or> \<not> m_pause w'"
    using all_arrive [OF assms] by blast
  moreover have "cs = [] \<Longrightarrow> w' = w" using w'(1) by (simp add: run_nil_iff)
  ultimately show ?thesis by blast
qed

definition demo_linked :: broker_world where
  "demo_linked = demo_broker\<lparr>history := [NetConnect 0], pending := Some ReadHeader\<rparr>"

theorem bundles_arrive_witness:
  "\<exists>w'. broker_run tick_E demo_linked [HeaderRead, Delivered [tick_bundle], HeaderRead, Delivered [tick_bundle]] w' \<and>
     messageList (m_incoming w') = [tick_bundle, tick_bundle] \<and> \<not> m_pause w'"
proof -
  have "open_by_links tick_E" by (simp add: open_until_close)
  moreover have "connected tick_E demo_linked" "pending demo_linked = Some ReadHeader"
    by (simp_all add: connected_def demo_linked_def demo_broker_def tick_connection_def)
  moreover have "arrives_as tick_E (demo_header, tick_text) tick_bundle"
    using tick_deserialize by (simp add: arrives_as_def tick_text_not_Nil) (simp add: demo_header_def header_fits_def)
  then have "list_all2 (arrives_as tick_E) [(demo_header, tick_text), (demo_header, tick_text)] [tick_bundle, tick_bundle]" by simp
  ultimately show ?thesis
    using bundles_arrive [of tick_E demo_linked "[(demo_header, tick_text), (demo_header, tick_text)]" "[tick_bundle, tick_bundle]"]
    by (auto simp: demo_linked_def demo_broker_def new_ThreadSafeQueue_def)
qed

text \<open>
  C33: a read that fails is the end of the broker, if its simulator thread was waiting. After an
  error other than an end of file no read is under way, and it waits for good: every further run
  only spins and takes in packets. At an end of file the socket is closed; after that the I/O
  thread delivers at most once, which may make the simulator thread find the closed socket and
  return, at most once. Either way there is no tick and no byte sent any more.
\<close>

theorem lost_link_stalls:
  assumes "closed_after_close E" and "open_by_links E" and "broker_step E w (ReadFailed ec) w1" and "m_pause w"
    and "broker_run E w1 acts w2"
  shows "(ec \<noteq> EndOfFile \<longrightarrow> set acts \<subseteq> {Spun, PacketIn} \<and> m_pause w2 \<and> pending w2 = None) \<and>
    (ec = EndOfFile \<longrightarrow> set acts \<subseteq> {Spun, PacketIn, Stopped} \<union> range Delivered \<and> \<not> net_is_open E (history w2)) \<and>
    ticks acts = 0 \<and> stops acts \<le> wakes acts \<and> wakes acts \<le> 1 \<and>
    written (history w2) = written (history w) \<and> m_global_tick w2 = m_global_tick w"
proof (cases "ec = EndOfFile")
  case True
  have w1: "w1 = (closeSocket w)\<lparr>pending := Some AtEof\<rparr>" using assms(3) eof_down True by blast
  have down: "link_down E w1" unfolding w1 using assms(1) by (rule eof_closed_down)
  have "m_pause w1" "to_deliver w1 = 1" "written (history w1) = written (history w)" "m_global_tick w1 = m_global_tick w"
    using assms(4) by (simp_all add: w1 closeSocket_def call_def to_deliver_def written_append)
  with down_run [OF assms(2,5) down] run_effect [OF assms(5)] True show ?thesis by (auto simp: link_down_def)
next
  case False
  have w1: "w1 = w\<lparr>pending := None\<rparr>" using assms(3) False by (rule failed_stalled)
  then have "stalled w1" using assms(4) by (simp add: stalled_def)
  note s = stalled_run [OF assms(5) this]
  have "ticks as = 0 \<and> stops as = 0 \<and> wakes as = 0" if "set as \<subseteq> {Spun, PacketIn}" for "as" using that
    by (induction "as") auto
  with s False show ?thesis by (simp add: stalled_def w1)
qed

text \<open>Both ends: an error, after which it spins, and an end of file, after which it returns.\<close>

lemma demo_linked_simps: "m_pause demo_linked" "pending demo_linked = Some ReadHeader"
    "incomingMessage (conn demo_linked) = []" "m_session (conn demo_linked) \<noteq> None"
  by (simp_all add: demo_linked_def demo_broker_def tick_connection_def)

lemma eof_run:
  assumes "closed_after_close E" and "pending w = Some ReadHeader" and "incomingMessage (conn w) = []" and "m_session (conn w) \<noteq> None"
  obtains w2 where "broker_step E w (ReadFailed EndOfFile) ((closeSocket w)\<lparr>pending := Some AtEof\<rparr>)"
    and "broker_run E ((closeSocket w)\<lparr>pending := Some AtEof\<rparr>) [Delivered [], Stopped] w2"
proof -
  let ?w1 = "(closeSocket w)\<lparr>pending := Some AtEof\<rparr>" and ?v = "(closeSocket w)\<lparr>pending := None, m_pause := False\<rparr>"
  have down: "\<not> net_is_open E (history ?v)" using assms(1) by (simp add: closeSocket_def closed_after_close_def)
  have omr: "onMessageReceived E (incomingHeader (conn ?w1)) (incomingMessage (conn ?w1)) (?w1\<lparr>pending := None\<rparr>) = Inr ?v"
    using assms(3) by (simp add: onMessageReceived_def parsePacket_def closeSocket_def call_def)
  have "async_receive E ?v \<noteq> Inr u" for u using async_receive_open [of E ?v u] down by blast
  then obtain e where "async_receive E ?v = Inl e" by (cases "async_receive E ?v") auto
  with omr have d: "delivery E (?w1\<lparr>pending := None\<rparr>) = Inr ?v" by (simp add: delivery_def)
  have "broker_step E ?w1 (Delivered (accepted E (incomingHeader (conn ?w1)) (incomingMessage (conn ?w1)))) ?v"
    by (rule broker_step.eof_delivered [OF _ d]) simp
  then have s1: "broker_step E ?w1 (Delivered []) ?v" using assms(3) by (simp add: accepted_def closeSocket_def)
  have "pause_iteration E ?v = Inr (Exited, ?v\<lparr>m_pause := True\<rparr>)"
    using down assms(4) by (auto simp: pause_iteration_def isOpen_def with_session_def session_isOpen_def Let_def closeSocket_def)
  then have "broker_step E ?v Stopped (?v\<lparr>m_pause := True\<rparr>)" by (rule broker_step.stop)
  then have "broker_run E ?w1 (([] @ [Delivered []]) @ [Stopped]) (?v\<lparr>m_pause := True\<rparr>)"
    by (rule run_snoc [OF run_snoc [OF run_nil s1]])
  then have run: "broker_run E ?w1 [Delivered [], Stopped] (?v\<lparr>m_pause := True\<rparr>)" by simp
  have "broker_step E w (ReadFailed EndOfFile) ?w1" by (rule broker_step.eof_closed [OF assms(2)]) simp
  with run show thesis by (rule that [rotated])
qed

theorem lost_link_stalls_witness:
  "(\<exists>w1 w2. broker_step tick_E demo_linked (ReadFailed OtherError) w1 \<and> broker_run tick_E w1 [Spun, Spun] w2 \<and>
     m_pause w2 \<and> pending w2 = None \<and> written (history w2) = written (history demo_linked)) \<and>
   (\<exists>w1 w2. broker_step tick_E demo_linked (ReadFailed EndOfFile) w1 \<and> broker_run tick_E w1 [Delivered [], Stopped] w2 \<and>
     \<not> net_is_open tick_E (history w2) \<and> written (history w2) = written (history demo_linked))"
proof -
  have E: "closed_after_close tick_E" "open_by_links tick_E" by (simp_all add: closed_after_close_def open_until_close)
  let ?w1 = "demo_linked\<lparr>pending := None\<rparr>"
  have s: "broker_step tick_E demo_linked (ReadFailed OtherError) ?w1"
    using broker_step.header_failed [OF demo_linked_simps(2), of OtherError tick_E ?w1] by (simp add: read_failed_only)
  have spin: "broker_step tick_E ?w1 Spun ?w1" using demo_linked_simps(1) by (simp add: spun_iff pause_iteration_def)
  have "broker_run tick_E ?w1 (([] @ [Spun]) @ [Spun]) ?w1"
    by (rule run_snoc [OF run_snoc [OF run_nil spin] spin])
  then have r: "broker_run tick_E ?w1 [Spun, Spun] ?w1" by simp
  obtain w2 where e: "broker_step tick_E demo_linked (ReadFailed EndOfFile) ((closeSocket demo_linked)\<lparr>pending := Some AtEof\<rparr>)"
      "broker_run tick_E ((closeSocket demo_linked)\<lparr>pending := Some AtEof\<rparr>) [Delivered [], Stopped] w2"
    using eof_run [OF E(1) demo_linked_simps(2-4)] by blast
  from lost_link_stalls [OF E s demo_linked_simps(1) r] lost_link_stalls [OF E e(1) demo_linked_simps(1) e(2)] s r e show ?thesis
    by blast
qed

end
