(* ===== verification/Message_Types.thy ===== *)
theory Message_Types
  imports Serialize_Props
begin

text \<open>
  The types of the messages, as JSON schemas: what the broker's parsers (model/message/serialize.cc)
  expect of each message that it receives, and what its makers produce. \<open>has_type\<close> is the typing
  relation; the lemmas on the parsers are progress (a value of the type is parsed), those on
  the makers say that what they produce is typed.
\<close>

section \<open>Types\<close>

text \<open>A member of an object has a name, is required or not, and has a type.\<close>

datatype json_type =
    TString
  | TReal
  | TBool
  | TArray json_type
  | TObject "(string \<times> bool \<times> json_type) list"

fun has_type :: "json_type \<Rightarrow> json \<Rightarrow> bool" where
  "has_type TString v = (case v of stringValue _ \<Rightarrow> True | _ \<Rightarrow> False)"
| "has_type TReal v = (case v of realValue _ \<Rightarrow> True | _ \<Rightarrow> False)"
| "has_type TBool v = (case v of booleanValue _ \<Rightarrow> True | _ \<Rightarrow> False)"
| "has_type (TArray t) v = (case v of arrayValue vs \<Rightarrow> list_all (has_type t) vs | _ \<Rightarrow> False)"
| "has_type (TObject fs) v = (case v of
      objectValue kvs \<Rightarrow> list_all (\<lambda>(k, required, t).
        case map_of kvs k of None \<Rightarrow> \<not> required | Some x \<Rightarrow> has_type t x) fs
    | _ \<Rightarrow> False)"

lemma has_type_iff:
  "has_type TString v \<longleftrightarrow> (\<exists>s. v = stringValue s)"
  "has_type TReal v \<longleftrightarrow> (\<exists>d. v = realValue d)"
  "has_type TBool v \<longleftrightarrow> (\<exists>b. v = booleanValue b)"
  "has_type (TArray t) v \<longleftrightarrow> (\<exists>vs. v = arrayValue vs \<and> (\<forall>x \<in> set vs. has_type t x))"
  "has_type (TObject fs) v \<longleftrightarrow> (\<exists>m. is_object v m \<and>
     (\<forall>(k, required, t) \<in> set fs. case m k of None \<Rightarrow> \<not> required | Some x \<Rightarrow> has_type t x))"
  by (auto simp: list_all_iff is_object_def split: json.split)

declare has_type.simps [simp del]

abbreviation ids_type :: json_type where
  "ids_type \<equiv> TArray TString"

definition location_type :: json_type where
  "location_type = TObject [(''id'', True, TString), (''x'', True, TReal), (''y'', True, TReal)]"

text \<open>The messages that are received.\<close>

definition new_agents_type :: json_type where
  "new_agents_type = TObject [(''msg_type'', True, TString), (''add'', False, ids_type), (''rem'', False, ids_type)]"

definition all_locations_type :: json_type where
  "all_locations_type = TObject [(''msg_type'', True, TString), (''locations'', True, TArray location_type)]"

definition opaque_send_type :: json_type where
  "opaque_send_type = TObject [(''msg_type'', True, TString), (''from_id'', True, TString), (''to_ids'', True, ids_type),
     (''broadcast'', True, TBool), (''data'', True, TString), (''format'', True, TString), (''tech'', True, TString)]"

definition ticked_simmob_type :: json_type where
  "ticked_simmob_type = TObject [(''msg_type'', True, TString)]"

definition received_types :: "(string \<times> json_type) list" where
  "received_types = [(''new_agents'', new_agents_type), (''all_locations'', all_locations_type),
     (''opaque_send'', opaque_send_type), (''ticked_simmob'', ticked_simmob_type)]"

text \<open>The messages that are sent.\<close>

definition ticked_client_type :: json_type where
  "ticked_client_type = TObject [(''msg_type'', True, TString)]"

definition id_response_type :: json_type where
  "id_response_type = TObject [(''msg_type'', True, TString), (''id'', True, TString), (''token'', True, TString),
     (''type'', True, TString), (''services'', True, TArray TString)]"

definition go_client_type :: json_type where
  "go_client_type = TObject [(''msg_type'', True, TString),
     (''groups'', False, TArray (TObject [(''go'', True, TString), (''clients'', False, ids_type)]))]"

text \<open>A message is well-typed if it has the type that its \<open>msg_type\<close> names.\<close>

definition well_typed :: "json \<Rightarrow> string \<Rightarrow> bool" where
  "well_typed v ty \<longleftrightarrow> (case v of
      objectValue kvs \<Rightarrow> map_of kvs ''msg_type'' = Some (stringValue ty)
    | _ \<Rightarrow> False) \<and> (case map_of received_types ty of None \<Rightarrow> False | Some t \<Rightarrow> has_type t v)"

lemma well_typed_cases:
  assumes "well_typed v ty"
  obtains "ty = ''new_agents''" and "has_type new_agents_type v"
  | "ty = ''all_locations''" and "has_type all_locations_type v"
  | "ty = ''opaque_send''" and "has_type opaque_send_type v"
  | "ty = ''ticked_simmob''"
  using assms by (auto simp: well_typed_def received_types_def split: json.splits if_splits)

lemma well_typed_base: "json_doc J \<Longrightarrow> well_typed v ty \<Longrightarrow> ParseJsonMessageBase J v = Inr \<lparr>msg_type = ty\<rparr>"
  by (auto simp: well_typed_def ParseJsonMessageBase_def json_isMember json_get_string split: json.splits)

section \<open>Parsers make progress on values of their types\<close>

lemma strings_read:
  assumes "json_doc J" and "\<forall>x \<in> set vs. has_type TString x"
  shows "\<exists>ss. map_outcome (js_asString J) vs = Inr ss"
  using assms(2) by (induction vs) (auto simp: has_type_iff json_as [OF assms(1)])

lemma typed_id_array:
  assumes J: "json_doc J" and v: "is_object v m" and k: "case m k of None \<Rightarrow> True | Some x \<Rightarrow> has_type ids_type x"
  shows "\<exists>ids. id_array J v k err = Inr ids"
proof (cases "m k")
  case None
  then show ?thesis by (simp add: id_array_def json_isMember [OF J is_object_members [OF v]])
next
  case (Some x)
  with k obtain vs where x: "x = arrayValue vs" "\<forall>x \<in> set vs. has_type TString x" by (auto simp: has_type_iff(4))
  with strings_read [OF J x(2)] Some show ?thesis
    by (simp add: id_array_def json_isMember [OF J is_object_members [OF v]] json_get [OF J is_object_members [OF v]]
        json_elements [OF J] isArray_def)
qed

lemma typed_new_agents:
  assumes J: "json_doc J" and v: "has_type new_agents_type v" and msg: "has_message c i v b"
  shows "\<exists>info. parseNewAgents J c i = Inr info"
proof -
  from v obtain m where m: "is_object v m" "case m ''add'' of None \<Rightarrow> True | Some x \<Rightarrow> has_type ids_type x"
      "case m ''rem'' of None \<Rightarrow> True | Some x \<Rightarrow> has_type ids_type x"
    by (auto simp: new_agents_type_def has_type_iff(5) split: option.splits)
  obtain add where "id_array J v ''add'' ''AgentsInfo add should be an array.'' = Inr add"
    using typed_id_array [OF J m(1,2)] by blast
  moreover obtain rem where "id_array J v ''rem'' ''AgentsInfo rem should be an array.'' = Inr rem"
    using typed_id_array [OF J m(1,3)] by blast
  ultimately show ?thesis using msg is_object_not_null [OF m(1)]
    by (simp add: parseNewAgents_def parse_base_def has_message_def)
qed

lemma typed_location:
  assumes J: "json_doc J" and "has_type location_type v"
  shows "\<exists>l. parse_location J v locs = Inr l"
proof -
  from assms(2) obtain m a x y where m: "is_object v m" "m ''id'' = Some (stringValue a)" "m ''x'' = Some (realValue x)"
      "m ''y'' = Some (realValue y)"
    by (auto simp: location_type_def has_type_iff split: option.splits)
  note mem = is_object_members [OF m(1)]
  show ?thesis using m(2-4)
    by (simp add: parse_location_def json_isMember [OF J mem] json_get_string [OF J mem] json_get [OF J mem] json_as [OF J])
qed

lemma typed_all_locations:
  assumes J: "json_doc J" and v: "has_type all_locations_type v" and msg: "has_message c i v b"
  shows "\<exists>info. parseAllLocations J c i = Inr info"
proof -
  from v obtain m vs where m: "is_object v m" "m ''locations'' = Some (arrayValue vs)" "\<forall>x \<in> set vs. has_type location_type x"
    by (auto simp: all_locations_type_def has_type_iff(4,5) split: option.splits)
  note mem = is_object_members [OF m(1)]
  have "\<exists>l. fold_outcome (parse_location J) vs locs = Inr l" for locs
    using m(3) by (induction vs arbitrary: locs) (auto, metis ebind.simps(2) typed_location [OF J])
  then obtain l where "fold_outcome (parse_location J) vs [] = Inr l" by blast
  then show ?thesis using msg m(2) is_object_not_null [OF m(1)]
    by (simp add: parseAllLocations_def parse_base_def has_message_def json_isMember [OF J mem] json_get [OF J mem]
        json_elements [OF J] isArray_def)
qed

text \<open>What the type cannot say: a broadcast has no recipients.\<close>

definition addressed :: "json \<Rightarrow> bool" where
  "addressed v \<longleftrightarrow> (case v of
      objectValue kvs \<Rightarrow> \<not> (map_of kvs ''broadcast'' = Some (booleanValue True) \<and> map_of kvs ''to_ids'' \<noteq> Some (arrayValue []))
    | _ \<Rightarrow> True)"

lemma typed_opaque_send:
  assumes J: "json_doc J" and v: "has_type opaque_send_type v" "addressed v" and msg: "has_message c i v b"
  shows "\<exists>os. parseOpaqueSend J c i = Inr os"
proof -
  from v(1) obtain m from' vs bc d f t where m: "is_object v m" "m ''from_id'' = Some (stringValue from')"
      "m ''to_ids'' = Some (arrayValue vs)" "m ''broadcast'' = Some (booleanValue bc)" "m ''data'' = Some (stringValue d)"
      "m ''format'' = Some (stringValue f)" "m ''tech'' = Some (stringValue t)" "\<forall>x \<in> set vs. has_type TString x"
    by (auto simp: opaque_send_type_def has_type_iff split: option.splits)
  note mem = is_object_members [OF m(1)]
  obtain tos where tos: "map_outcome (js_asString J) vs = Inr tos" using strings_read [OF J m(8)] by blast
  have "\<not> (bc \<and> tos \<noteq> [])"
    using v(2) m(1,3,4) tos by (auto simp: addressed_def is_object_def)
  then show ?thesis using msg m(2-7) tos is_object_not_null [OF m(1)]
    by (simp add: parseOpaqueSend_def parse_base_def has_message_def json_isMember [OF J mem] json_get [OF J mem]
        json_get_string [OF J mem] json_elements [OF J] json_as [OF J] isArray_def)
qed

section \<open>What is sent is typed\<close>

text \<open>What each message is: all the members of its object.\<close>

definition ticked_client_members :: "string \<rightharpoonup> json" where
  "ticked_client_members = [''msg_type'' \<mapsto> stringValue ''ticked_client'']"

definition id_response_members :: "string \<Rightarrow> (string \<rightharpoonup> json)" where
  "id_response_members token = [''msg_type'' \<mapsto> stringValue ''id_response'', ''id'' \<mapsto> stringValue ''987654321'',
     ''token'' \<mapsto> stringValue token, ''type'' \<mapsto> stringValue ''ns-3'',
     ''services'' \<mapsto> arrayValue [stringValue ''srv_all_locations'']]"

text \<open>A list without elements has no member.\<close>

definition listed :: "json list \<Rightarrow> json option" where
  "listed vs = (if vs = [] then None else Some (arrayValue vs))"

definition group_members :: "WFD_Group \<Rightarrow> (string \<rightharpoonup> json)" where
  "group_members g = [''go'' \<mapsto> stringValue (wg_GO g)](''clients'' := listed (map stringValue (wg_members g)))"

definition go_client_members :: "json list \<Rightarrow> (string \<rightharpoonup> json)" where
  "go_client_members gs = [''msg_type'' \<mapsto> stringValue ''go_client''](''groups'' := listed gs)"

lemma typed_ticked_client:
  assumes J: "json_doc J"
  obtains v where "makeTickedClient J og = Inr (emit_json J og v)" and "is_object v ticked_client_members"
    and "has_type ticked_client_type v"
proof -
  obtain v where v: "set_all J nullValue [(''msg_type'', stringValue ''ticked_client'')] = Inr v"
      "is_object v ticked_client_members"
    using set_all_null [OF J, of "[(''msg_type'', stringValue ''ticked_client'')]"] by (auto simp: ticked_client_members_def)
  show thesis
    by (rule that [of v])
      (use v in \<open>auto simp: makeTickedClient_def PREFER_BINARY_MESSAGES_def ticked_client_type_def ticked_client_members_def has_type_iff\<close>)
qed

lemma typed_id_response:
  assumes J: "json_doc J"
  obtains v where "makeIdResponse J og token = Inr (emit_json J og v)" and "is_object v (id_response_members token)"
    and "has_type id_response_type v"
proof -
  let ?fs = "[(''msg_type'', stringValue ''id_response''), (''id'', stringValue ''987654321''),
     (''token'', stringValue token), (''type'', stringValue ''ns-3'')]"
  obtain r where r: "set_all J nullValue ?fs = Inr r" "is_object r (map_of (rev ?fs))"
    using set_all_null [OF J, of ?fs] by auto
  obtain v where v: "append_at J r ''services'' (stringValue ''srv_all_locations'') = Inr v"
      "is_object v ((map_of (rev ?fs))(''services'' \<mapsto> arrayValue [stringValue ''srv_all_locations'']))"
    using append_at_object [OF J r(2), of "''services''" "[]"] by auto
  have "(map_of (rev ?fs))(''services'' \<mapsto> arrayValue [stringValue ''srv_all_locations'']) = id_response_members token"
    by (auto simp: id_response_members_def fun_eq_iff)
  with v(2) have obj: "is_object v (id_response_members token)" by simp
  have "has_type id_response_type v"
    unfolding id_response_type_def has_type_iff(5)
    by (rule exI [of _ "id_response_members token"]) (use obj in \<open>simp add: id_response_members_def has_type_iff\<close>)
  with r(1) v(1) obj show thesis
    by (intro that [of v]) (simp_all add: makeIdResponse_def PREFER_BINARY_MESSAGES_def)
qed

lemma typed_group:
  assumes J: "json_doc J"
  shows "\<exists>v. group_value J g = Inr v \<and> is_object v (group_members g)"
proof -
  obtain r where r: "js_set J nullValue ''go'' (stringValue (wg_GO g)) = Inr r" "is_object r [''go'' \<mapsto> stringValue (wg_GO g)]"
    using json_set [OF J, of nullValue Map.empty] by auto
  show ?thesis
  proof (cases "wg_members g")
    case Nil
    moreover have "[''go'' \<mapsto> stringValue (wg_GO g)](''clients'' := None) = [''go'' \<mapsto> stringValue (wg_GO g)]" by (simp add: fun_eq_iff)
    ultimately show ?thesis using r by (simp add: group_value_def append_all_def group_members_def listed_def)
  next
    case (Cons y ys)
    obtain v where "append_all J r ''clients'' (stringValue y # map stringValue ys) = Inr v"
        "is_object v ([''go'' \<mapsto> stringValue (wg_GO g), ''clients'' \<mapsto> arrayValue (stringValue y # map stringValue ys)])"
      using append_all_object [OF J r(2), of "''clients''" "[]" "stringValue y" "map stringValue ys"] by auto
    with r Cons show ?thesis by (auto simp: group_value_def group_members_def listed_def)
  qed
qed

lemma group_members_typed:
  "is_object v (group_members g) \<Longrightarrow> has_type (TObject [(''go'', True, TString), (''clients'', False, ids_type)]) v"
  unfolding has_type_iff(5) by (rule exI [of _ "group_members g"]) (auto simp: group_members_def listed_def has_type_iff)

lemma typed_go_client:
  assumes J: "json_doc J"
  obtains v gs where "makeGoClient J og groups = Inr (emit_json J og v)" and "is_object v (go_client_members gs)"
    and "list_all2 (\<lambda>it y. is_object y (group_members (snd it))) groups gs" and "has_type go_client_type v"
proof -
  let ?step = "\<lambda>it res. ebind (group_value J (snd it)) (append_at J res ''groups'')"
  let ?is = "\<lambda>it y. is_object y (group_members (snd it))"
  obtain r where r: "set_all J nullValue [(''msg_type'', stringValue ''go_client'')] = Inr r"
      "is_object r [''msg_type'' \<mapsto> stringValue ''go_client'']"
    using set_all_null [OF J, of "[(''msg_type'', stringValue ''go_client'')]"] by auto
  have "\<exists>v ys. fold_outcome ?step its res = Inr v \<and> is_object v (go_client_members (xs @ ys)) \<and> list_all2 ?is its ys"
    if "is_object res (go_client_members xs)" for its :: "(string \<times> WFD_Group) list" and res xs
    using that
  proof (induction its arbitrary: res xs)
    case Nil
    then show ?case by auto
  next
    case (Cons it its)
    obtain y where y: "group_value J (snd it) = Inr y" "is_object y (group_members (snd it))" using typed_group [OF J] by blast
    have "go_client_members xs ''groups'' = (if xs = [] then None else Some (arrayValue xs))"
      by (simp add: go_client_members_def listed_def)
    moreover have "(go_client_members xs)(''groups'' \<mapsto> arrayValue (xs @ [y])) = go_client_members (xs @ [y])"
      by (simp add: go_client_members_def listed_def fun_eq_iff)
    ultimately obtain res' where res': "append_at J res ''groups'' y = Inr res'" "is_object res' (go_client_members (xs @ [y]))"
      using append_at_object [OF J Cons.prems, of "''groups''" xs y] by auto
    from Cons.IH [OF res'(2)] obtain v ys where "fold_outcome ?step its res' = Inr v"
        "is_object v (go_client_members (xs @ y # ys))" "list_all2 ?is its ys"
      by auto
    with y res'(1) show ?case by (intro exI [of _ v] exI [of _ "y # ys"]) simp
  qed
  moreover have "go_client_members [] = [''msg_type'' \<mapsto> stringValue ''go_client'']"
    by (simp add: go_client_members_def listed_def fun_eq_iff)
  ultimately obtain v gs where v: "fold_outcome ?step groups r = Inr v" "is_object v (go_client_members gs)" "list_all2 ?is groups gs"
    using r(2) by (metis append_Nil)
  have "\<forall>y \<in> set gs. \<exists>g. is_object y (group_members g)" using v(3) by (fastforce simp: list_all2_conv_all_nth in_set_conv_nth)
  then have "\<forall>y \<in> set gs. has_type (TObject [(''go'', True, TString), (''clients'', False, ids_type)]) y"
    using group_members_typed by blast
  then have arr: "has_type (TArray (TObject [(''go'', True, TString), (''clients'', False, ids_type)])) (arrayValue gs)"
    by (simp add: has_type_iff(4))
  have "has_type go_client_type v"
    unfolding go_client_type_def has_type_iff(5) [of _ v]
    by (intro exI [of _ "go_client_members gs"]) (use v(2) arr in \<open>simp add: go_client_members_def listed_def has_type_iff(1)\<close>)
  with v r(1) show thesis by (intro that [of v gs]) (simp_all add: makeGoClient_def PREFER_BINARY_MESSAGES_def)
qed

end
