(* ===== verification/Typed_Props.thy ===== *)
theory Typed_Props
  imports Broker_Link_Props Handler_Props Message_Types
begin

text \<open>
  Type soundness of the broker's message handling: a message of the type that its \<open>msg_type\<close> names
  is handled without an error (progress), and leaves agents on which the next one can be
  handled (preservation). From it follows the liveness of the broker: as long as typed bundles
  arrive, it ticks.
\<close>

section \<open>One message\<close>

text \<open>
  \<open>getAgent\<close> leaves a null entry for an id that it does not find, and \<open>RemoveAgent\<close> is undefined on
  one. No type of a single message can exclude that, so the typing is relative to a set \<open>R\<close> of ids:
  only ids of \<open>R\<close> are removed, and no id of \<open>R\<close> is looked up by an opaque_send message.
\<close>

definition ids_at :: "json \<Rightarrow> string \<Rightarrow> string set" where
  "ids_at v k = (case v of
      objectValue kvs \<Rightarrow> (case map_of kvs k of
          Some (arrayValue vs) \<Rightarrow> {s. stringValue s \<in> set vs} | Some (stringValue s) \<Rightarrow> {s} | _ \<Rightarrow> {})
    | _ \<Rightarrow> {})"

definition typed_message :: "string set \<Rightarrow> json \<Rightarrow> string \<Rightarrow> bool" where
  "typed_message R v ty \<longleftrightarrow> well_typed v ty \<and> addressed v \<and>
     (ty = ''new_agents'' \<longrightarrow> ids_at v ''rem'' \<subseteq> R) \<and>
     (ty = ''opaque_send'' \<longrightarrow> (ids_at v ''from_id'' \<union> ids_at v ''to_ids'') \<inter> R = {})"

definition fit :: "env \<Rightarrow> string set \<Rightarrow> 'z agent_world_scheme \<Rightarrow> bool" where
  "fit E R w \<longleftrightarrow> agents_ok w \<and> all_ready E w \<and> (\<forall>k \<in> R. map_of (AllAgents w) k \<noteq> Some None)"

text \<open>What the parsers read are the ids of the value.\<close>

lemma ids_at_string: "is_object v m \<Longrightarrow> m k = Some (stringValue s) \<Longrightarrow> ids_at v k = {s}"
  by (auto simp: ids_at_def is_object_def)

lemma ids_at_array: "is_object v m \<Longrightarrow> m k = Some (arrayValue vs) \<Longrightarrow> ids_at v k = {s. stringValue s \<in> set vs}"
  by (auto simp: ids_at_def is_object_def)

lemma strings_read_ids:
  assumes "json_doc J" and "\<forall>x \<in> set vs. has_type TString x" and "map_outcome (js_asString J) vs = Inr ids"
  shows "set ids = {s. stringValue s \<in> set vs}"
  using assms(2,3) by (induction vs arbitrary: ids) (auto simp: has_type_iff json_as [OF assms(1)] outcome_simps)

lemma removed_ids:
  assumes J: "json_doc J" and v: "has_type new_agents_type v" and msg: "has_message c i v b"
    and parse: "parseNewAgents J c i = Inr info"
  shows "set (remAgentIds info) = ids_at v ''rem''"
proof -
  from v obtain m where m: "is_object v m" "case m ''rem'' of None \<Rightarrow> True | Some x \<Rightarrow> has_type ids_type x"
    by (auto simp: new_agents_type_def has_type_iff(5) split: option.splits)
  note mem = is_object_members [OF m(1)]
  have ids: "set ids = ids_at v ''rem''" if "id_array J v ''rem'' e = Inr ids" for ids e
  proof (cases "m ''rem''")
    case None
    then have "ids_at v ''rem'' = {}" using m(1) by (auto simp: ids_at_def is_object_def)
    with None that show ?thesis by (simp add: id_array_def json_isMember [OF J mem])
  next
    case (Some x)
    with m(2) obtain vs where x: "x = arrayValue vs" "\<forall>x \<in> set vs. has_type TString x" by (auto simp: has_type_iff(4))
    have "map_outcome (js_asString J) vs = Inr ids"
      using that Some x(1) by (simp add: id_array_def json_isMember [OF J mem] json_get [OF J mem] json_elements [OF J] isArray_def)
    with strings_read_ids [OF J x(2)] ids_at_array [OF m(1)] Some x(1) show ?thesis by simp
  qed
  then show ?thesis using msg parse
    by (auto simp: parseNewAgents_def parse_base_def has_message_def outcome_simps MessageBase.extend_def
        AgentsInfoMessage.fields_def split: if_splits)
qed

lemma looked_up_ids:
  assumes J: "json_doc J" and v: "has_type opaque_send_type v" and msg: "has_message c i v b"
    and parse: "parseOpaqueSend J c i = Inr os"
  shows "insert (fromId os) (set (toIds os)) = ids_at v ''from_id'' \<union> ids_at v ''to_ids''"
proof -
  from v obtain m a vs where m: "is_object v m" "m ''from_id'' = Some (stringValue a)"
      "m ''to_ids'' = Some (arrayValue vs)" "\<forall>x \<in> set vs. has_type TString x"
    by (auto simp: opaque_send_type_def has_type_iff split: option.splits)
  note mem = is_object_members [OF m(1)]
  have "fromId os = a \<and> map_outcome (js_asString J) vs = Inr (toIds os)"
    using msg parse m(2,3)
    by (auto simp: parseOpaqueSend_def parse_base_def has_message_def outcome_simps MessageBase.extend_def
        OpaqueSendMessage.fields_def json_isMember [OF J mem] json_get [OF J mem] json_get_string [OF J mem]
        json_elements [OF J] isArray_def split: if_splits)
  with strings_read_ids [OF J m(4)] ids_at_string [OF m(1,2)] ids_at_array [OF m(1,3)] show ?thesis by auto
qed

text \<open>Sending enters no other ids than those of the recipients.\<close>

lemma looked_up_other: "agents_ok w \<Longrightarrow> k \<noteq> a \<Longrightarrow> map_of (looked_up a w) k = map_of (AllAgents w) k"
  by (simp add: looked_up_def agents_ok_def map_of_put)

lemma send_all_other:
  assumes J: "json_doc (lib E)"
  shows "fold_outcome (send_one E p) ts (res, w) = Inr (res', w') \<Longrightarrow> agents_ok w \<Longrightarrow> is_object res m \<Longrightarrow> k \<notin> set ts \<Longrightarrow>
    map_of (AllAgents w') k = map_of (AllAgents w) k"
proof (induction ts arbitrary: res m w)
  case (Cons t ts)
  from Cons.prems(1) obtain res1 w1 where step: "send_one E p t (res, w) = Inr (res1, w1)"
    and rest: "fold_outcome (send_one E p) ts (res1, w1) = Inr (res', w')"
    by (auto simp: outcome_simps)
  note one = send_one_Inr [OF J Cons.prems(3) step]
  have "map_of (AllAgents w1) k = map_of (AllAgents w) k"
    using one Cons.prems(2,4) by (auto simp: looked_up_other split: if_splits)
  with Cons.IH [OF rest send_one_ok [OF Cons.prems(2) step]] one Cons.prems(4) show ?case by auto
qed simp

lemma new_agents_step:
  assumes J: "json_doc (lib E)" and laws: "ns3_laws E" and w: "fit E R w" and msg: "has_message c i v b"
    and v: "has_type new_agents_type v" "ids_at v ''rem'' \<subseteq> R"
  shows "\<exists>w'. handle E AgentsInfoHandler c i w = Inr w' \<and> (\<forall>k \<in> R. map_of (AllAgents w') k \<noteq> Some None)"
proof -
  have ok: "agents_ok w" "all_ready E w" using w by (simp_all add: fit_def)
  obtain info where info: "parseNewAgents (lib E) c i = Inr info" using typed_new_agents [OF J v(1) msg] by blast
  obtain w1 where w1: "fold_outcome (add_one_agent E) (addAgentIds info) w = Inr w1" "agents_ok w1"
    using add_agents_ready [OF laws ok] by blast
  have handle: "handle E AgentsInfoHandler c i w = fold_outcome RemoveAgent (remAgentIds info) w1"
    using info w1(1) by (simp add: handle_def AgentsInfo_handle_def)
  have nulls: "map_of (AllAgents w1) k \<noteq> Some None" if "k \<in> R" for k
  proof -
    have "map_of (AllAgents w) k \<noteq> Some None" using w that by (simp add: fit_def)
    then show ?thesis using add_agents_effect [OF w1(1) ok(1), of k]
      by (cases "map_of (AllAgents w) k"; cases "k \<in> set (addAgentIds info)") auto
  qed
  have "\<forall>k \<in> set (remAgentIds info). map_of (AllAgents w1) k \<noteq> Some None"
    using nulls removed_ids [OF J v(1) msg info] v(2) by blast
  then obtain w' where w': "fold_outcome RemoveAgent (remAgentIds info) w1 = Inr w'"
    using remove_agents_defined [OF w1(2)] by blast
  with handle nulls remove_agents_effect [OF w' w1(2)] show ?thesis by auto
qed

lemma opaque_send_step:
  assumes J: "json_doc (lib E)" and laws: "ns3_laws E" and ok: "agents_ok w" "all_ready E w" and msg: "has_message c i v b"
    and v: "has_type opaque_send_type v" "addressed v"
  shows "\<exists>w'. handle E OpaqueSendHandler c i w = Inr w' \<and>
    (\<forall>k. k \<notin> ids_at v ''from_id'' \<union> ids_at v ''to_ids'' \<longrightarrow> map_of (AllAgents w') k = map_of (AllAgents w) k)"
proof -
  obtain os where os: "parseOpaqueSend (lib E) c i = Inr os" using typed_opaque_send [OF J v msg] by blast
  note eq = OpaqueSend_eq [OF J os, of w] and ids = looked_up_ids [OF J v(1) msg os]
  show ?thesis
  proof (cases "known w (fromId os)")
    case True
    then obtain p where p: "map_of (AllAgents w) (fromId os) = Some (Some p)" by (auto simp: known_def)
    with eq obtain res where res: "is_object res (opaque_receive os)"
      "OpaqueSend_handle E c i w = ebind (fold_outcome (send_one E p) (toIds os) (res, w)) (\<lambda>(_, w2). Inr w2)"
      by (auto simp: getAgent_known)
    obtain res' w' where loop: "fold_outcome (send_one E p) (toIds os) (res, w) = Inr (res', w')"
      using send_all_total [OF J laws res(1) ok True p] by fast
    have "map_of (AllAgents w') k = map_of (AllAgents w) k" if "k \<notin> ids_at v ''from_id'' \<union> ids_at v ''to_ids''" for k
      using send_all_other [OF J loop ok(1) res(1)] that ids by blast
    with res(2) loop show ?thesis by (simp add: handle_def)
  next
    case False
    then have "fst (getAgent (fromId os) w) = None" by (auto simp: getAgent_simps known_def split: option.splits)
    with eq getAgent_looked_up [of "fromId os" w]
    have "handle E OpaqueSendHandler c i w = Inr (w\<lparr>AllAgents := looked_up (fromId os) w\<rparr>)"
      by (cases "getAgent (fromId os) w") (auto simp: handle_def)
    moreover have "map_of (looked_up (fromId os) w) k = map_of (AllAgents w) k"
      if "k \<notin> ids_at v ''from_id'' \<union> ids_at v ''to_ids''" for k
      using that ids by (intro looked_up_other [OF ok(1)]) blast
    ultimately show ?thesis by simp
  qed
qed

text \<open>Progress and preservation.\<close>

lemma typed_step:
  assumes J: "json_doc (lib E)" and laws: "ns3_laws E" and w: "fit E R w" "handleLookup w = new_HandlerLookup"
    and msg: "has_message c i v \<lparr>msg_type = ty\<rparr>" and v: "typed_message R v ty"
  shows "\<exists>w'. handle_message E c i w = Inr w' \<and> fit E R w' \<and> handleLookup w' = new_HandlerLookup"
proof -
  have ok: "agents_ok w" "all_ready E w" using w(1) by (simp_all add: fit_def)
  have look: "handle_message E c i w = ebind (getHandler new_HandlerLookup ty) (\<lambda>h. handle E h c i w)"
    using msg w(2) by (simp add: handle_message_def has_message_def)
  have "\<exists>h w'. getHandler new_HandlerLookup ty = Inr h \<and> handle E h c i w = Inr w' \<and> (\<forall>k \<in> R. map_of (AllAgents w') k \<noteq> Some None)"
  proof (rule well_typed_cases)
    show "well_typed v ty" using v by (simp add: typed_message_def)
  next
    assume t: "ty = ''new_agents''" "has_type new_agents_type v"
    have "\<exists>w'. handle E AgentsInfoHandler c i w = Inr w' \<and> (\<forall>k \<in> R. map_of (AllAgents w') k \<noteq> Some None)"
      by (rule new_agents_step [OF J laws w(1) msg t(2)]) (use v t in \<open>simp add: typed_message_def\<close>)
    with t(1) show ?thesis by (simp add: getHandler_def new_HandlerLookup_def)
  next
    assume t: "ty = ''all_locations''" "has_type all_locations_type v"
    obtain info where info: "parseAllLocations (lib E) c i = Inr info" using typed_all_locations [OF J t(2) msg] by blast
    obtain w' where w': "fold_outcome (locate_one E) (agentLocations info) w = Inr w'"
      using locate_all_ready [OF laws ok(2)] by blast
    have "handle E AllLocationHandler c i w = Inr w'" using info w' by (simp add: handle_def AllLocation_handle_def)
    moreover have "\<forall>k \<in> R. map_of (AllAgents w') k \<noteq> Some None" using w(1) locate_all_Inr [OF w'] by (simp add: fit_def)
    ultimately show ?thesis using t(1) by (simp add: getHandler_def new_HandlerLookup_def)
  next
    assume t: "ty = ''opaque_send''" "has_type opaque_send_type v"
    then have apart: "(ids_at v ''from_id'' \<union> ids_at v ''to_ids'') \<inter> R = {}" "addressed v" using v by (auto simp: typed_message_def)
    obtain w' where w': "handle E OpaqueSendHandler c i w = Inr w'"
        "\<forall>k. k \<notin> ids_at v ''from_id'' \<union> ids_at v ''to_ids'' \<longrightarrow> map_of (AllAgents w') k = map_of (AllAgents w) k"
      using opaque_send_step [OF J laws ok msg t(2) apart(2)] by blast
    have "\<forall>k \<in> R. map_of (AllAgents w') k \<noteq> Some None" using w'(2) apart(1) w(1) by (fastforce simp: fit_def)
    with w'(1) t(1) show ?thesis by (simp add: getHandler_def new_HandlerLookup_def)
  next
    assume "ty = ''ticked_simmob''"
    then show ?thesis using w(1) by (simp add: getHandler_def new_HandlerLookup_def handle_def fit_def)
  qed
  then obtain h w' where h: "getHandler new_HandlerLookup ty = Inr h" "handle E h c i w = Inr w'" "\<forall>k \<in> R. map_of (AllAgents w') k \<noteq> Some None"
    by blast
  have "fit E R w'" using h(3) handle_ok [OF ok(1) h(2)] handle_ready [OF laws ok h(2)] by (simp add: fit_def)
  moreover have "handleLookup w' = new_HandlerLookup" using agents_only_broker(4) [OF handle_only [OF h(2)]] w(2) by simp
  ultimately show ?thesis using look h by simp
qed

section \<open>Bundles\<close>

definition typed_bundle :: "string set \<Rightarrow> MessageConglomerate \<Rightarrow> bool" where
  "typed_bundle R c \<longleftrightarrow> (\<forall>v \<in> set (messages_json c). \<exists>ty. typed_message R v ty)"

lemma typed_bundle_step:
  assumes J: "json_doc (lib E)" and laws: "ns3_laws E" and w: "fit E R w" "handleLookup w = new_HandlerLookup"
    and c: "conglom_ok (lib E) c" "typed_bundle R c"
  shows "\<exists>w'. handle_bundle E c w = Inr w' \<and> fit E R w' \<and> handleLookup w' = new_HandlerLookup"
proof -
  have "\<exists>w'. fold_outcome (handle_message E c) (map int ns) w = Inr w' \<and> fit E R w' \<and> handleLookup w' = new_HandlerLookup"
    if "\<forall>i \<in> set ns. i < getCount c" for ns
    using that w
  proof (induction ns arbitrary: w)
    case (Cons i ns)
    have i: "i < getCount c" using Cons.prems(1) by simp
    note get = conglom_ok_get [OF c(1) i]
    have "messages_json c ! i \<in> set (messages_json c)" using i c(1) by (simp add: conglom_ok_def getCount_offsets)
    with c(2) obtain ty where ty: "typed_message R (messages_json c ! i) ty" by (auto simp: typed_bundle_def)
    then have "message_bases c ! i = \<lparr>msg_type = ty\<rparr>" using well_typed_base [OF J] get(4) by (fastforce simp: typed_message_def)
    then have "has_message c (int i) (messages_json c ! i) \<lparr>msg_type = ty\<rparr>" using get(1,2) by (simp add: has_message_def)
    from typed_step [OF J laws Cons.prems(2,3) this ty] Cons.IH Cons.prems(1) show ?case by auto
  qed simp
  from this [of "[0..<getCount c]"] show ?thesis by (simp add: handle_bundle_def message_numbers_def)
qed

lemma fit_incoming [simp]: "fit E R (w\<lparr>m_incoming := q\<rparr>) = fit E R w"
  by (simp add: fit_def)

lemma fit_pause [simp]: "fit E R (w\<lparr>m_pause := b\<rparr>) = fit E R w"
  by (simp add: fit_def agents_ok_def all_ready_def ready_def)

lemma typed_drain:
  assumes "json_doc (lib E)" and "ns3_laws E" and "fit E R w" and "handleLookup w = new_HandlerLookup"
    and "\<forall>c \<in> set cs. conglom_ok (lib E) c \<and> typed_bundle R c"
  shows "\<exists>w'. drain E cs w = Inr w' \<and> fit E R w'"
  using assms(3-5)
proof (induction cs arbitrary: w)
  case (Cons c cs)
  let ?w = "w\<lparr>m_incoming := (m_incoming w)\<lparr>messageList := cs\<rparr>\<rparr>"
  obtain w1 where "handle_bundle E c ?w = Inr w1" "fit E R w1" "handleLookup w1 = new_HandlerLookup"
    using typed_bundle_step [OF assms(1,2), of R ?w c] Cons.prems by auto
  with Cons.IH Cons.prems(3) show ?case by auto
qed simp

section \<open>A tick\<close>

lemma send_up:
  assumes "\<forall>h. net_write E h" and "m_session (conn w) \<noteq> None"
  shows "\<exists>b s. send E h t w = Inr (b, call (NetWrite (make_bundle_header h @ t)) (set_session s w))"
  using assms by (auto simp: send_def with_session_def session_write_def Let_def make_bundle_header_in_use make_bundle_header_v1_def)

lemma sendOutgoing_up:
  assumes "\<forall>h. net_write E h" and "m_session (conn w) \<noteq> None"
  obtains w' where "sendOutgoing E w = Inr w'"
proof -
  let ?res = "vary_header (vHead (m_outgoing w)) @ messages (m_outgoing w)"
  obtain b s where "send E (result_header (vHead (m_outgoing w)) ?res) ?res w = Inr (b, call (NetWrite
      (make_bundle_header (result_header (vHead (m_outgoing w)) ?res) @ ?res)) (set_session s w))"
    using send_up [OF assms] by blast
  then show thesis using that by (simp add: sendOutgoing_def serialize_end_eq Let_def)
qed

lemma send_ticked_up:
  assumes "json_doc (lib E)" and "\<forall>h. net_write E h" and "m_session (conn w) \<noteq> None"
  obtains w' where "send_ticked E w = Inr w'"
proof -
  obtain v where og: "makeTickedClient (lib E) (serialize_begin new_OngoingSerialization) =
      Inr (emit_json (lib E) (serialize_begin new_OngoingSerialization) v)"
    using typed_ticked_client [OF assms(1)] by blast
  let ?og = "emit_json (lib E) (serialize_begin new_OngoingSerialization) v"
  let ?res = "vary_header (vHead ?og) @ messages ?og"
  obtain b s where "send E (result_header (vHead ?og) ?res) ?res w = Inr (b, call (NetWrite
      (make_bundle_header (result_header (vHead ?og) ?res) @ ?res)) (set_session s w))"
    using send_up [OF assms(2,3)] by blast
  with og show thesis using that by (simp add: send_ticked_def serialize_end_eq Let_def)
qed

lemma connected_open: "connected E w \<Longrightarrow> isOpen E w = Inr True"
  by (auto simp: connected_def isOpen_def with_session_def session_isOpen_def)

text \<open>A woken broker whose queue holds typed bundles completes its tick, and is as fit as before.\<close>

lemma typed_tick:
  assumes J: "json_doc (lib E)" and laws: "ns3_laws E" and net: "\<forall>h. net_write E h" "open_by_links E"
    and w: "connected E w" "\<not> m_pause w" "fit E R w" "handleLookup w = new_HandlerLookup"
    and q: "\<forall>c \<in> set (messageList (m_incoming w)). conglom_ok (lib E) c \<and> typed_bundle R c"
  shows "\<exists>w'. pause_iteration E w = Inr (Rescheduled, w') \<and> connected E w' \<and> fit E R w' \<and>
    handleLookup w' = new_HandlerLookup \<and> messageList (m_incoming w') = [] \<and> pending w' = pending w"
proof -
  let ?w = "w\<lparr>m_pause := True\<rparr>"
  have up: "connected E ?w" using w(1) by (simp add: connected_def)
  obtain w2 where w2: "processIncoming E ?w = Inr w2" "fit E R w2"
    using typed_drain [OF J laws, of R ?w "messageList (m_incoming w)"] w(3,4) q
    by (auto simp: processIncoming_def process_loop_drain)
  note only = processIncoming_only [OF w2(1), unfolded processing_only_def]
  have up2: "connected E w2"
    using up only(1) links_outer [of "history w"] links_outer [of "history w2"]
    by (auto simp: connected_def intro: still_open [OF net(2)])
  obtain w3 where w3: "sendOutgoing E w2 = Inr w3" using sendOutgoing_up [OF net(1)] up2 by (auto simp: connected_def)
  then obtain s where w3': "w3 = (call (NetWrite (bundle_bytes (m_outgoing w2))) (set_session s w2))\<lparr>m_outgoing := serialize_begin (m_outgoing w2)\<rparr>"
    using sendOutgoing_Inr by blast
  have "m_session (conn w3) \<noteq> None" by (simp add: w3' set_session_def)
  then obtain w4 where w4: "send_ticked E w3 = Inr w4" using send_ticked_up [OF J net(1)] by blast
  then obtain t og where w4': "w4 = call (NetWrite (bundle_bytes og)) (set_session t w3)"
    by (rule send_ticked_Inr)
  let ?w' = "(call (Schedule 100) w4)\<lparr>m_global_tick := m_global_tick (call (Schedule 100) w4) + 1\<rparr>"
  have run: "pause_iteration E w = Inr (Rescheduled, ?w')"
    using w(2) connected_open [OF up] w2(1) w3 w4 by (simp add: pause_iteration_def Let_def)
  have "agents_ok ?w'" using w2(2) by (simp add: fit_def agents_ok_def w4' w3' set_session_def)
  moreover have "all_ready E ?w'"
    by (rule all_ready_history [OF laws, of w2]) (use w2(2) in \<open>simp_all add: fit_def w4' w3' set_session_def call_def\<close>)
  moreover have "\<forall>k \<in> R. map_of (AllAgents ?w') k \<noteq> Some None" using w2(2) by (simp add: fit_def w4' w3' set_session_def)
  moreover have "connected E ?w'" using up2 by (auto simp: connected_def w4' w3' set_session_def call_def intro: still_open [OF net(2)])
  moreover have "handleLookup ?w' = new_HandlerLookup" "messageList (m_incoming ?w') = []" "pending ?w' = pending w"
    using only w(4) by (simp_all add: w4' w3' set_session_def call_def)
  ultimately show ?thesis using run by (auto simp: fit_def)
qed

section \<open>Ticks that follow each other\<close>

lemma fit_io:
  assumes "ns3_laws E" and "io_only w w'" and "fit E R w" and "handleLookup w = new_HandlerLookup"
  shows "fit E R w' \<and> handleLookup w' = new_HandlerLookup"
proof -
  have eq: "AllAgents w' = AllAgents w" "heap w' = heap w" "\<exists>h. history w' = history w @ h" "handleLookup w' = handleLookup w"
    using assms(2) by (auto simp: io_only_def)
  have "agents_ok w'" using assms(3) agents_ok_cong [OF eq(1,2)] by (simp add: fit_def)
  moreover have "all_ready E w'" using assms(3) all_ready_history [OF assms(1) _ eq(1-3)] by (simp add: fit_def)
  ultimately show ?thesis using assms(3,4) eq by (simp add: fit_def)
qed

lemma io_step_only:
  assumes "broker_step E w a w'" and "a = HeaderRead \<or> a = Delivered cs"
  shows "io_only w w'"
  using assms by (cases rule: io_step_cases) auto

lemma run_append:
  assumes "broker_run E u as v" and "broker_run E v bs w"
  shows "broker_run E u (as @ bs) w"
  using assms(2,1) by (induction rule: broker_run.induct) (auto simp flip: append_assoc intro: run_snoc)

text \<open>What the actions of a bundle that arrives and is processed at once are.\<close>

definition served :: "MessageConglomerate \<Rightarrow> action list" where
  "served c = [HeaderRead, Delivered [c], Ticked [c]]"

lemma served_labels [simp]:
  "ticks (concat (map served cs)) = length cs" "processed (concat (map served cs)) = cs"
  by (induction cs) (simp_all add: served_def)

lemma one_served:
  assumes J: "json_doc (lib E)" and laws: "ns3_laws E" and net: "\<forall>h. net_write E h" "open_by_links E"
    and w: "connected E w" "pending w = Some ReadHeader" "messageList (m_incoming w) = []" "fit E R w"
      "handleLookup w = new_HandlerLookup"
    and b: "arrives_as E b c" "typed_bundle R c"
  shows "\<exists>w'. broker_run E w (served c) w' \<and> connected E w' \<and> pending w' = Some ReadHeader \<and>
    messageList (m_incoming w') = [] \<and> fit E R w' \<and> handleLookup w' = new_HandlerLookup"
proof -
  obtain w1 w2 where s: "broker_step E w HeaderRead w1" "broker_step E w1 (Delivered [c]) w2" "connected E w2"
      "pending w2 = Some ReadHeader" "\<not> m_pause w2" "messageList (m_incoming w2) = [c]"
    using one_arrives [OF net(2) w(1,2) b(1)] w(3) by auto
  have fit2: "fit E R w2 \<and> handleLookup w2 = new_HandlerLookup"
    using fit_io [OF laws io_step_only [OF s(1)] w(4,5)] fit_io [OF laws io_step_only [OF s(2)]] by blast
  have c: "conglom_ok (lib E) c" using b(1) by (auto simp: arrives_as_def dest: deserialize_ok)
  then obtain w' where w': "pause_iteration E w2 = Inr (Rescheduled, w')" "connected E w'" "fit E R w'"
      "handleLookup w' = new_HandlerLookup" "messageList (m_incoming w') = []" "pending w' = pending w2"
    using typed_tick [OF J laws net s(3,5)] fit2 b(2) s(6) by force
  have "broker_step E w2 (Ticked [c]) w'" using broker_step.tick [OF w'(1)] s(6) by simp
  then have "broker_run E w ((([] @ [HeaderRead]) @ [Delivered [c]]) @ [Ticked [c]]) w'"
    using s(1,2) by (blast intro: run_nil run_snoc)
  then show ?thesis using w' s(4) by (auto simp: served_def)
qed

lemma all_served:
  assumes J: "json_doc (lib E)" and laws: "ns3_laws E" and net: "\<forall>h. net_write E h" "open_by_links E"
    and w: "connected E w" "pending w = Some ReadHeader" "messageList (m_incoming w) = []" "fit E R w"
      "handleLookup w = new_HandlerLookup"
    and bs: "list_all2 (\<lambda>b c. arrives_as E b c \<and> typed_bundle R c) bs cs"
  shows "\<exists>w'. broker_run E w (concat (map served cs)) w' \<and> connected E w' \<and> pending w' = Some ReadHeader \<and>
    messageList (m_incoming w') = [] \<and> fit E R w' \<and> handleLookup w' = new_HandlerLookup"
  using bs w
proof (induction arbitrary: w rule: list_all2_induct)
  case Nil
  then show ?case by (auto intro: run_nil)
next
  case (Cons b bs c cs)
  obtain v where v: "broker_run E w (served c) v" "connected E v" "pending v = Some ReadHeader" "messageList (m_incoming v) = []"
      "fit E R v" "handleLookup v = new_HandlerLookup"
    using one_served [OF J laws net Cons.prems] Cons.hyps(1) by blast
  with Cons.IH [OF v(2-6)] show ?case by (auto intro: run_append)
qed

section \<open>Properties\<close>

text \<open>
  A bundle as the broker reads it: it adds the agents x and y, sends from x to z, which nobody
  knows, removes y, and ticks. Of its ids only y is ever removed.
\<close>

definition add_value :: json where
  "add_value = objectValue [(''msg_type'', stringValue ''new_agents''), (''add'', arrayValue [stringValue ''x'', stringValue ''y''])]"

definition route_value :: json where
  "route_value = objectValue [(''msg_type'', stringValue ''opaque_send''), (''from_id'', stringValue ''x''),
     (''to_ids'', arrayValue [stringValue ''z'']), (''broadcast'', booleanValue False), (''data'', stringValue ''d''),
     (''format'', stringValue ''f''), (''tech'', stringValue ''t'')]"

definition drop_value :: json where
  "drop_value = objectValue [(''msg_type'', stringValue ''new_agents''), (''rem'', arrayValue [stringValue ''y''])]"

definition typed_lib :: jsonlib where
  "typed_lib = demo_json (map_of [(''{a}'', add_value), (''{o}'', route_value), (''{d}'', drop_value),
     (''{t}'', demo_typed ''ticked_simmob'')])"

abbreviation typed_E :: env where
  "typed_E \<equiv> demo_env typed_lib (\<lambda>_. None) (\<lambda>h. NetClose \<notin> set h)"

definition typed_text :: string where
  "typed_text = vary_header \<lparr>sendId = ''9'', destId = ''0'', msgLengths = [3, 3, 3, 3]\<rparr> @ ''{a}{o}{d}{t}''"

definition typed_header :: BundleHeader where
  "typed_header = \<lparr>sendIdLen = 1, destIdLen = 1, messageCount = 4, remLen = of_nat (length typed_text)\<rparr>"

definition typed_conglom :: MessageConglomerate where
  "typed_conglom = received typed_text ''9'' ''0'' [''{a}'', ''{o}'', ''{d}'', ''{t}'']
     [(add_value, \<lparr>msg_type = ''new_agents''\<rparr>), (route_value, \<lparr>msg_type = ''opaque_send''\<rparr>),
      (drop_value, \<lparr>msg_type = ''new_agents''\<rparr>), (demo_typed ''ticked_simmob'', \<lparr>msg_type = ''ticked_simmob''\<rparr>)]"

lemma typed_doc: "json_doc typed_lib"
  by (simp add: typed_lib_def demo_json_doc)

lemma typed_deserialize: "deserialize typed_lib typed_header typed_text new_MessageConglomerate = Inr (True, typed_conglom)"
proof -
  have "deserialize_v1 typed_lib typed_header typed_text new_MessageConglomerate = Inr (True, typed_conglom)"
    unfolding typed_conglom_def
    by (rule deserialize_v1_carried)
      (simp_all add: bundle_fits_def readable_def ParseJsonMessageBase_def get_string_def new_MessageBase_def
        typed_lib_def demo_json_def demo_typed_def add_value_def route_value_def drop_value_def typed_text_def
        vary_header_def typed_header_def)
  then show ?thesis by (simp add: deserialize_def NEW_BUNDLES_def)
qed

lemma typed_conglom_ok: "conglom_ok typed_lib typed_conglom" "typed_bundle {''y''} typed_conglom"
proof -
  show "conglom_ok typed_lib typed_conglom" using deserialize_ok [OF typed_deserialize] by simp
  have "typed_message {''y''} add_value ''new_agents''" "typed_message {''y''} route_value ''opaque_send''"
      "typed_message {''y''} drop_value ''new_agents''" "typed_message {''y''} (demo_typed ''ticked_simmob'') ''ticked_simmob''"
    by (simp_all add: typed_message_def well_typed_def received_types_def new_agents_type_def opaque_send_type_def
        ticked_simmob_type_def addressed_def ids_at_def add_value_def route_value_def drop_value_def demo_typed_def has_type.simps)
  then show "typed_bundle {''y''} typed_conglom" by (auto simp: typed_bundle_def typed_conglom_def received_def)
qed

lemma typed_arrives: "arrives_as typed_E (typed_header, typed_text) typed_conglom"
proof -
  have len: "length typed_text = 26" by (simp add: typed_text_def vary_header_def)
  then have "typed_text \<noteq> []" by auto
  with len show ?thesis using typed_deserialize
    by (simp add: arrives_as_def) (simp add: typed_header_def header_fits_def len)
qed

text \<open>
  C7: the message types are sound, relative to a set \<open>R\<close> of ids: processing a queue of bundles never
  fails, on agents that are well-formed and ready and have no null entry in \<open>R\<close>, and leaves such
  agents, if every message has the type that its msg_type names, no broadcast has recipients,
  new_agents removes ids of \<open>R\<close> only, and opaque_send names no id of \<open>R\<close>. The set keeps the ids
  that are removed and those that are looked up apart, because looking up an unknown id leaves
  a null entry, on which a removal is undefined.
\<close>

theorem typed_bundles_processed:
  assumes "json_doc (lib E)" and "ns3_laws E" and "fit E R w" and "handleLookup w = new_HandlerLookup"
    and "\<forall>c \<in> set (messageList (m_incoming w)). conglom_ok (lib E) c \<and> typed_bundle R c"
  shows "\<exists>w'. processIncoming E w = Inr w' \<and> fit E R w' \<and> messageList (m_incoming w') = [] \<and> processing_only w w'"
proof -
  obtain w' where w': "processIncoming E w = Inr w'" "fit E R w'"
    using typed_drain [OF assms] by (auto simp: processIncoming_def process_loop_drain)
  with processIncoming_only [OF w'(1)] show ?thesis by blast
qed

theorem typed_bundles_processed_witness:
  "\<exists>w'. processIncoming typed_E (demo_broker\<lparr>m_incoming := \<lparr>messageList = [typed_conglom, typed_conglom]\<rparr>\<rparr>) = Inr w' \<and>
     fit typed_E {''y''} w' \<and> messageList (m_incoming w') = [] \<and>
     processing_only (demo_broker\<lparr>m_incoming := \<lparr>messageList = [typed_conglom, typed_conglom]\<rparr>\<rparr>) w'"
  by (rule typed_bundles_processed)
    (simp_all add: typed_doc demo_env_laws typed_conglom_ok fit_def agents_ok_def all_ready_def demo_broker_def)

text \<open>
  C40: what the broker's makers send is exactly this: ticked_client with its type and nothing else,
  id_response with the broker's id, the token, the type and the service, and go_client with
  one object for every group, in the order of the groups, which names the owner and, if there
  are any, all the clients in order. Each is of the type of its message.
\<close>

theorem sent_messages_typed:
  assumes "json_doc J"
  shows "(\<exists>v. makeTickedClient J og = Inr (emit_json J og v) \<and> is_object v ticked_client_members \<and> has_type ticked_client_type v) \<and>
    (\<exists>v. makeIdResponse J og token = Inr (emit_json J og v) \<and> is_object v (id_response_members token) \<and>
      has_type id_response_type v) \<and>
    (\<exists>v gs. makeGoClient J og groups = Inr (emit_json J og v) \<and> is_object v (go_client_members gs) \<and>
      list_all2 (\<lambda>it y. is_object y (group_members (snd it))) groups gs \<and> has_type go_client_type v)"
  using typed_ticked_client [OF assms, of og] typed_id_response [OF assms, of og token] typed_go_client [OF assms, of og groups]
  by metis

theorem sent_messages_typed_witness:
  "(\<exists>v. makeTickedClient typed_lib new_OngoingSerialization = Inr (emit_json typed_lib new_OngoingSerialization v) \<and>
      is_object v [''msg_type'' \<mapsto> stringValue ''ticked_client''] \<and> has_type ticked_client_type v) \<and>
    (\<exists>v. makeIdResponse typed_lib new_OngoingSerialization ''t'' = Inr (emit_json typed_lib new_OngoingSerialization v) \<and>
      is_object v (id_response_members ''t'') \<and> has_type id_response_type v) \<and>
    (\<exists>v y. makeGoClient typed_lib new_OngoingSerialization [(''g'', \<lparr>wg_groupId = ''g'', wg_GO = ''a'', wg_members = [''b'', ''c'']\<rparr>)] =
        Inr (emit_json typed_lib new_OngoingSerialization v) \<and> is_object v (go_client_members [y]) \<and>
      is_object y (group_members \<lparr>wg_groupId = ''g'', wg_GO = ''a'', wg_members = [''b'', ''c'']\<rparr>) \<and> has_type go_client_type v)"
  using sent_messages_typed [OF typed_doc, of new_OngoingSerialization "''t''"
      "[(''g'', \<lparr>wg_groupId = ''g'', wg_GO = ''a'', wg_members = [''b'', ''c'']\<rparr>)]"]
  by (auto simp: list_all2_Cons1 ticked_client_members_def)

text \<open>
  As long as typed bundles arrive, the broker ticks: from a connected broker that waits for a
  header there is a run in which the I/O thread receives each bundle and the simulator thread
  completes a tick on it before the next one, which counts one tick and writes two bundles for
  each, and ends with the broker connected, waiting, with nothing queued, and fit to go on.
\<close>

theorem broker_keeps_ticking:
  assumes "json_doc (lib E)" and "ns3_laws E" and "\<forall>h. net_write E h" and "open_by_links E"
    and "connected E w" and "pending w = Some ReadHeader" and "messageList (m_incoming w) = []" and "fit E R w"
    and "handleLookup w = new_HandlerLookup" and "list_all2 (\<lambda>b c. arrives_as E b c \<and> typed_bundle R c) bs cs"
  shows "\<exists>w'. broker_run E w (concat (map (\<lambda>c. [HeaderRead, Delivered [c], Ticked [c]]) cs)) w' \<and>
    m_global_tick w' = m_global_tick w + of_nat (length cs) \<and>
    length (written (history w')) = length (written (history w)) + 2 * length cs \<and>
    connected E w' \<and> pending w' = Some ReadHeader \<and> messageList (m_incoming w') = [] \<and> fit E R w'"
proof -
  have eq: "served = (\<lambda>c. [HeaderRead, Delivered [c], Ticked [c]])" by (simp add: served_def fun_eq_iff)
  obtain w' where w': "broker_run E w (concat (map served cs)) w'" "connected E w'" "pending w' = Some ReadHeader"
      "messageList (m_incoming w') = []" "fit E R w'"
    using all_served [OF assms] by blast
  with run_effect [OF w'(1)] show ?thesis by (auto simp flip: eq)
qed

theorem broker_keeps_ticking_witness:
  "\<exists>w'. broker_run typed_E demo_linked
      [HeaderRead, Delivered [typed_conglom], Ticked [typed_conglom], HeaderRead, Delivered [typed_conglom], Ticked [typed_conglom]] w' \<and>
     m_global_tick w' = 2 \<and> length (written (history w')) = 4 \<and> connected typed_E w'"
proof -
  let ?bs = "[(typed_header, typed_text), (typed_header, typed_text)]"
  have "json_doc (lib typed_E)" by (simp add: typed_doc)
  moreover have "\<forall>h. net_write typed_E h" "open_by_links typed_E" by (simp_all add: open_until_close)
  moreover have "connected typed_E demo_linked" "pending demo_linked = Some ReadHeader" "messageList (m_incoming demo_linked) = []"
      "fit typed_E {''y''} demo_linked" "handleLookup demo_linked = new_HandlerLookup"
    by (simp_all add: connected_def demo_linked_def demo_broker_def tick_connection_def new_ThreadSafeQueue_def
        fit_def agents_ok_def all_ready_def)
  moreover have "list_all2 (\<lambda>b c. arrives_as typed_E b c \<and> typed_bundle {''y''} c) ?bs [typed_conglom, typed_conglom]"
    using typed_arrives typed_conglom_ok by simp
  moreover have "m_global_tick demo_linked = 0" "written (history demo_linked) = []"
    by (simp_all add: demo_linked_def demo_broker_def)
  ultimately show ?thesis
    using broker_keeps_ticking [OF _ demo_env_laws, of typed_lib "\<lambda>_. None" "\<lambda>h. NetClose \<notin> set h" demo_linked "{''y''}" ?bs
        "[typed_conglom, typed_conglom]"] by simp metis
qed

end
