(* ===== verification/Program_Props.thy ===== *)
theory Program_Props
  imports Programs Broker_Start_Props RR_Props Typed_Props
begin

text \<open>
  The properties of the two programs as wholes: the baseline reads its trace, replays it, and
  leaves a complete log; the client, once it has started, ends only when its peer closes the
  connection. And what the baseline configures ns-3 with.
\<close>

section \<open>The client\<close>







lemma start_connected:
  assumes E: "open_by_links E" and start: "start E app w = Inr (True, w')"
  shows "connected E w'"
proof -
  from start obtain w2 where up: "isOpen E w2 = Inr True"
      and w': "w' = call (Schedule 0) (fold (\<lambda>(name, value). call (ConfigDefault name value)) ns3_defaults (call ThreadStart w2))"
    by (auto simp: start_def Let_def outcome_simps split: if_splits)
  then have "net_is_open E (history w2)" "m_session (conn w2) \<noteq> None"
    by (auto simp: isOpen_def with_session_Inr session_isOpen_def)
  moreover have "links (history w') = links (history w2)" "conn w' = conn w2" by (simp_all add: w' ns3_defaults_def call_def)
  ultimately show ?thesis using still_open [OF E] by (simp add: connected_def)
qed



text \<open>A client that is asked for a \<open>Default\<close> application, with the server of the registration.\<close>

definition demo_command_line :: command_line where
  "demo_command_line = \<lparr>cl_string = [''application'' \<mapsto> ''Default''], cl_unsigned = Map.empty, cl_bool = Map.empty\<rparr>"

lemma main_history:
  "consumed (history (set_defaults m (snd (static_init E)))) = 0" "outer (history (set_defaults m (snd (static_init E)))) = []"
  "log_text (history (set_defaults m (snd (static_init E)))) = []"
  by (simp_all add: set_defaults_def static_init_def new_BaseWifi_def BaseWifi_init_def new_BaseIP_def Let_def consumed_append)

lemma reg_client: "closed_after_close reg_E" "open_by_links reg_E" "\<exists>w. example_begin reg_E demo_command_line = Inr (True, w)"
proof -
  have up: "net_is_open reg_E = (\<lambda>h. NetClose \<notin> set h)" by (simp add: demo_env_def)
  then show "open_by_links reg_E" by (rule open_until_close)
  show "closed_after_close reg_E" by (simp add: closed_after_close_def up)
  let ?h = "history (set_defaults ''DsssRate1Mbps'' (snd (static_init reg_E)))"
  obtain b where b: "new_Broker ?h ''127.0.0.1'' ''6745'' = Inr b"
    by (auto simp: new_Broker_def new_Connection_def)
  have no_close: "NetClose \<notin> set ?h" using in_outer [of NetClose ?h] by (simp add: main_history)
  obtain w where "start reg_E ''Default'' b = Inr (True, w)"
    using demo_start_from [OF b main_history(1) no_close] by (rule exE)
  with b show "\<exists>w. example_begin reg_E demo_command_line = Inr (True, w)"
    by (simp add: example_begin_def example_parse_command_line_def example_defaults_def demo_command_line_def given_def)
qed


text \<open>
  C8: the client, from its command line. When a \<open>Default\<close> client has started, and its peer goes on
  to send bundles that are well-typed relative to a set \<open>R\<close> (it never removes an id that is not in
  \<open>R\<close>, and never lets an opaque_send name one that is), there is a run in which the I/O thread
  receives each bundle and the simulator thread completes a tick on it before the next one: the
  client counts one tick and writes two bundles for each, after the one of the registration,
  and it ends with the link up, nothing queued, and agents that are fit for more.
\<close>

theorem client_keeps_ticking:
  assumes "json_doc (lib E)" and "ns3_laws E" and "\<forall>h. net_write E h" and "open_by_links E"
    and "ex_application (example_parse_command_line cl example_defaults) = ''Default''"
    and "example_begin E cl = Inr (True, w)"
    and "list_all2 (\<lambda>b c. arrives_as E b c \<and> typed_bundle R c) bs cs"
  shows "\<exists>w'. broker_run E w (concat (map (\<lambda>c. [HeaderRead, Delivered [c], Ticked [c]]) cs)) w' \<and>
    m_global_tick w' = of_nat (length cs) \<and> length (written (history w')) = 1 + 2 * length cs \<and>
    connected E w' \<and> pending w' = Some ReadHeader \<and> messageList (m_incoming w') = [] \<and> fit E R w'"
proof -
  let ?g = "example_parse_command_line cl example_defaults" and ?h = "history (set_defaults ''DsssRate1Mbps'' (snd (static_init E)))"
  from assms(5,6) obtain w0 where new: "new_Broker ?h (ex_host ?g) (ex_port ?g) = Inr w0" and start: "start E ''Default'' w0 = Inr (True, w)"
    by (auto simp: example_begin_def Let_def outcome_simps)
  note s = started [OF assms(2) new start]
  have none: "written ?h = []"
    by (simp add: set_defaults_def static_init_def new_BaseWifi_def BaseWifi_init_def new_BaseIP_def Let_def written_append)
  have "fit E R w" using s assms(2) by (simp add: fit_def broker_ok_def)
  then obtain w' where w': "broker_run E w (concat (map served cs)) w'" "connected E w'" "pending w' = Some ReadHeader"
      "messageList (m_incoming w') = []" "fit E R w'"
    using all_served [OF assms(1-4) start_connected [OF assms(4) start] _ _ _ _ assms(7)] s by blast
  have eq: "served = (\<lambda>c. [HeaderRead, Delivered [c], Ticked [c]])" by (simp add: served_def fun_eq_iff)
  show ?thesis using w' run_effect [OF w'(1)] s none by (intro exI [of _ w']) (simp flip: eq)
qed

text \<open>The peer of the registration sends the message with the agents again, twice.\<close>

lemma reg_arrives:
  "arrives_as reg_E (demo_header, reg_text ''{n}'') (reg_conglomerate ''{n}'' demo_agents ''new_agents'')"
  "typed_bundle {} (reg_conglomerate ''{n}'' demo_agents ''new_agents'')"
proof -
  have "reg_text ''{n}'' \<noteq> []" by (simp add: reg_text_def)
  then show "arrives_as reg_E (demo_header, reg_text ''{n}'') (reg_conglomerate ''{n}'' demo_agents ''new_agents'')"
    using reg_all_offers(2) by (auto simp: arrives_as_def offers_def)
  have "typed_message {} demo_agents ''new_agents''"
    by (simp add: typed_message_def well_typed_def received_types_def new_agents_type_def addressed_def ids_at_def
        demo_agents_def has_type.simps)
  then show "typed_bundle {} (reg_conglomerate ''{n}'' demo_agents ''new_agents'')"
    by (auto simp: typed_bundle_def reg_conglomerate_def received_def)
qed

theorem client_keeps_ticking_witness:
  "\<exists>w w'. example_begin reg_E demo_command_line = Inr (True, w) \<and>
     (let c = reg_conglomerate ''{n}'' demo_agents ''new_agents'' in
      broker_run reg_E w [HeaderRead, Delivered [c], Ticked [c], HeaderRead, Delivered [c], Ticked [c]] w') \<and>
     m_global_tick w' = 2 \<and> length (written (history w')) = 5 \<and> connected reg_E w'"
proof -
  let ?c = "reg_conglomerate ''{n}'' demo_agents ''new_agents''" and ?b = "(demo_header, reg_text ''{n}'')"
  obtain w where w: "example_begin reg_E demo_command_line = Inr (True, w)" using reg_client(3) by blast
  have "json_doc (lib reg_E)" by (simp add: reg_lib_def demo_json_doc)
  moreover have "\<forall>h. net_write reg_E h" by simp
  moreover have "ex_application (example_parse_command_line demo_command_line example_defaults) = ''Default''"
    by (simp add: example_parse_command_line_def example_defaults_def demo_command_line_def given_def)
  moreover have "list_all2 (\<lambda>b c. arrives_as reg_E b c \<and> typed_bundle {} c) [?b, ?b] [?c, ?c]"
    using reg_arrives by simp
  ultimately show ?thesis
    using client_keeps_ticking [OF _ demo_env_laws _ reg_client(2) _ w, of "{}" "[?b, ?b]" "[?c, ?c]"] w by (simp add: Let_def) metis
qed

section \<open>The baseline\<close>








section \<open>The radio\<close>

text \<open>
  The agents and the baseline have the same radio. For 80211b, the configuration that
  \<open>createNodes\<close> spells out, call by call, on helpers of its own is that of \<open>BaseWifi\<close>: the same channel,
  physical layer, station manager and mac, installed on all nodes of the baseline at once. And
  \<open>BaseWifi::configure\<close>, which nobody calls, would set up again what the constructor has.
\<close>

theorem baseline_radio:
  assumes "protocol w = ''80211b''"
  shows "install_protocol E w = (let (b, w1) = new_BaseWifi E w in Inr (BaseWifi_Install E b (RRNC w1) w1)) \<and>
    (\<forall>b v. BaseWifi_configure E b v = BaseWifi_init E b (v :: base_world))"
  using assms
  by (simp add: install_protocol_def new_BaseWifi_def BaseWifi_init_def BaseWifi_Install_def BaseWifi_configure_def Let_def
      default_mac_helper_def default_wifi_helper_def default_phy_helper_def)

theorem baseline_radio_witness:
  "\<exists>devices w'. install_protocol (rr_E []) (demo_rr\<lparr>RRNC := [7, 8]\<rparr>) = Inr (devices, w') \<and> devices = [7, 8]"
proof -
  have "protocol (demo_rr\<lparr>RRNC := [7, 8]\<rparr>) = ''80211b''" by (simp add: demo_rr_simps)
  from baseline_radio [OF this, of "rr_E []"] show ?thesis
    by (simp add: new_BaseWifi_def BaseWifi_init_def BaseWifi_Install_def Let_def trace_env_def demo_env_def call_def)
qed

end
