(* ===== verification/Agent_Lifetime.thy ===== *)
theory Agent_Lifetime
  imports Typed_Props
begin

text \<open>
  How long an agent lives. The map \<open>AllAgents\<close> holds the only lasting reference to an agent, so
  \<open>RemoveAgent\<close>, which erases the entry, frees it. But the receive callback of its socket was made
  with the plain pointer \<open>this\<close> (model/smb_agent.cc, \<open>init\<close> and \<open>initSocket\<close>), the socket belongs
  to ns-3, and nothing takes the callback back. And how long an id goes without one: the null entry
  that \<open>getAgent\<close> makes for an unknown id is never replaced.
\<close>

section \<open>Callbacks and pointers\<close>

text \<open>A new socket is none that has a callback.\<close>

definition sockets_fresh :: "env \<Rightarrow> bool" where
  "sockets_fresh E \<longleftrightarrow> (\<forall>h s. callbacks s h \<noteq> [] \<longrightarrow> ns_new_socket E h \<noteq> Some s)"

text \<open>The objects that an entry refers to.\<close>

definition pointers :: "'z agent_world_scheme \<Rightarrow> nat set" where
  "pointers w = {p. Some p \<in> snd ` set (AllAgents w)}"

lemma pointers_map: "map_of (AllAgents w) k = Some (Some p) \<Longrightarrow> p \<in> pointers w"
  by (force simp: pointers_def dest: map_of_SomeD)

section \<open>What every operation keeps\<close>

text \<open>
  \<open>follows\<close>: no object is entered again that was not in the map before, and, if sockets are new, no
  callback is replaced.
\<close>

definition follows :: "env \<Rightarrow> 'z agent_world_scheme \<Rightarrow> 'z agent_world_scheme \<Rightarrow> bool" where
  "follows E w w' \<longleftrightarrow> length (heap w) \<le> length (heap w') \<and> pointers w' \<subseteq> pointers w \<union> {length (heap w)..} \<and>
     (sockets_fresh E \<longrightarrow> (\<forall>s. callbacks s (history w) \<noteq> [] \<longrightarrow> callbacks s (history w') = callbacks s (history w)))"

lemma follows_refl: "follows E w w"
  by (simp add: follows_def)

lemma follows_trans: "follows E u v \<Longrightarrow> follows E v w \<Longrightarrow> follows E u w"
  by (fastforce simp: follows_def)

lemma follows_plain:
  assumes "AllAgents w' = AllAgents w" and "length (heap w') = length (heap w)" and "history w' = history w @ h"
    and "\<And>s. callbacks s h = []"
  shows "follows E w w'"
  using assms by (auto simp: follows_def pointers_def)

lemma follows_same: "AllAgents w' = AllAgents w \<Longrightarrow> heap w' = heap w \<Longrightarrow> history w' = history w \<Longrightarrow> follows E w w'"
  by (rule follows_plain [where h = "[]"]) simp_all

lemma set_map_put: "set (map_put k v m) \<subseteq> insert (k, v) (set m)"
  by (induction k v m rule: map_put.induct) auto

lemma getAgent_follows: "follows E w (snd (getAgent a w))"
proof (cases "map_of (AllAgents w) a")
  case None
  then show ?thesis using set_map_put [of a None "AllAgents w"]
    by (auto simp: getAgent_unknown follows_def pointers_def)
qed (simp add: getAgent_known follows_refl)

lemma pointers_AddAgent: "pointers (AddAgent a (Some p) w) \<subseteq> insert p (pointers w)"
  using set_map_put [of a "Some p" "AllAgents w"]
  by (force simp: AddAgent_def pointers_def map_insert_def split: option.splits)

lemma AddAgent_follows: "length (heap w) \<le> p \<Longrightarrow> follows E w w' \<Longrightarrow> follows E w (AddAgent a (Some p) w')"
  using pointers_AddAgent [of a p w'] by (auto simp: follows_def AddAgent_def)

lemma RemoveAgent_follows: "RemoveAgent a w = Inr w' \<Longrightarrow> follows E w w'"
  using set_map_erase [of a "AllAgents w"] by (auto simp: RemoveAgent_Inr follows_def pointers_def)

lemma new_socket_free: "sockets_fresh E \<Longrightarrow> ns_new_socket E (h @ [SocketCreate n]) = Some s \<Longrightarrow> callbacks s h = []"
  unfolding sockets_fresh_def by (drule spec [of _ "h @ [SocketCreate n]"], drule spec [of _ s]) simp

lemma create_socket_follows:
  assumes "create_socket E p w = Inr w'"
  shows "follows E w w'"
proof -
  from assms obtain s where w': "w' = call (SocketRecvCallback s p) (put_agent p ((heap w ! p)\<lparr>m_socket := Some s\<rparr>)
        (call (SocketCreate (m_node (heap w ! p))) w))"
      and s: "ns_new_socket E (history w @ [SocketCreate (m_node (heap w ! p))]) = Some s"
    by (auto simp: create_socket_def with_agent_Inr Let_def split: option.splits)
  have "callbacks s (history w) = []" if "sockets_fresh E" using new_socket_free [OF that s] .
  then show ?thesis by (auto simp: w' follows_def pointers_def put_agent_def)
qed

lemma Bind_follows: "Bind E p port w = Inr (r, w') \<Longrightarrow> follows E w w'"
  by (auto simp: Bind_def access_simps Let_def put_agent_def split: option.splits
      intro!: follows_plain [where h = "[SocketBind _ _]"])

lemma agent_init_follows:
  fixes w w' :: "'z agent_world_scheme"
  assumes "agent_init E nd p w = Inr w'"
  shows "follows E w w'"
proof -
  obtain n w1 where n: "node_for E nd w = (n, w1)" by (cases "node_for E nd w")
  from assms n show ?thesis
  proof (rule agent_init_Inr)
    fix w4 w6 :: "'z agent_world_scheme" and r ds ifs
    let ?nodes = "nc (heap w ! p) @ [n]"
    let ?w5 = "put_agent p ((heap w ! p)\<lparr>m_isa := None, nc := ?nodes, ndc := ds, iic := ifs, m_node := Some (?nodes ! 0)\<rparr>) w4"
    assume w4: "w4 = call (AddressAssign ds) (call (InternetInstall ?nodes) (call (MobilityInstall ?nodes) (wifi_call E ?nodes w1)))"
      and w6: "create_socket E p ?w5 = Inr w6" and w': "Bind E p 80 w6 = Inr (r, w')"
    have "AllAgents w1 = AllAgents w" "heap w1 = heap w" "\<exists>h. history w1 = history w @ h \<and> (\<forall>s. callbacks s h = [])"
      using n by (auto simp: node_for_def Let_def call_def split: option.splits)
    then obtain h where "AllAgents ?w5 = AllAgents w" "length (heap ?w5) = length (heap w)" "history ?w5 = history w @ h"
        "\<And>s. callbacks s h = []"
      by (auto simp: w4 put_agent_def call_def)
    then have "follows E w ?w5" by (rule follows_plain)
    with create_socket_follows [OF w6] Bind_follows [OF w'] show ?thesis by (blast intro: follows_trans)
  qed
qed

lemma add_one_agent_follows: "add_one_agent E a w = Inr w' \<Longrightarrow> follows E w w'"
proof (erule add_one_agent_step)
  fix w2
  let ?w = "w\<lparr>heap := heap w @ [new_Agent a None]\<rparr>"
  assume "agent_init E None (length (heap w)) ?w = Inr w2" and w': "w' = AddAgent a (Some (length (heap w))) w2"
  then have "follows E ?w w2" by (simp add: agent_init_follows)
  moreover have "follows E w ?w" by (auto simp: follows_def pointers_def)
  ultimately have "follows E w w2" by (blast intro: follows_trans)
  then show "follows E w w'" unfolding w' by (rule AddAgent_follows [OF order_refl])
qed

lemma locate_one_follows: "locate_one E it w = Inr w' \<Longrightarrow> follows E w w'"
  by (drule locate_one_Inr) (auto simp: moves_def intro!: follows_plain split: option.splits)

lemma send_one_follows: "send_one E p t (res, w) = Inr (res', w') \<Longrightarrow> follows E w w'"
proof (erule send_one_steps)
  fix rid r w1
  assume look: "getAgent rid w = (r, w1)"
    and alt: "(r = None \<and> w' = w1) \<or> (\<exists>q n. r = Some q \<and> SendTo E p r (write_line (lib E) False res') w1 = Inr (n, w'))"
  have "follows E w1 w'"
    using alt follows_refl by (auto elim!: SendTo_Inr intro!: follows_plain)
  with getAgent_follows [of E w rid] look show "follows E w w'" by (auto intro: follows_trans)
qed

lemma fold_follows:
  assumes "fold_outcome f xs w = Inr w'" and "\<And>x w w'. f x w = Inr w' \<Longrightarrow> follows E w w'"
  shows "follows E w w'"
  using assms(1) by (rule fold_outcome_invariant [where P = "follows E w"]) (auto intro: follows_refl follows_trans assms(2))

lemma handle_follows: "handle E h c i w = Inr w' \<Longrightarrow> follows E w w'"
proof (cases h)
  case OpaqueSendHandler
  assume "handle E h c i w = Inr w'"
  then have "OpaqueSend_handle E c i w = Inr w'" using OpaqueSendHandler by (simp add: handle_def)
  then show ?thesis
  proof (rule OpaqueSend_steps)
    fix a p ts res res'
    assume "fold_outcome (send_one E p) ts (res, snd (getAgent a w)) = Inr (res', w')"
    then show ?thesis
      by (rule send_all_keeps) (auto intro: getAgent_follows follows_trans dest: send_one_follows)
  qed (simp add: getAgent_follows)
next
  case AgentsInfoHandler
  assume "handle E h c i w = Inr w'"
  then have "AgentsInfo_handle E c i w = Inr w'" using AgentsInfoHandler by (simp add: handle_def)
  then show ?thesis
    by (rule AgentsInfo_steps) (blast intro: follows_trans fold_follows add_one_agent_follows RemoveAgent_follows)
qed (auto simp: handle_def AllLocation_handle_def outcome_simps follows_refl intro: fold_follows locate_one_follows)

interpretation lifetime: handler "handle E" "\<lambda>w. True" "follows E" for E
  by unfold_locales (auto intro: handle_follows follows_refl follows_trans)

lemma handle_bundle_follows: "handle_bundle E c w = Inr w' \<Longrightarrow> follows E w w'"
  using handle_bundle_act_all lifetime.act_all_frame by (fastforce simp: handlers.act_all_def lifetime.act_all_def)

lemma drain_follows: "drain E cs w = Inr w' \<Longrightarrow> follows E w w'"
proof (induction cs arbitrary: w)
  case (Cons c cs)
  let ?w = "w\<lparr>m_incoming := (m_incoming w)\<lparr>messageList := cs\<rparr>\<rparr>"
  from Cons.prems obtain w1 where w1: "handle_bundle E c ?w = Inr w1" "drain E cs w1 = Inr w'" by (auto simp: outcome_simps)
  have "follows E w ?w" by (rule follows_same) simp_all
  with handle_bundle_follows [OF w1(1)] Cons.IH [OF w1(2)] show ?case by (blast intro: follows_trans)
qed (simp add: follows_refl)

section \<open>Every run of the broker\<close>

lemma no_callbacks: "list_all aside h \<Longrightarrow> callbacks t h = []"
  by (induction t h rule: callbacks.induct) auto

lemma io_follows: "io_only w w' \<Longrightarrow> follows E w w'"
  by (auto simp: io_only_def no_callbacks intro!: follows_plain)

lemma tick_follows:
  assumes "pause_iteration E w = Inr (Rescheduled, w')"
  shows "follows E w w'"
proof -
  from assms obtain w2 w3 w4 where w2: "processIncoming E (w\<lparr>m_pause := True\<rparr>) = Inr w2"
    and w3: "sendOutgoing E w2 = Inr w3" and w4: "send_ticked E w3 = Inr w4"
    and w': "w' = (call (Schedule 100) w4)\<lparr>m_global_tick := m_global_tick (call (Schedule 100) w4) + 1\<rparr>"
    by (auto simp: pause_iteration_def outcome_simps Let_def split: if_splits)
  have "follows E (w\<lparr>m_pause := True\<rparr>) w2"
    using w2 by (simp add: processIncoming_def process_loop_drain drain_follows)
  moreover have "follows E w (w\<lparr>m_pause := True\<rparr>)" by (rule follows_same) simp_all
  moreover have "follows E w2 w3"
    using sendOutgoing_Inr [OF w3] by (auto simp: set_session_def call_def intro!: follows_plain)
  moreover have "follows E w3 w4"
    by (rule send_ticked_Inr [OF w4]) (auto simp: set_session_def call_def intro!: follows_plain)
  moreover have "follows E w4 w'" by (auto simp: w' call_def intro!: follows_plain)
  ultimately show ?thesis by (blast intro: follows_trans)
qed

lemma step_follows:
  assumes "broker_step E w a w'"
  shows "follows E w w'"
  using assms
proof (cases rule: io_step_cases)
  case (packet s)
  then show ?thesis by (auto elim!: packet_arrives_Inr intro: follows_plain)
next
  case stop
  show ?thesis unfolding conjunct2 [OF pause_stop [OF stop(2)]] by (rule follows_same) simp_all
qed (auto intro: io_follows tick_follows follows_refl dest: pause_spin)

lemma run_follows: "broker_run E w acts w' \<Longrightarrow> follows E w w'"
  by (induction rule: broker_run.induct) (auto intro: follows_refl follows_trans step_follows)

section \<open>Agents that are removed\<close>

text \<open>An object that no entry refers to any more, whose callback is still in force.\<close>

definition dangling :: "nat \<Rightarrow> socket \<Rightarrow> 'z agent_world_scheme \<Rightarrow> bool" where
  "dangling p s w \<longleftrightarrow> p < length (heap w) \<and> p \<notin> pointers w \<and> callbacks s (history w) = [p]"

lemma dangling_follows: "sockets_fresh E \<Longrightarrow> dangling p s w \<Longrightarrow> follows E w w' \<Longrightarrow> dangling p s w'"
  by (fastforce simp: dangling_def follows_def)

lemma dangling_packet: "dangling p s w \<Longrightarrow> packet_arrives E s w = Inl Undefined"
  by (simp add: dangling_def packet_arrives_def pointers_def)

lemma pointers_iff: "agents_ok w \<Longrightarrow> p \<in> pointers w \<longleftrightarrow> (\<exists>k. map_of (AllAgents w) k = Some (Some p))"
  by (auto simp: pointers_def agents_ok_def map_ok_def strict_sorted_iff map_of_eq_Some_iff image_iff) force

lemma RemoveAgent_dangling:
  assumes ok: "agents_ok w" and a: "map_of (AllAgents w) a = Some (Some p)" and s: "callbacks s (history w) = [p]"
  obtains w' where "RemoveAgent a w = Inr w'" and "dangling p s w'"
proof -
  let ?w = "(call (Dispose p) w)\<lparr>AllAgents := map_erase a (AllAgents w)\<rparr>"
  have r: "RemoveAgent a w = Inr ?w" using a by (auto simp: RemoveAgent_Inr)
  have "map_of (AllAgents ?w) k \<noteq> Some (Some p)" for k
    using ok a by (auto simp: agents_ok_def map_of_erase)
  then have "p \<notin> pointers ?w" using pointers_iff [OF RemoveAgent_ok [OF ok r]] by simp
  moreover have "p < length (heap w)" using ok a by (auto simp: agents_ok_def)
  ultimately have "dangling p s ?w" using s by (simp add: dangling_def)
  with r that show thesis by blast
qed

text \<open>The two destructors of a \<open>WFD_Agent\<close> free the address once.\<close>

lemma delete_WFD_Agent_once: "delete_WFD_Agent p w = delete_Agent p w"
  by (auto simp: delete_WFD_Agent_def delete_Agent_def with_agent_def put_agent_def)

text \<open>
  An id that is added again gets a second object, which does not enter the map: \<open>insert\<close> keeps the
  old entry.
\<close>

lemma create_socket_callback:
  assumes "sockets_fresh E" and "create_socket E p w = Inr w'"
  shows "\<exists>s. callbacks s (history w') = [p]"
proof -
  from assms(2) obtain s where w': "history w' = history w @ [SocketCreate (m_node (heap w ! p)), SocketRecvCallback s p]"
      and s: "ns_new_socket E (history w @ [SocketCreate (m_node (heap w ! p))]) = Some s"
    by (auto simp: create_socket_def with_agent_Inr Let_def put_agent_def split: option.splits)
  show ?thesis using new_socket_free [OF assms(1) s] by (auto simp: w' intro!: exI [of _ s])
qed

lemma agent_init_callback:
  fixes w w' :: "'z agent_world_scheme"
  assumes E: "sockets_fresh E" and "agent_init E nd p w = Inr w'"
  shows "\<exists>s. callbacks s (history w') = [p]"
proof -
  obtain n w1 where n: "node_for E nd w = (n, w1)" by (cases "node_for E nd w")
  from assms(2) n show ?thesis
  proof (rule agent_init_Inr)
    fix w5 w6 :: "'z agent_world_scheme" and r
    assume w6: "create_socket E p w5 = Inr w6" and w': "Bind E p 80 w6 = Inr (r, w')"
    obtain s where "callbacks s (history w6) = [p]" using create_socket_callback [OF E w6] by blast
    moreover from this have "callbacks s (history w') = callbacks s (history w6)"
      using Bind_follows [OF w'] E by (simp add: follows_def)
    ultimately show ?thesis by auto
  qed
qed

lemma add_known_dangling:
  assumes E: "sockets_fresh E" and ok: "agents_ok w" and known: "map_of (AllAgents w) a \<noteq> None"
    and step: "add_one_agent E a w = Inr w'"
  shows "\<exists>p s. dangling p s w'"
  using step
proof (rule add_one_agent_step)
  fix w2
  let ?p = "length (heap w)" and ?w = "w\<lparr>heap := heap w @ [new_Agent a None]\<rparr>"
  assume init: "agent_init E None ?p ?w = Inr w2" and w': "w' = AddAgent a (Some ?p) w2" and same: "same_agents ?p ?w w2"
  obtain s where s: "callbacks s (history w2) = [?p]" using agent_init_callback [OF E init] by blast
  have "AllAgents w2 = AllAgents w" "length (heap w2) = Suc ?p" using same by (simp_all add: same_agents_def)
  moreover from this have "w' = w2" using known by (auto simp: w' AddAgent_def map_insert_def)
  moreover have "?p \<notin> pointers w" using ok by (auto simp: pointers_iff agents_ok_def)
  ultimately have "dangling ?p s w'" using s by (simp add: dangling_def pointers_def)
  then show ?thesis by blast
qed

lemma io_pointers: "io_only w w' \<Longrightarrow> pointers w' = pointers w"
  by (simp add: io_only_def pointers_def)

lemma only_ticks_remove:
  assumes "broker_step E w b w'" and "pointers w' \<noteq> pointers w"
  shows "\<exists>cs. b = Ticked cs"
  using assms(1)
proof (cases rule: io_step_cases)
  case (io cs woke)
  with assms(2) show ?thesis by (simp add: io_pointers)
next
  case spin
  with assms(2) show ?thesis using pause_spin by metis
next
  case stop
  with assms(2) pause_stop [OF stop(2)] show ?thesis by (simp add: pointers_def)
next
  case (packet s)
  then have "pointers w' = pointers w" by (auto elim!: packet_arrives_Inr simp: pointers_def)
  with assms(2) show ?thesis by blast
qed simp

section \<open>Null entries\<close>

text \<open>The states in which an id has a null entry: no operation of the broker ends that.\<close>

definition barred :: "env \<Rightarrow> string \<Rightarrow> 'z agent_world_scheme \<Rightarrow> bool" where
  "barred E a w \<longleftrightarrow> agents_ok w \<and> (ns3_laws E \<longrightarrow> all_ready E w) \<and> map_of (AllAgents w) a = Some None"

lemma barred_frame:
  assumes "barred E a w" and "AllAgents w' = AllAgents w" and "heap w' = heap w" and "\<exists>h. history w' = history w @ h"
  shows "barred E a w'"
  using assms all_ready_history [OF _ _ assms(2-4)] agents_ok_cong [OF assms(2,3)] by (auto simp: barred_def)

lemma getAgent_null:
  "agents_ok w \<and> map_of (AllAgents w) a = Some None \<Longrightarrow>
     agents_ok (snd (getAgent b w)) \<and> map_of (AllAgents (snd (getAgent b w))) a = Some None"
  using getAgent_ok [of w b]
  by (cases "map_of (AllAgents w) b") (auto simp: getAgent_known getAgent_unknown agents_ok_def map_of_put)

lemma send_one_null:
  assumes "send_one E p t (res, w) = Inr (res', w')" and "agents_ok w \<and> map_of (AllAgents w) a = Some None"
  shows "agents_ok w' \<and> map_of (AllAgents w') a = Some None"
  using assms(1)
proof (rule send_one_steps)
  fix rid r w1
  assume look: "getAgent rid w = (r, w1)"
    and alt: "(r = None \<and> w' = w1) \<or> (\<exists>q n. r = Some q \<and> SendTo E p r (write_line (lib E) False res') w1 = Inr (n, w'))"
  have "AllAgents w' = AllAgents w1 \<and> heap w' = heap w1" using alt by (auto elim!: SendTo_Inr)
  moreover have "agents_ok w1 \<and> map_of (AllAgents w1) a = Some None"
    using getAgent_null [OF assms(2), of rid] look by simp
  ultimately show ?thesis by (simp add: agents_ok_def)
qed

lemma null_kept:
  assumes "handle E h c i w = Inr w'" and "agents_ok w \<and> map_of (AllAgents w) a = Some None"
  shows "map_of (AllAgents w') a = Some None"
proof (cases h)
  case OpaqueSendHandler
  then have "OpaqueSend_handle E c i w = Inr w'" using assms(1) by (simp add: handle_def)
  then have "agents_ok w' \<and> map_of (AllAgents w') a = Some None"
  proof (rule OpaqueSend_steps)
    fix b p ts res res'
    assume "fold_outcome (send_one E p) ts (res, snd (getAgent b w)) = Inr (res', w')"
    then show ?thesis by (rule send_all_keeps) (rule getAgent_null [OF assms(2)], rule send_one_null)
  qed (use getAgent_null [OF assms(2)] in simp)
  then show ?thesis by simp
next
  case AgentsInfoHandler
  then have "AgentsInfo_handle E c i w = Inr w'" using assms(1) by (simp add: handle_def)
  then show ?thesis
  proof (rule AgentsInfo_steps)
    fix info w1
    assume w1: "fold_outcome (add_one_agent E) (addAgentIds info) w = Inr w1"
      and w': "fold_outcome RemoveAgent (remAgentIds info) w1 = Inr w'"
    have ok: "agents_ok w1" "map_of (AllAgents w1) a = Some None"
      using add_agents_ok [OF _ w1] add_agents_effect(1) [OF w1] assms(2) by simp_all
    with w' remove_agents_defined [OF ok(1)] have "a \<notin> set (remAgentIds info)" by blast
    with ok remove_agents_effect [OF w' ok(1)] show ?thesis by simp
  qed
qed (use assms in \<open>auto simp: handle_def AllLocation_handle_def outcome_simps dest: locate_all_Inr\<close>)

interpretation barred: handler "handle E" "barred E a" "\<lambda>_ _. True" for E a
  by unfold_locales (auto simp: barred_def intro: handle_ok handle_ready null_kept)

lemma handle_message_barred: "barred E a w \<Longrightarrow> handle_message E c i w = Inr w' \<Longrightarrow> barred E a w'"
  by (auto simp: handle_message_def outcome_simps intro: barred.act_inv)

lemma handle_bundle_barred: "barred E a w \<Longrightarrow> handle_bundle E c w = Inr w' \<Longrightarrow> barred E a w'"
  by (rule barred.act_all_inv [OF _ handle_bundle_act_all])

lemma barred_incoming [simp]: "barred E a (w\<lparr>m_incoming := q\<rparr>) = barred E a w"
  by (simp add: barred_def)

lemma step_barred:
  assumes "broker_step E w b w'" and "barred E a w"
  shows "barred E a w'"
  using assms(1)
proof (cases rule: io_step_cases)
  case (io cs woke)
  from io(1) show ?thesis by (auto simp: io_only_def intro: barred_frame [OF assms(2)])
next
  case spin
  then show ?thesis using pause_spin assms(2) by metis
next
  case tick
  from tick(2) obtain w2 where w2: "processIncoming E (w\<lparr>m_pause := True\<rparr>) = Inr w2"
      "AllAgents w' = AllAgents w2" "heap w' = heap w2" "\<exists>h. history w' = history w2 @ h"
    by (rule pause_tick) simp
  have start: "barred E a (w\<lparr>m_pause := True\<rparr>)" by (rule barred_frame [OF assms(2)]) simp_all
  have "drain E (messageList (m_incoming w)) (w\<lparr>m_pause := True\<rparr>) = Inr w2"
    using w2(1) by (simp add: processIncoming_def process_loop_drain)
  from this start have "barred E a w2" by (rule drain_inv) (simp, rule handle_bundle_barred)
  then show ?thesis using w2(2-4) by (rule barred_frame)
next
  case stop
  show ?thesis unfolding conjunct2 [OF pause_stop [OF stop(2)]] by (rule barred_frame [OF assms(2)]) simp_all
next
  case (packet s)
  from packet(2) show ?thesis by (auto elim!: packet_arrives_Inr intro: barred_frame [OF assms(2)])
qed

text \<open>Removing such an id is undefined, never an exception.\<close>

lemma remove_barred:
  assumes "agents_ok w" and "map_of (AllAgents w) a = Some None" and "a \<in> set ids"
  shows "fold_outcome RemoveAgent ids w = Inl Undefined"
  using assms
proof (induction ids arbitrary: w)
  case (Cons b ids)
  show ?case
  proof (cases "RemoveAgent b w")
    case (Inl e)
    then have "e = Undefined" by (auto simp: RemoveAgent_def deref_def Let_def split: option.splits)
    with Inl show ?thesis by simp
  next
    case (Inr v)
    have "b \<noteq> a" using Inr Cons.prems(2) by (auto simp: RemoveAgent_Inr)
    moreover have "map_of (AllAgents v) a = Some None"
      using remove_agents_effect [of "[b]" w v a] Inr Cons.prems \<open>b \<noteq> a\<close> by simp
    ultimately show ?thesis using Cons.IH [OF RemoveAgent_ok [OF Cons.prems(1) Inr]] Cons.prems(3) Inr by simp
  qed
qed simp

text \<open>
  The states that come after one in the middle of a tick: by the messages that are left, by what
  happens to the queue meanwhile, by the end of the tick, and by every step of the two threads.
\<close>

inductive later :: "env \<Rightarrow> 'z broker_world_scheme \<Rightarrow> 'z broker_world_scheme \<Rightarrow> bool" for E w where
  now: "later E w w"
| message: "later E w u \<Longrightarrow> handle_message E c i u = Inr v \<Longrightarrow> later E w v"
| queue: "later E w u \<Longrightarrow> later E w (u\<lparr>m_incoming := q\<rparr>)"
| finish: "later E w u \<Longrightarrow> sendOutgoing E u = Inr u1 \<Longrightarrow> send_ticked E u1 = Inr u2 \<Longrightarrow>
    later E w ((call (Schedule 100) u2)\<lparr>m_global_tick := m_global_tick u2 + 1\<rparr>)"
| step: "later E w u \<Longrightarrow> broker_step E u a v \<Longrightarrow> later E w v"

lemma later_barred: "later E w u \<Longrightarrow> barred E a w \<Longrightarrow> barred E a u"
proof (induction rule: later.induct)
  case (finish u u1 u2)
  note u1 = sendOutgoing_Inr [OF finish.hyps(2)]
  from finish.hyps(3) obtain s og where "u2 = call (NetWrite (bundle_bytes og)) (set_session s u1)" by (rule send_ticked_Inr)
  with u1 show ?case
    by (auto simp: set_session_def call_def intro: barred_frame [OF finish.IH [OF finish.prems]])
qed (auto intro: handle_message_barred step_barred)

section \<open>Properties\<close>

text \<open>An environment whose sockets are new, and a bundle that removes the agent x.\<close>

definition rem_value :: json where
  "rem_value = objectValue [(''msg_type'', stringValue ''new_agents''), (''rem'', arrayValue [stringValue ''x''])]"

definition rem_lib :: jsonlib where
  "rem_lib = demo_json (map_of [(''{r}'', rem_value)])"

definition fresh_E :: "jsonlib \<Rightarrow> env" where
  "fresh_E J = (demo_env J (\<lambda>_. None) (\<lambda>h. NetClose \<notin> set h))\<lparr>ns_new_socket := \<lambda>h. Some (Suc
     (sum_list (map (\<lambda>e. case e of SocketRecvCallback s p \<Rightarrow> s | _ \<Rightarrow> 0) h)))\<rparr>"

abbreviation rem_E :: env where
  "rem_E \<equiv> fresh_E rem_lib"

definition rem_text :: string where
  "rem_text = vary_header \<lparr>sendId = ''9'', destId = ''0'', msgLengths = [3]\<rparr> @ ''{r}''"

definition rem_conglom :: MessageConglomerate where
  "rem_conglom = received rem_text ''9'' ''0'' [''{r}''] [(rem_value, \<lparr>msg_type = ''new_agents''\<rparr>)]"

definition rem_broker :: broker_world where
  "rem_broker = demo_broker\<lparr>history := [NetConnect 0, MobilityInstall [1], SocketRecvCallback 1 0], pending := Some ReadHeader,
     m_pause := False, heap := [demo_agent ''x'' 1], AllAgents := [(''x'', Some 0)],
     m_incoming := \<lparr>messageList = [rem_conglom]\<rparr>\<rparr>"

lemma fresh_E_simps [simp]: "lib (fresh_E J) = J" "net_is_open (fresh_E J) = (\<lambda>h. NetClose \<notin> set h)" "net_write (fresh_E J) h"
  by (simp_all add: fresh_E_def)

lemma fresh_sockets: "sockets_fresh (fresh_E J)"
proof -
  have "s \<le> sum_list (map (\<lambda>e. case e of SocketRecvCallback s p \<Rightarrow> s | _ \<Rightarrow> 0) h)" if "callbacks s h \<noteq> []" for s h
    using that by (induction s h rule: callbacks.induct) (auto split: if_splits)
  then show ?thesis by (fastforce simp: sockets_fresh_def fresh_E_def)
qed

lemma fresh_laws: "ns3_laws (fresh_E J)"
  using demo_env_laws [of J "\<lambda>_. None" "\<lambda>h. NetClose \<notin> set h"] by (simp add: ns3_laws_def fresh_E_def)

lemma rem_conglom_ok: "conglom_ok rem_lib rem_conglom" "typed_bundle {''x''} rem_conglom"
proof -
  have "deserialize_v1 rem_lib demo_header rem_text new_MessageConglomerate = Inr (True, rem_conglom)"
    unfolding rem_conglom_def
    by (rule deserialize_v1_carried)
      (simp_all add: bundle_fits_def readable_def ParseJsonMessageBase_def get_string_def new_MessageBase_def
        rem_lib_def demo_json_def rem_value_def rem_text_def vary_header_def demo_header_def)
  then have "deserialize rem_lib demo_header rem_text new_MessageConglomerate = Inr (True, rem_conglom)"
    by (simp add: deserialize_def NEW_BUNDLES_def)
  from deserialize_ok [OF this] show "conglom_ok rem_lib rem_conglom" by simp
  have "typed_message {''x''} rem_value ''new_agents''"
    by (simp add: typed_message_def well_typed_def received_types_def new_agents_type_def addressed_def ids_at_def rem_value_def has_type.simps)
  then show "typed_bundle {''x''} rem_conglom" by (auto simp: typed_bundle_def rem_conglom_def received_def)
qed

lemma rem_fit: "fit (fresh_E J) {''x''} rem_broker"
  by (auto simp: fit_def agents_ok_def all_ready_def ready_def rem_broker_def demo_agent_def new_Agent_def
      map_ok_def fresh_E_def demo_env_def split: if_splits)

text \<open>The tick that handles the bundle.\<close>

lemma rem_tick: "\<exists>w'. broker_step rem_E rem_broker (Ticked [rem_conglom]) w' \<and> m_pause w' \<and> 0 \<notin> pointers w'"
proof -
  have "json_doc (lib rem_E)" by (simp add: rem_lib_def demo_json_doc)
  moreover have "\<forall>h. net_write rem_E h" "open_by_links rem_E" by (simp_all add: open_until_close)
  moreover have "connected rem_E rem_broker" "\<not> m_pause rem_broker" "handleLookup rem_broker = new_HandlerLookup"
    by (simp_all add: rem_broker_def connected_def demo_broker_def tick_connection_def)
  moreover have "\<forall>c \<in> set (messageList (m_incoming rem_broker)). conglom_ok (lib rem_E) c \<and> typed_bundle {''x''} c"
    by (simp add: rem_broker_def rem_conglom_ok)
  ultimately obtain w' where w': "pause_iteration rem_E rem_broker = Inr (Rescheduled, w')"
    using typed_tick [OF _ fresh_laws, of rem_lib rem_broker "{''x''}"] rem_fit by blast
  then obtain w2 where w2: "processIncoming rem_E (rem_broker\<lparr>m_pause := True\<rparr>) = Inr w2" "m_pause w'" "AllAgents w' = AllAgents w2"
    by (rule pause_tick)
  have "AllAgents w2 = []"
    using w2(1) by (auto simp: processIncoming_def process_loop_drain rem_broker_def handle_bundle_def message_numbers_def
        rem_conglom_def received_def getCount_def NEW_BUNDLES_def handle_message_def getHandler_def new_HandlerLookup_def
        demo_broker_def handle_def AgentsInfo_handle_def parseNewAgents_def rem_value_def parse_simps rem_lib_def
        MessageBase.extend_def AgentsInfoMessage.fields_def RemoveAgent_def deref_def Let_def outcome_simps)
  then have "0 \<notin> pointers w'" using w2(3) by (simp add: pointers_def)
  moreover have "broker_step rem_E rem_broker (Ticked [rem_conglom]) w'"
    using broker_step.tick [OF w'] by (simp add: rem_broker_def)
  ultimately show ?thesis using w2(2) by blast
qed

text \<open>
  C23: an agent that is removed leaves its receive callback behind. Only a tick takes an agent
  out of the map; from then on, in every run, no entry refers to the object again, the callback
  of its socket still does, and a packet that arrives there makes ns-3 call \<open>ReceivePacket\<close> on
  an object that has been freed.
\<close>

theorem removed_agent_dangles:
  assumes "sockets_fresh E" and "agents_ok w" and "map_of (AllAgents w) a = Some (Some p)" and "callbacks s (history w) = [p]"
    and "broker_step E w b w1" and "p \<notin> pointers w1" and "broker_run E w1 acts w2"
  shows "(\<exists>cs. b = Ticked cs) \<and> p \<notin> pointers w2 \<and> callbacks s (history w2) = [p] \<and> packet_arrives E s w2 = Inl Undefined"
proof -
  note step = step_follows [OF assms(5)]
  have "p \<in> pointers w" "p < length (heap w)" using assms(2,3) by (auto simp: pointers_map agents_ok_def)
  then have "dangling p s w1" using step assms(1,4,6) by (fastforce simp: dangling_def follows_def)
  from dangling_follows [OF assms(1) this run_follows [OF assms(7)]] have "dangling p s w2" .
  moreover have "\<exists>cs. b = Ticked cs" using only_ticks_remove [OF assms(5)] \<open>p \<in> pointers w\<close> assms(6) by blast
  ultimately show ?thesis using dangling_packet by (auto simp: dangling_def)
qed

theorem removed_agent_dangles_witness:
  "\<exists>w1. broker_step rem_E rem_broker (Ticked [rem_conglom]) w1 \<and> broker_run rem_E w1 [Spun, Spun] w1 \<and>
     callbacks 1 (history w1) = [0] \<and> packet_arrives rem_E 1 w1 = Inl Undefined"
proof -
  obtain w1 where w1: "broker_step rem_E rem_broker (Ticked [rem_conglom]) w1" "m_pause w1" "0 \<notin> pointers w1"
    using rem_tick by blast
  have spin: "broker_step rem_E w1 Spun w1" using w1(2) by (simp add: spun_iff pause_iteration_def)
  have "broker_run rem_E w1 (([] @ [Spun]) @ [Spun]) w1" by (rule run_snoc [OF run_snoc [OF run_nil spin] spin])
  then have run: "broker_run rem_E w1 [Spun, Spun] w1" by simp
  have ok: "agents_ok rem_broker" using rem_fit by (simp add: fit_def)
  have a: "map_of (AllAgents rem_broker) ''x'' = Some (Some 0)" "callbacks 1 (history rem_broker) = [0]"
    by (simp_all add: rem_broker_def)
  from removed_agent_dangles [OF fresh_sockets ok a w1(1,3) run] w1(1) run show ?thesis by blast
qed

text \<open>
  C24: so does an id that is added again. A new_agents message that adds an id which has an entry
  already makes an object for it, with a socket and a callback, that never enters the map and
  is freed at once: whatever else the message does, the callback dangles when it has been
  handled.
\<close>

theorem readded_agent_dangles:
  assumes "sockets_fresh E" and "ns3_laws E" and "agents_ok w" and "all_ready E w"
    and "parseNewAgents (lib E) c i = Inr info" and "a \<in> set (addAgentIds info)" and "map_of (AllAgents w) a \<noteq> None"
    and "handle E AgentsInfoHandler c i w = Inr w'"
  shows "\<exists>p s. dangling p s w' \<and> packet_arrives E s w' = Inl Undefined"
proof -
  from assms(6) obtain xs ys where ids: "addAgentIds info = xs @ a # ys" by (auto simp: in_set_conv_decomp)
  obtain v where v: "fold_outcome (add_one_agent E) xs w = Inr v" "agents_ok v" "all_ready E v"
    using add_agents_ready [OF assms(2-4)] by blast
  obtain u where u: "add_one_agent E a v = Inr u" using add_one_agent_ready [OF assms(2) v(2,3)] by blast
  have "map_of (AllAgents v) a \<noteq> None" using add_agents_effect(1) [OF v(1) assms(3,7)] assms(7) by simp
  then obtain p s where d: "dangling p s u" using add_known_dangling [OF assms(1) v(2) _ u] by blast
  have "ebind (fold_outcome (add_one_agent E) ys u) (fold_outcome RemoveAgent (remAgentIds info)) = Inr w'"
    using assms(5,8) v(1) u by (simp add: handle_def AgentsInfo_handle_def ids fold_outcome_append)
  then have "follows E u w'"
    by (auto simp: outcome_simps) (blast intro: follows_trans fold_follows add_one_agent_follows RemoveAgent_follows)
  from dangling_follows [OF assms(1) d this] dangling_packet show ?thesis by blast
qed

theorem readded_agent_dangles_witness:
  "\<exists>w' p s. handle (fresh_E typed_lib) AgentsInfoHandler typed_conglom 0 rem_broker = Inr w' \<and> dangling p s w' \<and>
     packet_arrives (fresh_E typed_lib) s w' = Inl Undefined"
proof -
  have msg: "has_message typed_conglom 0 add_value \<lparr>msg_type = ''new_agents''\<rparr>"
    by (simp add: has_message_def typed_conglom_def received_def getJsonMessage_def getBaseMessage_def vec_at_def)
  have v: "has_type new_agents_type add_value" by (simp add: add_value_def new_agents_type_def has_type.simps)
  have J: "json_doc (lib (fresh_E typed_lib))" by (simp add: typed_doc)
  obtain w' where w': "handle (fresh_E typed_lib) AgentsInfoHandler typed_conglom 0 rem_broker = Inr w'"
    using new_agents_step [OF J fresh_laws rem_fit msg v] by (auto simp: ids_at_def add_value_def)
  have "parseNewAgents (lib (fresh_E typed_lib)) typed_conglom 0 = Inr \<lparr>msg_type = ''new_agents'', addAgentIds = [''x'', ''y''], remAgentIds = []\<rparr>"
    by (simp add: parseNewAgents_def typed_conglom_def received_def parse_simps add_value_def typed_lib_def
        MessageBase.extend_def AgentsInfoMessage.fields_def)
  moreover have "agents_ok rem_broker" "all_ready (fresh_E typed_lib) rem_broker" using rem_fit by (auto simp: fit_def)
  moreover have "map_of (AllAgents rem_broker) ''x'' \<noteq> None" by (simp add: rem_broker_def)
  ultimately show ?thesis
    using readded_agent_dangles [OF fresh_sockets fresh_laws _ _ _ _ _ w', of _ "''x''"] w' by fastforce
qed

text \<open>
  C36: an opaque_send message from an id without an agent sends nothing, but leaves a null entry
  for the id, and that is for good. In every state that the broker reaches from there, a
  message that removes the id is undefined behaviour (a null pointer is dereferenced, no
  exception is thrown); every other new_agents message that succeeds leaves the null entry, also
  one that adds the id; and one that only adds agents does succeed. So the id can never have
  an agent again.
\<close>

theorem stray_opaque_send_blocks_agent:
  fixes w :: "'z broker_world_scheme"
  assumes "json_doc (lib E)" and "ns3_laws E" and "agents_ok w" and "all_ready E w" and "parseOpaqueSend (lib E) c i = Inr os"
    and "map_of (AllAgents w) (fromId os) = None"
  shows "\<exists>w'. handle E OpaqueSendHandler c i w = Inr w' \<and> history w' = history w \<and>
    (\<forall>u. later E w' u \<longrightarrow> map_of (AllAgents u) (fromId os) = Some None \<and>
      (\<forall>c' j info. parseNewAgents (lib E) c' j = Inr info \<longrightarrow>
        (if fromId os \<in> set (remAgentIds info) then handle E AgentsInfoHandler c' j u = Inl Undefined
         else \<forall>v. handle E AgentsInfoHandler c' j u = Inr v \<longrightarrow> map_of (AllAgents v) (fromId os) = Some None) \<and>
        (remAgentIds info = [] \<longrightarrow> (\<exists>v. handle E AgentsInfoHandler c' j u = Inr v))))"
proof -
  let ?a = "fromId os" and ?w = "w\<lparr>AllAgents := map_put (fromId os) None (AllAgents w)\<rparr>"
  have handle: "handle E OpaqueSendHandler c i w = Inr ?w"
    using OpaqueSend_eq [OF assms(1,5), of w] assms(6) by (auto simp: handle_def getAgent_unknown)
  have "map_of (AllAgents ?w) ?a = Some None" using assms(3) by (simp add: agents_ok_def map_of_put)
  then have start: "barred E ?a ?w"
    using handle_ok [OF assms(3) handle] handle_ready [OF assms(2-4) handle] by (simp add: barred_def)
  have "(if ?a \<in> set (remAgentIds info) then handle E AgentsInfoHandler c' j u = Inl Undefined
       else \<forall>v. handle E AgentsInfoHandler c' j u = Inr v \<longrightarrow> map_of (AllAgents v) ?a = Some None) \<and>
      (remAgentIds info = [] \<longrightarrow> (\<exists>v. handle E AgentsInfoHandler c' j u = Inr v))"
    if u: "barred E ?a u" and info: "parseNewAgents (lib E) c' j = Inr info" for u :: "'z broker_world_scheme" and c' j info
  proof -
    have ok: "agents_ok u" "all_ready E u" "map_of (AllAgents u) ?a = Some None" using u assms(2) by (auto simp: barred_def)
    obtain v where v: "fold_outcome (add_one_agent E) (addAgentIds info) u = Inr v" "agents_ok v"
      using add_agents_ready [OF assms(2) ok(1,2)] by blast
    have handle: "handle E AgentsInfoHandler c' j u = fold_outcome RemoveAgent (remAgentIds info) v"
      using info v(1) by (simp add: handle_def AgentsInfo_handle_def)
    have "map_of (AllAgents v) ?a = Some None" using add_agents_effect(1) [OF v(1) ok(1)] ok(3) by simp
    from remove_barred [OF v(2) this] null_kept [of E AgentsInfoHandler c' j u] ok(1,3) handle show ?thesis by auto
  qed
  note blocked = this
  show ?thesis
  proof (rule exI [of _ ?w], intro conjI allI impI)
    show "handle E OpaqueSendHandler c i w = Inr ?w" by (rule handle)
  next
    fix u assume "later E ?w u"
    then have u: "barred E ?a u" using start by (rule later_barred)
    then show "map_of (AllAgents u) ?a = Some None" by (simp add: barred_def)
    fix c' j info assume "parseNewAgents (lib E) c' j = Inr info"
    note here = blocked [OF u this]
    show "if ?a \<in> set (remAgentIds info) then handle E AgentsInfoHandler c' j u = Inl Undefined
        else \<forall>v. handle E AgentsInfoHandler c' j u = Inr v \<longrightarrow> map_of (AllAgents v) ?a = Some None"
      using here by (rule conjunct1)
    show "\<exists>v. handle E AgentsInfoHandler c' j u = Inr v" if "remAgentIds info = []" using here that by blast
  qed simp
qed

text \<open>The id z of a stray message, and messages that add and remove it.\<close>

definition add_z :: MessageConglomerate where
  "add_z = demo_message (objectValue [(''add'', arrayValue [stringValue ''z''])]) ''new_agents''"

definition rem_z :: MessageConglomerate where
  "rem_z = demo_message (objectValue [(''rem'', arrayValue [stringValue ''z''])]) ''new_agents''"

theorem stray_opaque_send_blocks_agent_witness:
  "\<exists>w' u. handle (fresh_E demo_lib) OpaqueSendHandler (demo_opaque ''z'') 0 rem_broker = Inr w' \<and>
     handle_message (fresh_E demo_lib) add_z 0 w' = Inr u \<and> map_of (AllAgents u) ''z'' = Some None \<and>
     handle (fresh_E demo_lib) AgentsInfoHandler rem_z 0 u = Inl Undefined"
proof -
  let ?E = "fresh_E demo_lib"
  have parse: "parseOpaqueSend (lib ?E) (demo_opaque ''z'') 0 = Inr (demo_os ''z'')"
      "parseNewAgents (lib ?E) add_z 0 = Inr \<lparr>msg_type = ''new_agents'', addAgentIds = [''z''], remAgentIds = []\<rparr>"
      "parseNewAgents (lib ?E) rem_z 0 = Inr \<lparr>msg_type = ''new_agents'', addAgentIds = [], remAgentIds = [''z'']\<rparr>"
    using demo_opaque_parse [of "''z''"]
    by (simp_all add: parseNewAgents_def add_z_def rem_z_def demo_message_def parse_simps MessageBase.extend_def
        AgentsInfoMessage.fields_def)
  have "json_doc (lib ?E)" "agents_ok rem_broker" "all_ready ?E rem_broker" "map_of (AllAgents rem_broker) (fromId (demo_os ''z'')) = None"
    using rem_fit [of demo_lib] by (simp_all add: demo_lib_doc fit_def rem_broker_def demo_os_def)
  note stray = stray_opaque_send_blocks_agent [OF this(1) fresh_laws this(2,3) parse(1) this(4)]
  moreover have "fromId (demo_os ''z'') = ''z''" by (simp add: demo_os_def)
  ultimately obtain w' where w': "handle ?E OpaqueSendHandler (demo_opaque ''z'') 0 rem_broker = Inr w'"
    and later: "\<And>u. later ?E w' u \<Longrightarrow> map_of (AllAgents u) ''z'' = Some None \<and> (\<forall>c' j info. parseNewAgents (lib ?E) c' j = Inr info \<longrightarrow>
        (if ''z'' \<in> set (remAgentIds info) then handle ?E AgentsInfoHandler c' j u = Inl Undefined
         else \<forall>v. handle ?E AgentsInfoHandler c' j u = Inr v \<longrightarrow> map_of (AllAgents v) ''z'' = Some None) \<and>
        (remAgentIds info = [] \<longrightarrow> (\<exists>v. handle ?E AgentsInfoHandler c' j u = Inr v)))"
    by (simp only:) blast
  obtain u where "handle ?E AgentsInfoHandler add_z 0 w' = Inr u" using later [OF now] parse(2) by fastforce
  moreover have "handleLookup w' = new_HandlerLookup"
    using agents_only_broker(4) [OF handle_only [OF w']] by (simp add: rem_broker_def demo_broker_def)
  ultimately have u: "handle_message ?E add_z 0 w' = Inr u"
    by (simp add: handle_message_def add_z_def demo_message_def getBaseMessage_def vec_at_def getHandler_def new_HandlerLookup_def)
  have "handle ?E AgentsInfoHandler rem_z 0 u = Inl Undefined" using later [OF message [OF now u]] parse(3) by fastforce
  with w' u later [OF message [OF now u]] show ?thesis by blast
qed

end
