(* ===== verification/Spec2Isabelle.thy ===== *)
theory Spec2Isabelle
  imports Serialize_Bounds Broker_Start_Props RR_Props Network_Props Packet_Props Program_Props Agent_Lifetime
begin

text \<open>
  A model of sm4ns3, the plugin that joins Sim Mobility and ns-3, and what is proved of it.

  THE PROGRAM. Sim Mobility simulates agents that move and want to talk; ns-3 simulates their
  radio. A \<open>Broker\<close> (src/model/smb_broker.cc) registers with Sim Mobility over a TCP connection
  and then runs two threads. The I/O thread reads bundles of messages (a header of eight bytes
  and a text that holds the messages), puts them into a thread-safe queue and clears the flag
  \<open>m_pause\<close>. The simulator thread, in \<open>Broker::pause\<close>, waits for the flag, hands every queued
  message to the handler of its type, writes the messages that have accumulated and a
  ticked_client message, and schedules itself again after 100 ms of simulated time. The
  handlers add, remove and move agents, and send packets between their ns-3 sockets; a packet
  that arrives is turned into a message for Sim Mobility. \<open>RoadRunnerBaseLine\<close> is a broker
  that replays a trace file instead of talking to Sim Mobility.

  THE THEORIES, with the source they model (under src/model):
    \<^item> Prelude, Std_Lib: outcomes (a value, an exception or undefined behaviour), bytes,
      \<open>int\<close> and \<open>unsigned int\<close>, \<open>std::map\<close> as a sorted association list, \<open>std::string\<close>; and the runs
      of the abstract machines that components refine.
    \<^item> Json_Lib, Json_Writer: JsonCpp as a parameter; \<open>JsonSingleLineWriter\<close>
      (message/serialize.cc) and its reference rendering.
    \<^item> Codec, Bundle_Version: the contracts of the wire format; bundle_version.h and .cc.
    \<^item> Messages, Conglomerate, Serialize: message/messages.h, and message/serialize.h and .cc:
      the messages, \<open>MessageConglomerate\<close>, \<open>OngoingSerialization\<close> and \<open>JsonParser\<close>.
    \<^item> Environment: every call to boost::asio, ns-3 and the operating system, as an event of a
      history; what a call returns is a function of the history.
    \<^item> Ts_Queue: thread_safe_queue.h.
    \<^item> Network: network/smb_session.h and .cc, network/smb_connection.h and .cc.
    \<^item> Helpers: smb_base_wifi, smb_base_ip and smb_base_mobility (.h and .cc): what the classes
      set on the helpers of ns-3, and the static members of \<open>Agent\<close> that are made of them.
    \<^item> Agents: smb_agent.h and .cc; Agent_Lifetime: what is left of an agent that is removed, and of
      an id that was looked up before it had one.
    \<^item> Handlers: message/handlers.h and .cc.
    \<^item> Broker, Broker_Steps, Broker_Start: smb_broker.h and .cc: the operations, the two
      threads as a step relation, and \<open>Broker::start\<close>. An end of file, which closes the socket without
      a lock and then delivers, is two steps. Mailbox: the abstract machine that the step relation
      refines; Processing_Order: which bundles the handlers have worked on, and in which order.
    \<^item> Registration, Registration_Init, Registration_Dialogue: network/registration.h and .cc.
    \<^item> Profile_Builder: profile_builder.h and .cc.
    \<^item> RR_Trace, RR_Baseline, RR_Replay, RR_Log: testing/rr_baseline.h and .cc; RR_Log says what a
      replay logs.
    \<^item> Programs: examples/simmobility-example.cc and examples/simmobility-RR-baseline.cc (under src).
    \<^item> Message_Types: the types of the messages as schemas, for what message/serialize.cc parses
      and makes.

  THE STATE is a record that grows with the components: \<open>base_world\<close> (the history),
  \<open>net_world\<close> (the connection), \<open>agent_world\<close> (the heap of agents, the map of agents, the
  outgoing messages), \<open>broker_world\<close> (the queue, the flag, the tick count), \<open>rr_world\<close> (the
  trace). An operation of a component works on every extension of its state, so the broker
  calls the agents' operations on its own state. An operation that can throw returns an
  \<open>outcome\<close>; a dereference of null, an iterator at its end and a division by zero are the
  outcome \<open>Undefined\<close>.

  THE INTERFACES are locales, each interpreted on the model: \<open>header_codec\<close> (both bundle
  headers), \<open>field_codec\<close> (the characters of the identifiers and the 3-byte message lengths),
  \<open>fifo\<close> (the queue), \<open>transport\<close> (the connection), \<open>handler\<close> (all message handlers, for the
  well-formedness of the agents, for their readiness, for their lifetime and for the null entries),
  \<open>simulation\<close> (a step relation and the machine that it refines).
\<close>

text \<open>
  WHAT IS PROVED.
    \<^item> The wire format (Serialize, Serialize_Props, Network_Props): a bundle is read back as it
      was built; a text that is accepted, whatever it is, yields a well-formed conglomerate;
      headers round-trip and what they lose; messages round-trip; the writer agrees with its
      reference; what one end of a connection sends the other end receives; which announcements
      of a header make the reader leave the text (Serialize_Bounds).
    \<^item> The message types (Message_Types, Typed_Props): a message of its type is handled without an
      error and leaves agents on which the next one can be handled, as long as the ids that are
      removed (a set \<open>R\<close>) are none that opaque_send names; what is sent is typed and has exactly the
      members that it should; so a broker to which such bundles keep arriving keeps ticking.
    \<^item> The broker (Mailbox, Processing_Order, Broker_Props, Broker_Link_Props): its two threads refine a
      mailbox; so in every interleaving bundles are handled once and in order, the simulator
      never runs ahead of the network, and the invariant \<open>broker_ok\<close> holds; what a tick does; bundles
      keep arriving while the link is up, and what happens when it is lost.
    \<^item> The agents and the handlers (Handler_Props, Packet_Props, Agent_Lifetime): what each message
      does to the agents, which packets are sent to whom, what is forwarded of a packet, the
      callbacks of agents that have been removed or added twice, and the ids that a stray message
      has blocked.
    \<^item> From the start (Registration_Props, Broker_Start_Props): connecting ends; the dialogue
      completes with a peer that follows it; a Default registration leaves exactly the agents that
      the peer has announced, all ready, so the invariant holds in every run of a broker that
      has started; an stk registration forms one group.
    \<^item> The baseline (RR_Trace_Props, RR_Props, Profile_Builder): a recorded trace is read for
      what it says; the start makes all agents ready; the replay of ten or more ticks completes,
      with the positions and delays of the trace; the log holds every buffer once, and its closing
      line while the file is open.
    \<^item> The programs (Program_Props): a client that has started keeps ticking while typed bundles
      arrive, and can end only when its peer closes the connection; the baseline runs from its
      command line to the exit code 0 and leaves a complete log; its radio is the one of the agents.
    \<^item> Failures, as theorems: bundles that repeat old messages, messages that cannot be sent or
      lose their data, agents that are blocked or unusable, a link that stalls, traces that
      cannot be replayed. Each is stated for the code as it is.

  THE LAWS of the libraries that theorems name, each with an instance: \<open>json_doc\<close> (JsonCpp's
  accessors on values of the right kind), \<open>ns3_laws\<close> and \<open>ns3_one_each\<close> (helpers return
  devices, interfaces and sockets for what they are given), \<open>delivers\<close> (a peer that sends a stream
  of bytes), \<open>closed_after_close\<close> and \<open>open_by_links\<close> (whether a socket is open depends
  on the connects and closes before), \<open>sockets_fresh\<close> (a new socket has no callback),
  \<open>log_stays_open\<close> and \<open>log_laws\<close> (the log file is open from its opening to its closing), \<open>resolves\<close>
  (the name of the host has an address), \<open>json_checked\<close> (JsonCpp returns or throws), \<open>boost_doc\<close>
  (splitting and reading numbers in a well-formed trace line). Where a theorem needs that the library reads a
  text that it has written, it says so of the texts in question. The environment's answers are
  otherwise arbitrary.

  LOOPS end by their structure or a measure: the queue's length for \<open>processIncoming\<close> (handlers
  do not push), the distance to the timeout, modulo \<open>2 ^ 32\<close>, for \<open>doConnect\<close>. The waiting of
  \<open>pause\<close> is one step of the relation per iteration, so that it may go on forever. \<open>rr_run\<close> and
  \<open>receive_all\<close> take the number of calls, and \<open>rr_simulate\<close>, the simulator of the baseline, a bound on
  it; the theorems give the number that is enough, for a replay the number of ticks.
\<close>

text \<open>
  NOT MODELLED. \<open>Agent::DevRxTrace\<close>, which prints, and \<open>GetTypeId\<close>, which registers the class with
  ns-3; \<open>BaseIP::configure\<close> and \<open>BaseMobility::init\<close>, which are
  empty; \<open>SetBasicNetworking\<close> and \<open>RoadRunnerBaseLine::reset\<close>, which have no body; \<open>run_io_service\<close>,
  whose loop over the handlers is the step relation; \<open>getOutgoing\<close> and \<open>getConnection\<close>, which are
  fields of the state here; \<open>~HandlerLookup\<close>, because handlers have no state. What is printed is
  left out, except where printing dereferences or divides. The
  command-line parser of ns-3 is a parameter, a value for each option that was given.

  BOUNDS. Machine integers have their width: the header's lengths, the counters and the ticks are
  32-bit words, and additions that overflow an \<open>int\<close> are undefined. The sizes of strings are unbounded but for
  the conversions to \<open>int\<close> and \<open>size_t\<close> that the code makes. Doubles are opaque words: they are
  read, written and passed on, never computed with. Threads interleave between the atomic
  calls, which hold the broker's mutex; accesses outside of any lock are not modelled
  at a finer grain.
\<close>

end
